(* ===== verification/Prelude.thy ===== *)
theory Prelude
  imports
    Main
    "HOL-Library.AList"
    "HOL-Library.List_Lexorder"
    "HOL-Library.Char_ord"
    "HOL-Library.Multiset"
    "HOL-Library.Sublist"
begin

section \<open>Go values in HOL\<close>

text \<open>
  The shared base of the development: how the values of the Go sources are represented,
  and the generic lemmas every component uses.

  \<^item> A Go \<open>map[K]V\<close> is an association list with distinct keys (\<open>wf_map\<close>). The order of the
    list stands for the iteration order of one run, which Go leaves open: a statement about
    all association lists is a statement about every iteration order. A nil map is the
    empty list (reading either gives the zero value).
  \<^item> \<open>m[k]\<close> with its comma-ok form is \<open>map_of\<close>; the one-value form on string values is
    \<open>mapidx\<close>, the empty string when the key is absent.
  \<^item> Signed machine integers are \<open>int\<close>, with the wrap-around of a width written as \<open>i32\<close>
    or \<open>i64\<close> at each operation that can leave the range. Unsigned ones are words.
\<close>

named_theorems go_map \<open>laws of Go maps\<close>
named_theorems go_str \<open>laws of the strings package\<close>

subsection \<open>Maps\<close>

type_synonym ('k, 'v) gomap = "('k \<times> 'v) list"
type_synonym smap = "(string, string) gomap"

abbreviation keys :: "('k, 'v) gomap \<Rightarrow> 'k list" where
  "keys m \<equiv> map fst m"

abbreviation wf_map :: "('k, 'v) gomap \<Rightarrow> bool" where
  "wf_map m \<equiv> distinct (keys m)"

abbreviation mapset :: "('k, 'v) gomap \<Rightarrow> 'k \<Rightarrow> 'v \<Rightarrow> ('k, 'v) gomap" where
  "mapset m k v \<equiv> AList.update k v m"

abbreviation mapdel :: "('k, 'v) gomap \<Rightarrow> 'k \<Rightarrow> ('k, 'v) gomap" where
  "mapdel m k \<equiv> AList.delete k m"

definition mapidx :: "('k \<times> 'a list) list \<Rightarrow> 'k \<Rightarrow> 'a list" where
  "mapidx m k = (case map_of m k of None \<Rightarrow> [] | Some v \<Rightarrow> v)"

fun range_set :: "('k, 'v) gomap \<Rightarrow> ('k, 'v) gomap \<Rightarrow> ('k, 'v) gomap" where
  "range_set out [] = out"
| "range_set out ((k, v) # src) = range_set (mapset out k v) src"

text \<open>\<open>range_set out src\<close> is the loop \<open>for k, v := range src { out[k] = v }\<close>.\<close>

lemma wf_mapset [simp, go_map]: "wf_map m \<Longrightarrow> wf_map (mapset m k v)"
  by (rule distinct_update)

lemma wf_mapdel [simp, go_map]: "wf_map m \<Longrightarrow> wf_map (mapdel m k)"
  by (rule distinct_delete)

lemma map_of_mapset [simp, go_map]: "map_of (mapset m k v) = (map_of m)(k \<mapsto> v)"
  by (rule update_conv')

lemma map_of_mapdel [simp, go_map]: "map_of (mapdel m k) = (map_of m)(k := None)"
  by (rule delete_conv')

lemma keys_mapset [simp, go_map]: "fst ` set (mapset m k v) = insert k (fst ` set m)"
  using dom_update [of k v m] by (simp add: dom_map_of_conv_image_fst)

lemma wf_range_set [simp, go_map]: "wf_map out \<Longrightarrow> wf_map (range_set out src)"
  by (induction out src rule: range_set.induct) simp_all

lemma map_of_range_set:
  "map_of (range_set out src) k =
     (case map_of (rev src) k of None \<Rightarrow> map_of out k | Some v \<Rightarrow> Some v)"
  by (induction out src rule: range_set.induct)
     (auto simp: map_add_def split: option.splits)

lemma map_of_rev_wf: "wf_map m \<Longrightarrow> map_of (rev m) = map_of m"
  by (rule map_of_inject_set [THEN iffD2]) (simp_all flip: rev_map)

lemma range_set_lookup [go_map]:
  "wf_map src \<Longrightarrow> map_of (range_set out src) = map_of out ++ map_of src"
  by (rule ext) (simp add: map_of_range_set map_of_rev_wf map_add_def)

lemma keys_range_set [simp, go_map]:
  "fst ` set (range_set out src) = fst ` set out \<union> fst ` set src"
  by (induction out src rule: range_set.induct) auto

lemma mapidx_mapset [simp, go_map]:
  "mapidx (mapset m k v) k' = (if k' = k then v else mapidx m k')"
  by (simp add: mapidx_def)

lemma mapidx_Some: "map_of m k = Some v \<Longrightarrow> mapidx m k = v"
  by (simp add: mapidx_def)

lemma mapidx_None [simp]: "map_of m k = None \<Longrightarrow> mapidx m k = []"
  by (simp add: mapidx_def)

lemma mapidx_Cons [simp]:
  "mapidx ((k, v) # m) k' = (if k' = k then v else mapidx m k')"
  by (simp add: mapidx_def)

lemma mapidx_Nil [simp]: "mapidx [] k = []"
  by (simp add: mapidx_def)

text \<open>Two maps with the same entries are the same map, whatever their iteration orders.\<close>

lemma sort_keys_cong:
  fixes m :: "(string, 'v) gomap"
  assumes "wf_map m" "wf_map m'" "set m = set m'"
  shows "sort (keys m) = sort (keys m')"
proof -
  from assms(3) have "set (keys m) = set (keys m')" by simp
  with assms(1,2) show ?thesis
    by (simp add: sorted_distinct_set_unique)
qed

lemma map_of_cong_set:
  assumes "wf_map m" "wf_map m'" "set m = set m'"
  shows "map_of m = map_of m'"
  using map_of_inject_set [OF assms(1,2)] assms(3) by simp

subsection \<open>Machine integers\<close>

definition i32 :: "int \<Rightarrow> int" where
  "i32 x = (x + 2 ^ 31) mod 2 ^ 32 - 2 ^ 31"

definition i64 :: "int \<Rightarrow> int" where
  "i64 x = (x + 2 ^ 63) mod 2 ^ 64 - 2 ^ 63"

definition is_int32 :: "int \<Rightarrow> bool" where
  "is_int32 x \<longleftrightarrow> - (2 ^ 31) \<le> x \<and> x < 2 ^ 31"

definition is_int64 :: "int \<Rightarrow> bool" where
  "is_int64 x \<longleftrightarrow> - (2 ^ 63) \<le> x \<and> x < 2 ^ 63"

lemma i32_id [simp]: "is_int32 x \<Longrightarrow> i32 x = x"
  by (simp add: i32_def is_int32_def)

lemma i64_id [simp]: "is_int64 x \<Longrightarrow> i64 x = x"
  by (simp add: i64_def is_int64_def)

lemma is_int32_i32 [simp]: "is_int32 (i32 x)"
  by (simp add: i32_def is_int32_def)

lemma is_int64_i64 [simp]: "is_int64 (i64 x)"
  by (simp add: i64_def is_int64_def)

text \<open>Wrapping is arithmetic modulo the width, so inner wraps of sums and products can be dropped.\<close>

lemma i64_eq_iff: "i64 x = i64 y \<longleftrightarrow> x mod 2 ^ 64 = y mod 2 ^ 64"
proof -
  have "i64 x = i64 y \<longleftrightarrow> (x + 2 ^ 63) mod 2 ^ 64 = (y + 2 ^ 63) mod 2 ^ 64" unfolding i64_def by linarith
  also have "\<dots> \<longleftrightarrow> x mod 2 ^ 64 = y mod 2 ^ 64" by (simp only: mod_eq_dvd_iff add_diff_cancel_right)
  finally show ?thesis .
qed

lemma i64_mod: "i64 x mod 2 ^ 64 = x mod 2 ^ 64"
  using is_int64_i64 [of x] i64_eq_iff [of "i64 x" x] by simp

lemma i64_add_wrap [simp]: "i64 (i64 a + b) = i64 (a + b)" "i64 (a + i64 b) = i64 (a + b)"
  unfolding i64_eq_iff by (metis i64_mod mod_add_cong)+

lemma i64_diff_wrap [simp]: "i64 (i64 a - b) = i64 (a - b)" "i64 (a - i64 b) = i64 (a - b)"
  unfolding i64_eq_iff by (metis i64_mod mod_diff_cong)+

lemma i64_mult_wrap [simp]: "i64 (i64 a * b) = i64 (a * b)" "i64 (a * i64 b) = i64 (a * b)"
  unfolding i64_eq_iff by (metis i64_mod mod_mult_cong)+

text \<open>Go's division and remainder truncate toward zero.\<close>

definition gquot :: "int \<Rightarrow> int \<Rightarrow> int" where
  "gquot a b = sgn a * sgn b * (\<bar>a\<bar> div \<bar>b\<bar>)"

definition grem :: "int \<Rightarrow> int \<Rightarrow> int" where
  "grem a b = a - gquot a b * b"

lemma gquot_nonneg [simp]: "0 \<le> a \<Longrightarrow> 0 < b \<Longrightarrow> gquot a b = a div b"
  by (cases "a = 0") (simp_all add: gquot_def)

lemma grem_nonneg [simp]: "0 \<le> a \<Longrightarrow> 0 < b \<Longrightarrow> grem a b = a mod b"
  by (simp add: grem_def minus_div_mult_eq_mod)

subsection \<open>Loops with an early return\<close>

text \<open>
  A Go loop \<open>for _, x := range xs { if p(x) { return true } }; return false\<close> is
  \<open>list_ex p xs\<close>; the loop that returns the first matching element (or nil) is
  \<open>List.find p xs\<close>.
\<close>

lemma find_Some_first:
  "List.find p xs = Some x \<Longrightarrow> x \<in> set xs \<and> p x"
  by (auto simp: find_Some_iff)

lemma list_ex_find: "list_ex p xs \<longleftrightarrow> List.find p xs \<noteq> None"
  by (induction xs) auto

lemma filter_mset_partition:
  "mset (filter p xs) + mset (filter (\<lambda>x. \<not> p x) xs) = mset xs"
  by (induction xs) auto

end
