(* ===== verification/Go_Strings.thy ===== *)
theory Go_Strings
  imports Prelude
begin

section \<open>Go strings: bytes, runes, numbers, the strings package\<close>

text \<open>
  A Go string is a sequence of bytes; \<open>char\<close> is HOL's byte, so a Go string is a HOL
  \<open>string\<close> and \<open>len(s)\<close> is \<open>length s\<close>. The functions here are those parts of \<open>strings\<close>,
  \<open>strconv\<close>, \<open>unicode\<close> and \<open>fmt\<close> that the sources call, with separators of one byte where
  the sources only use such. A loop \<open>for _, r := range s\<close> ranges over \<open>runes s\<close>, the
  UTF-8 decoding with U+FFFD for each invalid byte. The Unicode tables beyond Latin-1 are
  data the Go distribution ships; they are the argument \<open>unitab\<close> of the definitions that
  consult them, and every statement holds for all tables.
\<close>

subsection \<open>Bytes and decimal numbers\<close>

abbreviation byte :: "char \<Rightarrow> nat" where
  "byte c \<equiv> of_char c"

definition is_digit :: "char \<Rightarrow> bool" where
  "is_digit c \<longleftrightarrow> 48 \<le> byte c \<and> byte c \<le> 57"

definition digit_char :: "nat \<Rightarrow> char" where
  "digit_char d = char_of (48 + d)"

fun dec_nat :: "nat \<Rightarrow> string" where
  "dec_nat n = (if n < 10 then [digit_char n] else dec_nat (n div 10) @ [digit_char (n mod 10)])"

declare dec_nat.simps [simp del]

text \<open>\<open>dec\<close> is the verb \<open>%d\<close> (and \<open>strconv.Itoa\<close>).\<close>

definition dec :: "int \<Rightarrow> string" where
  "dec x = (if x < 0 then CHR ''-'' # dec_nat (nat (- x)) else dec_nat (nat x))"

definition digits_val :: "string \<Rightarrow> nat" where
  "digits_val s = foldl (\<lambda>n c. 10 * n + (byte c - 48)) 0 s"

text \<open>\<open>strconv.Atoi\<close>: an optional sign, at least one digit, the value in the range of int64;
  None stands for any error.\<close>

definition Atoi :: "string \<Rightarrow> int option" where
  "Atoi s =
     (let neg = (s \<noteq> [] \<and> hd s = CHR ''-'');
          ds = (if s \<noteq> [] \<and> (hd s = CHR ''-'' \<or> hd s = CHR ''+'') then tl s else s);
          v = (if neg then - int (digits_val ds) else int (digits_val ds))
      in if ds = [] \<or> \<not> list_all is_digit ds \<or> \<not> is_int64 v then None else Some v)"

lemma byte_less_256 [simp]: "byte c < 256"
  by (simp add: of_char_def)

lemma byte_char_of [simp]: "n < 256 \<Longrightarrow> byte (char_of n) = n"
  by (simp add: of_char_of)

lemma byte_inject [simp]: "byte c = byte d \<longleftrightarrow> c = d"
  by (rule of_char_eq_iff)

lemma is_digit_digit_char [simp]: "d < 10 \<Longrightarrow> is_digit (digit_char d)"
  by (simp add: is_digit_def digit_char_def)

lemma byte_digit_char [simp]: "d < 10 \<Longrightarrow> byte (digit_char d) = 48 + d"
  by (simp add: digit_char_def)

lemma digit_chars [simp]:
  "digit_char 0 = CHR ''0''" "digit_char 1 = CHR ''1''" "digit_char 2 = CHR ''2''"
  "digit_char 3 = CHR ''3''" "digit_char 4 = CHR ''4''" "digit_char 5 = CHR ''5''"
  "digit_char 6 = CHR ''6''" "digit_char 7 = CHR ''7''" "digit_char 8 = CHR ''8''"
  "digit_char 9 = CHR ''9''"
  by code_simp+

lemma dec_nat_nonempty [simp]: "dec_nat n \<noteq> []"
  by (subst dec_nat.simps) simp

lemma dec_nat_digits [simp]: "list_all is_digit (dec_nat n)"
proof (induction n rule: dec_nat.induct)
  case (1 n)
  then show ?case by (cases "n < 10") (simp_all add: dec_nat.simps [of n])
qed

lemma digits_val_snoc [simp]: "digits_val (s @ [c]) = 10 * digits_val s + (byte c - 48)"
  by (simp add: digits_val_def)

lemma digits_val_Nil [simp]: "digits_val [] = 0"
  by (simp add: digits_val_def)

lemma digits_val_dec_nat [simp]: "digits_val (dec_nat n) = n"
proof (induction n rule: dec_nat.induct)
  case (1 n)
  show ?case
  proof (cases "n < 10")
    case True
    then have "dec_nat n = [] @ [digit_char n]" by (simp add: dec_nat.simps [of n])
    then show ?thesis using True by (simp only: digits_val_snoc) simp
  next
    case False
    with "1.IH" have "digits_val (dec_nat (n div 10)) = n div 10" by simp
    with False show ?thesis by (simp add: dec_nat.simps [of n])
  qed
qed

lemma dec_nat_inject [simp]: "dec_nat m = dec_nat n \<longleftrightarrow> m = n"
  by (metis digits_val_dec_nat)

lemma is_digit_not_sign: "is_digit c \<Longrightarrow> c \<noteq> CHR ''-'' \<and> c \<noteq> CHR ''+''"
  by (auto simp: is_digit_def)

lemma hd_dec_nat_digit: "is_digit (hd (dec_nat n))"
  using dec_nat_digits [of n] dec_nat_nonempty [of n] by (cases "dec_nat n") auto

lemma Atoi_dec: "is_int64 x \<Longrightarrow> Atoi (dec x) = Some x"
  using is_digit_not_sign [OF hd_dec_nat_digit, of "nat x"]
  by (simp add: Atoi_def dec_def Let_def)

lemma Atoi_range: "Atoi s = Some v \<Longrightarrow> is_int64 v"
  by (auto simp: Atoi_def Let_def split: if_splits)

subsection \<open>Searching, splitting and joining\<close>

text \<open>\<open>strings.Index\<close> for a separator of one byte: None is the result -1.\<close>

fun IndexByte :: "string \<Rightarrow> char \<Rightarrow> nat option" where
  "IndexByte [] c = None"
| "IndexByte (x # xs) c = (if x = c then Some 0 else map_option Suc (IndexByte xs c))"

definition LastIndexByte :: "string \<Rightarrow> char \<Rightarrow> nat option" where
  "LastIndexByte s c = map_option (\<lambda>i. length s - Suc i) (IndexByte (rev s) c)"

text \<open>\<open>strings.Split\<close> for a separator of one byte.\<close>

fun splitc :: "char \<Rightarrow> string \<Rightarrow> string list" where
  "splitc c [] = [[]]"
| "splitc c (x # xs) =
     (if x = c then [] # splitc c xs else (x # hd (splitc c xs)) # tl (splitc c xs))"

text \<open>\<open>strings.SplitN(s, sep, 2)\<close>.\<close>

definition splitn2 :: "char \<Rightarrow> string \<Rightarrow> string list" where
  "splitn2 c s = (case IndexByte s c of None \<Rightarrow> [s] | Some i \<Rightarrow> [take i s, drop (Suc i) s])"

fun Join :: "string list \<Rightarrow> string \<Rightarrow> string" where
  "Join [] sep = []"
| "Join [p] sep = p"
| "Join (p # q # ps) sep = p @ sep @ Join (q # ps) sep"

text \<open>\<open>strings.ReplaceAll\<close> for an old string of one byte.\<close>

definition ReplaceAll :: "string \<Rightarrow> char \<Rightarrow> string \<Rightarrow> string" where
  "ReplaceAll s c r = concat (map (\<lambda>x. if x = c then r else [x]) s)"

definition ContainsAny :: "string \<Rightarrow> string \<Rightarrow> bool" where
  "ContainsAny s cs \<longleftrightarrow> list_ex (\<lambda>c. c \<in> set cs) s"

definition TrimLeft :: "string \<Rightarrow> string \<Rightarrow> string" where
  "TrimLeft s cs = dropWhile (\<lambda>c. c \<in> set cs) s"

definition TrimRight :: "string \<Rightarrow> string \<Rightarrow> string" where
  "TrimRight s cs = rev (dropWhile (\<lambda>c. c \<in> set cs) (rev s))"

definition TrimPrefix :: "string \<Rightarrow> string \<Rightarrow> string" where
  "TrimPrefix s p = (if prefix p s then drop (length p) s else s)"

definition TrimSuffix :: "string \<Rightarrow> string \<Rightarrow> string" where
  "TrimSuffix s p = (if suffix p s then take (length s - length p) s else s)"

lemma IndexByte_None [simp]: "IndexByte s c = None \<longleftrightarrow> c \<notin> set s"
  by (induction s) auto

lemma IndexByte_append [go_str]: "c \<notin> set a \<Longrightarrow> IndexByte (a @ c # b) c = Some (length a)"
  by (induction a) auto

lemma IndexByte_SomeD:
  "IndexByte s c = Some i \<Longrightarrow> i < length s \<and> s ! i = c \<and> c \<notin> set (take i s)"
  by (induction s arbitrary: i) (auto split: if_splits)

lemma IndexByte_split:
  assumes "IndexByte s c = Some i"
  shows "s = take i s @ c # drop (Suc i) s"
  using IndexByte_SomeD [OF assms] by (metis id_take_nth_drop)

lemma LastIndexByte_None [simp]: "LastIndexByte s c = None \<longleftrightarrow> c \<notin> set s"
  by (simp add: LastIndexByte_def)

lemma LastIndexByte_append [go_str]:
  assumes "c \<notin> set b" shows "LastIndexByte (a @ c # b) c = Some (length a)"
proof -
  have "IndexByte (rev b @ c # rev a) c = Some (length (rev b))"
    using assms by (intro IndexByte_append) simp
  then show ?thesis by (simp add: LastIndexByte_def)
qed

lemma splitc_nonempty [simp]: "splitc c s \<noteq> []"
  by (cases s) auto

lemma splitc_no_sep [simp]: "c \<notin> set s \<Longrightarrow> splitc c s = [s]"
  by (induction s) auto

lemma splitc_append [go_str]: "c \<notin> set a \<Longrightarrow> splitc c (a @ c # b) = a # splitc c b"
  by (induction a) auto

lemma splitc_parts: "p \<in> set (splitc c s) \<Longrightarrow> c \<notin> set p"
proof (induction s arbitrary: p)
  case (Cons x xs)
  then show ?case
    by (cases "splitc c xs") (auto split: if_splits)
qed simp

lemma set_splitc: "p \<in> set (splitc c s) \<Longrightarrow> set p \<subseteq> set s"
proof (induction s arbitrary: p)
  case (Cons x xs)
  then show ?case
    by (cases "splitc c xs") (fastforce split: if_splits)+
qed simp

lemma Join_Cons: "Join (p # ps) sep = p @ (if ps = [] then [] else sep @ Join ps sep)"
  by (cases ps) auto

lemma Join_splitc [simp, go_str]: "Join (splitc c s) [c] = s"
proof (induction s)
  case (Cons x xs)
  then show ?case
    by (cases "splitc c xs") (auto simp: Join_Cons split: if_splits)
qed simp

lemma splitc_Join [go_str]:
  "ps \<noteq> [] \<Longrightarrow> \<forall>p \<in> set ps. c \<notin> set p \<Longrightarrow> splitc c (Join ps [c]) = ps"
proof (induction ps "[c]" rule: Join.induct)
  case (3 p q ps)
  then show ?case by (simp add: splitc_append)
qed auto

lemma ReplaceAll_simps [simp]:
  "ReplaceAll [] c r = []"
  "ReplaceAll (x # xs) c r = (if x = c then r else [x]) @ ReplaceAll xs c r"
  by (simp_all add: ReplaceAll_def)

lemma ReplaceAll_append [simp]: "ReplaceAll (a @ b) c r = ReplaceAll a c r @ ReplaceAll b c r"
  by (simp add: ReplaceAll_def)

lemma ReplaceAll_id [simp]: "c \<notin> set s \<Longrightarrow> ReplaceAll s c r = s"
  by (induction s) auto

lemma TrimPrefix_append [simp]: "TrimPrefix (p @ s) p = s"
  by (simp add: TrimPrefix_def)

lemma TrimSuffix_append [simp]: "TrimSuffix (s @ p) p = s"
  by (simp add: TrimSuffix_def suffix_def)

subsection \<open>White space\<close>

text \<open>
  The UTF-8 encodings of the runes for which \<open>unicode.IsSpace\<close> holds. A lead byte never
  occurs inside a valid encoding of another rune, so a string starts (ends) with a space
  rune exactly when it starts (ends) with one of these byte sequences.
\<close>

definition space_encodings :: "string list" where
  "space_encodings =
     [[CHR 0x09], [CHR 0x0A], [CHR 0x0B], [CHR 0x0C], [CHR 0x0D], [CHR 0x20],
      [CHR 0xC2, CHR 0x85], [CHR 0xC2, CHR 0xA0], [CHR 0xE1, CHR 0x9A, CHR 0x80],
      [CHR 0xE2, CHR 0x80, CHR 0x80], [CHR 0xE2, CHR 0x80, CHR 0x81],
      [CHR 0xE2, CHR 0x80, CHR 0x82], [CHR 0xE2, CHR 0x80, CHR 0x83],
      [CHR 0xE2, CHR 0x80, CHR 0x84], [CHR 0xE2, CHR 0x80, CHR 0x85],
      [CHR 0xE2, CHR 0x80, CHR 0x86], [CHR 0xE2, CHR 0x80, CHR 0x87],
      [CHR 0xE2, CHR 0x80, CHR 0x88], [CHR 0xE2, CHR 0x80, CHR 0x89],
      [CHR 0xE2, CHR 0x80, CHR 0x8A], [CHR 0xE2, CHR 0x80, CHR 0xA8],
      [CHR 0xE2, CHR 0x80, CHR 0xA9], [CHR 0xE2, CHR 0x80, CHR 0xAF],
      [CHR 0xE2, CHR 0x81, CHR 0x9F], [CHR 0xE3, CHR 0x80, CHR 0x80]]"

text \<open>The number of bytes of the space rune at the head of a string, 0 if there is none.\<close>

definition space_len :: "string \<Rightarrow> nat" where
  "space_len s = (case List.find (\<lambda>e. prefix e s) space_encodings of
                    None \<Rightarrow> 0 | Some e \<Rightarrow> length e)"

definition space_len_last :: "string \<Rightarrow> nat" where
  "space_len_last s = (case List.find (\<lambda>e. suffix e s) space_encodings of
                         None \<Rightarrow> 0 | Some e \<Rightarrow> length e)"

lemma space_len_Nil [simp]: "space_len [] = 0"
  by (simp add: space_len_def space_encodings_def)

lemma space_len_last_Nil [simp]: "space_len_last [] = 0"
  by (simp add: space_len_last_def space_encodings_def)

function trim_space_left :: "string \<Rightarrow> string" where
  "trim_space_left s = (if space_len s = 0 then s else trim_space_left (drop (space_len s) s))"
  by pat_completeness auto
termination
proof (relation "measure length")
  fix s :: string
  assume "space_len s \<noteq> 0"
  then show "(drop (space_len s) s, s) \<in> measure length"
    by (cases s) auto
qed simp

function trim_space_right :: "string \<Rightarrow> string" where
  "trim_space_right s =
     (if space_len_last s = 0 then s
      else trim_space_right (take (length s - space_len_last s) s))"
  by pat_completeness auto
termination
proof (relation "measure length")
  fix s :: string
  assume "space_len_last s \<noteq> 0"
  then show "(take (length s - space_len_last s) s, s) \<in> measure length"
    by (cases s) auto
qed simp

declare trim_space_left.simps [simp del] trim_space_right.simps [simp del]

definition TrimSpace :: "string \<Rightarrow> string" where
  "TrimSpace s = trim_space_right (trim_space_left s)"

text \<open>
  \<open>strings.Fields\<close>: \<open>acc\<close> is the field being read, in reverse order. An empty \<open>acc\<close> means no
  field is open.
\<close>

function fields_loop :: "string \<Rightarrow> string \<Rightarrow> string list" where
  "fields_loop acc s =
     (case s of
        [] \<Rightarrow> (if acc = [] then [] else [rev acc])
      | c # cs \<Rightarrow>
          (if space_len s = 0 then fields_loop (c # acc) cs
           else (if acc = [] then [] else [rev acc]) @ fields_loop [] (drop (space_len s) s)))"
  by pat_completeness auto
termination
  by (relation "measure (\<lambda>(acc, s). length s)") auto

declare fields_loop.simps [simp del]

definition Fields :: "string \<Rightarrow> string list" where
  "Fields s = fields_loop [] s"

text \<open>A string with no ASCII white space and no lead byte of a space rune has no space in it.\<close>

definition no_space_byte :: "char \<Rightarrow> bool" where
  "no_space_byte c \<longleftrightarrow> c \<notin> {CHR 0x09, CHR 0x0A, CHR 0x0B, CHR 0x0C, CHR 0x0D, CHR 0x20,
                             CHR 0xC2, CHR 0xE1, CHR 0xE2, CHR 0xE3}"

lemma space_len_no_space [simp]:
  assumes "no_space_byte c" shows "space_len (c # s) = 0"
proof -
  have "List.find (\<lambda>e. prefix e (c # s)) space_encodings = None"
    using assms unfolding find_None_iff
    by (auto simp: space_encodings_def no_space_byte_def)
  then show ?thesis by (simp add: space_len_def)
qed

lemma space_len_blank [simp]: "space_len (CHR '' '' # s) = 1"
  by (simp add: space_len_def space_encodings_def)

lemma fields_loop_word:
  "list_all no_space_byte w \<Longrightarrow>
   fields_loop acc (w @ s) = fields_loop (rev w @ acc) s"
  by (induction w arbitrary: acc) (simp_all add: fields_loop.simps [of _ "_ # _"])

lemma fields_loop_blank:
  "fields_loop acc (CHR '' '' # s) = (if acc = [] then [] else [rev acc]) @ fields_loop [] s"
  by (simp add: fields_loop.simps [of acc "CHR '' '' # s"])

lemma Fields_Join:
  assumes "\<forall>w \<in> set ws. w \<noteq> [] \<and> list_all no_space_byte w"
  shows "Fields (Join ws '' '') = ws"
  using assms unfolding Fields_def
proof (induction ws)
  case Nil
  then show ?case by (simp add: fields_loop.simps)
next
  case (Cons w ws)
  then have w: "list_all no_space_byte w" "w \<noteq> []" and ih: "fields_loop [] (Join ws '' '') = ws"
    by simp_all
  show ?case
  proof (cases "ws = []")
    case True
    with w fields_loop_word [of w "[]" "[]"] show ?thesis
      by (simp add: fields_loop.simps)
  next
    case False
    with w ih fields_loop_word [of w "[]" "CHR '' '' # Join ws '' ''"] show ?thesis
      by (simp add: Join_Cons fields_loop_blank)
  qed
qed

lemma encoding_has_space_byte: "e \<in> set space_encodings \<Longrightarrow> \<exists>c \<in> set e. \<not> no_space_byte c"
proof -
  have "list_all (list_ex (\<lambda>c. \<not> no_space_byte c)) space_encodings" by code_simp
  then show "e \<in> set space_encodings \<Longrightarrow> ?thesis" by (auto simp: list_all_iff list_ex_iff)
qed

lemma space_len_last_no_space:
  assumes "list_all no_space_byte w" shows "space_len_last w = 0"
proof -
  have "\<not> suffix e w" if "e \<in> set space_encodings" for e
    using encoding_has_space_byte [OF that] assms set_mono_suffix [of e w] by (auto simp: list_all_iff)
  then have "List.find (\<lambda>e. suffix e w) space_encodings = None" by (auto simp: find_None_iff)
  then show ?thesis by (simp add: space_len_last_def)
qed

lemma TrimSpace_word [simp]: "list_all no_space_byte w \<Longrightarrow> TrimSpace w = w"
proof -
  assume w: "list_all no_space_byte w"
  then have "space_len w = 0" by (cases w) simp_all
  then show ?thesis
    using space_len_last_no_space [OF w]
    by (simp add: TrimSpace_def trim_space_left.simps [of w] trim_space_right.simps [of w])
qed

text \<open>The ASCII strings, on which white space is a matter of single bytes.\<close>

abbreviation ascii :: "string \<Rightarrow> bool" where
  "ascii s \<equiv> list_all (\<lambda>c. byte c < 128) s"

lemma ascii_space_cases:
  assumes "byte c < 128" "\<not> no_space_byte c"
  shows "c = CHR 0x09 \<or> c = CHR 0x0A \<or> c = CHR 0x0B \<or> c = CHR 0x0C \<or> c = CHR 0x0D \<or> c = CHR 0x20"
proof -
  have "\<not> byte (CHR 0xC2) < 128" "\<not> byte (CHR 0xE1) < 128" "\<not> byte (CHR 0xE2) < 128" "\<not> byte (CHR 0xE3) < 128"
    by simp_all
  with assms show ?thesis unfolding no_space_byte_def insert_iff empty_iff by metis
qed

lemma space_len_ascii:
  assumes "byte c < 128" shows "space_len (c # s) = (if no_space_byte c then 0 else 1)"
proof (cases "no_space_byte c")
  case False
  have "space_len (c # s) = 1"
    using ascii_space_cases [OF assms False] by (elim disjE) (simp_all add: space_len_def space_encodings_def)
  with False show ?thesis by simp
qed simp

lemma fields_loop_words:
  "ascii s \<Longrightarrow> list_all no_space_byte acc \<Longrightarrow> f \<in> set (fields_loop acc s) \<Longrightarrow> f \<noteq> [] \<and> list_all no_space_byte f"
proof (induction s arbitrary: acc)
  case Nil
  then show ?case by (auto simp: fields_loop.simps split: if_splits)
next
  case (Cons c cs)
  have step: "fields_loop acc (c # cs) = (if no_space_byte c then fields_loop (c # acc) cs
      else (if acc = [] then [] else [rev acc]) @ fields_loop [] cs)"
    using Cons.prems(1) by (simp add: fields_loop.simps [of acc "c # cs"] space_len_ascii)
  consider "no_space_byte c" "f \<in> set (fields_loop (c # acc) cs)" | "acc \<noteq> []" "f = rev acc" | "f \<in> set (fields_loop [] cs)"
    using Cons.prems(3) by (auto simp: step split: if_splits)
  then show ?case using Cons.IH [of "c # acc"] Cons.IH [of "[]"] Cons.prems by cases simp_all
qed

lemma Fields_words: "ascii s \<Longrightarrow> f \<in> set (Fields s) \<Longrightarrow> f \<noteq> [] \<and> list_all no_space_byte f"
  unfolding Fields_def by (rule fields_loop_words) simp_all

lemma fields_loop_subset: "f \<in> set (fields_loop acc s) \<Longrightarrow> set f \<subseteq> set acc \<union> set s"
proof (induction acc s rule: fields_loop.induct)
  case (1 acc s)
  show ?case
  proof (cases s)
    case Nil
    with "1.prems" show ?thesis by (auto simp: fields_loop.simps [of acc "[]"] split: if_splits)
  next
    case (Cons c cs)
    show ?thesis
    proof (cases "space_len s = 0")
      case True
      with "1.prems" Cons have "f \<in> set (fields_loop (c # acc) cs)" by (simp add: fields_loop.simps [of acc "c # cs"])
      from "1.IH"(1) [OF Cons True this] Cons show ?thesis by auto
    next
      case False
      with "1.prems" Cons consider "f = rev acc" | "f \<in> set (fields_loop [] (drop (space_len s) s))"
        by (auto simp: fields_loop.simps [of acc "c # cs"] split: if_splits)
      then show ?thesis
      proof cases
        case 2
        from "1.IH"(2) [OF Cons False this] show ?thesis using set_drop_subset by fastforce
      qed simp
    qed
  qed
qed

lemma Fields_subset: "f \<in> set (Fields s) \<Longrightarrow> set f \<subseteq> set s"
  using fields_loop_subset [of f "[]" s] by (simp add: Fields_def)

lemma fields_loop_snoc_space:
  "ascii s \<Longrightarrow> byte c < 128 \<Longrightarrow> \<not> no_space_byte c \<Longrightarrow> fields_loop acc (s @ [c]) = fields_loop acc s"
proof (induction s arbitrary: acc)
  case Nil
  then show ?case by (simp add: fields_loop.simps [of acc "[c]"] fields_loop.simps [of _ "[]"] space_len_ascii)
next
  case (Cons d ds)
  then show ?case
    by (cases "no_space_byte d")
      (simp_all add: fields_loop.simps [of acc "d # ds @ [c]"] fields_loop.simps [of acc "d # ds"] space_len_ascii)
qed

lemma Fields_trim_left: "Fields (trim_space_left s) = Fields s"
proof (induction s rule: trim_space_left.induct)
  case (1 s)
  show ?case
  proof (cases "space_len s = 0")
    case False
    then have "fields_loop [] s = fields_loop [] (drop (space_len s) s)"
      by (cases s) (simp_all add: fields_loop.simps [of "[]" "_ # _"])
    with False 1 show ?thesis by (simp add: trim_space_left.simps [of s] Fields_def)
  qed (simp add: trim_space_left.simps [of s])
qed

lemma ascii_trim_left: "ascii s \<Longrightarrow> ascii (trim_space_left s)"
proof (induction s rule: trim_space_left.induct)
  case (1 s)
  have "ascii (drop n s)" for n using "1.prems" by (auto simp: list_all_iff dest: in_set_dropD)
  with 1 show ?case by (cases "space_len s = 0") (simp_all add: trim_space_left.simps [of s])
qed

lemma space_len_last_ascii:
  assumes "ascii s" "space_len_last s \<noteq> 0"
  obtains s' c where "s = s' @ [c]" "\<not> no_space_byte c" "space_len_last s = 1"
proof -
  from assms(2) obtain e where e: "List.find (\<lambda>e. suffix e s) space_encodings = Some e" "space_len_last s = length e"
    by (auto simp: space_len_last_def split: option.splits)
  then have "e \<in> set space_encodings" and suf: "suffix e s" using find_Some_first by fastforce+
  moreover have "ascii e" using suf assms(1) set_mono_suffix by (fastforce simp: list_all_iff)
  moreover have "list_all (\<lambda>e. ascii e \<longrightarrow> list_all (\<lambda>c. \<not> no_space_byte c) e \<and> length e = 1) space_encodings"
    by code_simp
  ultimately obtain c where "e = [c]" "\<not> no_space_byte c"
    by (auto simp: list_all_iff length_Suc_conv)
  with e(2) suf that show thesis by (auto simp: suffix_def)
qed

lemma Fields_trim_right: "ascii s \<Longrightarrow> Fields (trim_space_right s) = Fields s"
proof (induction s rule: trim_space_right.induct)
  case (1 s)
  show ?case
  proof (cases "space_len_last s = 0")
    case False
    then obtain s' c where s: "s = s' @ [c]" "\<not> no_space_byte c" "space_len_last s = 1"
      using space_len_last_ascii [OF "1.prems"] by metis
    with 1 False have "Fields (trim_space_right s') = Fields s'" by simp
    with s False "1.prems" show ?thesis
      by (simp add: trim_space_right.simps [of "s' @ [c]"] Fields_def fields_loop_snoc_space)
  qed (simp add: trim_space_right.simps [of s])
qed

lemma Fields_TrimSpace: "ascii s \<Longrightarrow> Fields (TrimSpace s) = Fields s"
  by (simp add: TrimSpace_def Fields_trim_right ascii_trim_left Fields_trim_left)

text \<open>The text of a number is a word of digits, with a sign in front of a negative one.\<close>

lemma dec_chars: "c \<in> set (dec v) \<Longrightarrow> is_digit c \<or> c = CHR ''-''"
  using dec_nat_digits by (auto simp: dec_def list_all_iff split: if_splits)

lemma is_digit_bytes: "is_digit c \<Longrightarrow> c \<noteq> CHR '','' \<and> c \<noteq> CHR ''*'' \<and> c \<noteq> CHR 0x27 \<and> byte c < 128 \<and> no_space_byte c"
  by (auto simp: is_digit_def no_space_byte_def)

lemma dec_bytes: "c \<in> set (dec v) \<Longrightarrow> c \<noteq> CHR '','' \<and> c \<noteq> CHR ''*'' \<and> c \<noteq> CHR 0x27 \<and> byte c < 128 \<and> no_space_byte c"
proof -
  assume "c \<in> set (dec v)"
  then consider "is_digit c" | "c = CHR ''-''" using dec_chars by blast
  then show ?thesis by cases (simp_all add: is_digit_bytes, simp add: no_space_byte_def)
qed

lemma dec_word [simp]: "list_all no_space_byte (dec v)"
  by (simp add: list_all_iff dec_bytes)

lemma dec_nonempty [simp]: "dec v \<noteq> []"
  by (simp add: dec_def)

subsection \<open>Runes\<close>

text \<open>
  \<open>utf8.DecodeRuneInString\<close>: the rune at the head of a non-empty string and its width. The
  second byte of a sequence is restricted by the lead byte (no overlong forms, no surrogates,
  nothing above U+10FFFF); anything invalid is U+FFFD of width 1.
\<close>

definition RuneError :: nat where
  "RuneError = 65533"

definition cont_byte :: "nat \<Rightarrow> bool" where
  "cont_byte b \<longleftrightarrow> 128 \<le> b \<and> b < 192"

definition second_ok :: "nat \<Rightarrow> nat \<Rightarrow> bool" where
  "second_ok b0 b1 \<longleftrightarrow>
     (if b0 = 224 then 160 \<le> b1 else True) \<and> (if b0 = 237 then b1 < 160 else True) \<and>
     (if b0 = 240 then 144 \<le> b1 else True) \<and> (if b0 = 244 then b1 < 144 else True) \<and>
     cont_byte b1"

fun DecodeRune :: "nat list \<Rightarrow> nat \<times> nat" where
  "DecodeRune [] = (RuneError, 0)"
| "DecodeRune (b0 # bs) =
     (if b0 < 128 then (b0, 1)
      else if 194 \<le> b0 \<and> b0 < 224 then
        (case bs of b1 # _ \<Rightarrow>
           (if second_ok b0 b1 then ((b0 - 192) * 64 + (b1 - 128), 2) else (RuneError, 1))
         | _ \<Rightarrow> (RuneError, 1))
      else if 224 \<le> b0 \<and> b0 < 240 then
        (case bs of b1 # b2 # _ \<Rightarrow>
           (if second_ok b0 b1 \<and> cont_byte b2
            then ((b0 - 224) * 4096 + (b1 - 128) * 64 + (b2 - 128), 3) else (RuneError, 1))
         | _ \<Rightarrow> (RuneError, 1))
      else if 240 \<le> b0 \<and> b0 < 245 then
        (case bs of b1 # b2 # b3 # _ \<Rightarrow>
           (if second_ok b0 b1 \<and> cont_byte b2 \<and> cont_byte b3
            then ((b0 - 240) * 262144 + (b1 - 128) * 4096 + (b2 - 128) * 64 + (b3 - 128), 4)
            else (RuneError, 1))
         | _ \<Rightarrow> (RuneError, 1))
      else (RuneError, 1))"

lemma DecodeRune_width: "bs \<noteq> [] \<Longrightarrow> 0 < snd (DecodeRune bs)"
  by (cases bs) (auto split: list.splits)

function runes_of :: "nat list \<Rightarrow> nat list" where
  "runes_of bs =
     (if bs = [] then []
      else (case DecodeRune bs of (r, w) \<Rightarrow> r # runes_of (drop w bs)))"
  by pat_completeness auto
termination
proof (relation "measure length")
  fix bs :: "nat list" and r w
  assume "bs \<noteq> []" "(r, w) = DecodeRune bs"
  then have "0 < w" using DecodeRune_width [of bs] by (metis snd_conv)
  with \<open>bs \<noteq> []\<close> show "(drop w bs, bs) \<in> measure length" by simp
qed simp

declare runes_of.simps [simp del]

definition runes :: "string \<Rightarrow> nat list" where
  "runes s = runes_of (map of_char s)"

text \<open>\<open>utf8.AppendRune\<close>, for the runes a decoding can give.\<close>

definition EncodeRune :: "nat \<Rightarrow> string" where
  "EncodeRune r = map char_of
     (if r < 128 then [r]
      else if r < 2048 then [192 + r div 64, 128 + r mod 64]
      else if r < 65536 then [224 + r div 4096, 128 + r div 64 mod 64, 128 + r mod 64]
      else [240 + r div 262144, 128 + r div 4096 mod 64, 128 + r div 64 mod 64, 128 + r mod 64])"

lemma runes_of_ascii: "\<forall>b \<in> set bs. b < 128 \<Longrightarrow> runes_of bs = bs"
proof (induction bs)
  case (Cons b bs)
  then show ?case by (simp add: runes_of.simps [of "b # bs"])
qed (simp add: runes_of.simps)

lemma runes_ascii: "\<forall>c \<in> set s. byte c < 128 \<Longrightarrow> runes s = map of_char s"
  by (simp add: runes_def runes_of_ascii)

lemma runes_Nil [simp]: "runes [] = []"
  by (simp add: runes_def runes_of.simps)

lemma runes_of_small:
  "b \<in> set bs \<Longrightarrow> b < 128 \<Longrightarrow> b \<in> set (runes_of bs)"
proof (induction bs rule: runes_of.induct)
  case (1 bs)
  obtain r w where rw: "DecodeRune bs = (r, w)" by fastforce
  from "1.prems" have ne: "bs \<noteq> []" by auto
  show ?case
  proof (cases "b \<in> set (drop w bs)")
    case True
    with 1 ne rw show ?thesis by (simp add: runes_of.simps [of bs])
  next
    case False
    with "1.prems" have "b \<in> set (take w bs)"
      by (metis Un_iff append_take_drop_id set_append)
    moreover have "b \<in> set (take w bs) \<Longrightarrow> r = b"
      using rw ne "1.prems"(2)
      by (cases bs) (auto simp: second_ok_def cont_byte_def take_Cons'
                          split: if_splits list.splits)
    ultimately show ?thesis using ne rw by (simp add: runes_of.simps [of bs])
  qed
qed

text \<open>Every byte below 128 of a string is one of its runes: no ASCII character can hide inside
  a multi-byte sequence.\<close>

lemma runes_small: "c \<in> set s \<Longrightarrow> byte c < 128 \<Longrightarrow> byte c \<in> set (runes s)"
  by (simp add: runes_def runes_of_small)

subsection \<open>Unicode classes\<close>

text \<open>
  The tables for runes above U+00FF. Below, \<open>unicode.IsLetter\<close>, \<open>IsDigit\<close> and \<open>IsLower\<close>
  use the Latin-1 properties, which are written out.
\<close>

record unitab =
  tabLetter :: "nat \<Rightarrow> bool"
  tabDigit :: "nat \<Rightarrow> bool"
  tabLower :: "nat \<Rightarrow> bool"
  tabToUpper :: "nat \<Rightarrow> nat"
  tabToLower :: "nat \<Rightarrow> nat"
  tabPrint :: "nat \<Rightarrow> bool"

definition IsLetter :: "unitab \<Rightarrow> nat \<Rightarrow> bool" where
  "IsLetter u r \<longleftrightarrow>
     (if r \<le> 255
      then 65 \<le> r \<and> r \<le> 90 \<or> 97 \<le> r \<and> r \<le> 122 \<or> r = 170 \<or> r = 181 \<or> r = 186 \<or>
           192 \<le> r \<and> r \<noteq> 215 \<and> r \<noteq> 247
      else tabLetter u r)"

definition IsDigit :: "unitab \<Rightarrow> nat \<Rightarrow> bool" where
  "IsDigit u r \<longleftrightarrow> (if r \<le> 255 then 48 \<le> r \<and> r \<le> 57 else tabDigit u r)"

definition IsLower :: "unitab \<Rightarrow> nat \<Rightarrow> bool" where
  "IsLower u r \<longleftrightarrow>
     (if r \<le> 255 then 97 \<le> r \<and> r \<le> 122 \<or> r = 181 \<or> 223 \<le> r \<and> r \<noteq> 247
      else tabLower u r)"

text \<open>\<open>strings.ToUpper\<close> and \<open>strings.ToLower\<close>: ASCII letters by arithmetic, other runes by the
  tables.\<close>

definition rune_upper :: "unitab \<Rightarrow> nat \<Rightarrow> nat" where
  "rune_upper u r = (if r < 128 then (if 97 \<le> r \<and> r \<le> 122 then r - 32 else r) else tabToUpper u r)"

definition rune_lower :: "unitab \<Rightarrow> nat \<Rightarrow> nat" where
  "rune_lower u r = (if r < 128 then (if 65 \<le> r \<and> r \<le> 90 then r + 32 else r) else tabToLower u r)"

definition ToUpper :: "unitab \<Rightarrow> string \<Rightarrow> string" where
  "ToUpper u s = concat (map (\<lambda>r. EncodeRune (rune_upper u r)) (runes s))"

definition ToLower :: "unitab \<Rightarrow> string \<Rightarrow> string" where
  "ToLower u s = concat (map (\<lambda>r. EncodeRune (rune_lower u r)) (runes s))"

text \<open>
  The verb \<open>%q\<close> (\<open>strconv.Quote\<close>): printable runes stand for themselves, a few control characters
  have a letter, the others are written in hexadecimal, invalid bytes one by one.
\<close>

definition IsPrint :: "unitab \<Rightarrow> nat \<Rightarrow> bool" where
  "IsPrint u r \<longleftrightarrow>
     (if r \<le> 255 then 32 \<le> r \<and> r \<le> 126 \<or> 161 \<le> r \<and> r \<noteq> 173 else tabPrint u r)"

definition hex_digit :: "nat \<Rightarrow> char" where
  "hex_digit d = char_of (if d < 10 then 48 + d else 87 + d)"

fun hex_pad :: "nat \<Rightarrow> nat \<Rightarrow> string" where
  "hex_pad 0 n = []"
| "hex_pad (Suc k) n = hex_pad k (n div 16) @ [hex_digit (n mod 16)]"

definition quote_rune :: "unitab \<Rightarrow> nat \<Rightarrow> string" where
  "quote_rune u r =
     (if r = 34 \<or> r = 92 then [CHR 0x5C, char_of r]
      else if IsPrint u r then EncodeRune r
      else if r = 7 then [CHR 0x5C, CHR ''a''] else if r = 8 then [CHR 0x5C, CHR ''b'']
      else if r = 12 then [CHR 0x5C, CHR ''f''] else if r = 10 then [CHR 0x5C, CHR ''n'']
      else if r = 13 then [CHR 0x5C, CHR ''r''] else if r = 9 then [CHR 0x5C, CHR ''t'']
      else if r = 11 then [CHR 0x5C, CHR ''v'']
      else if r < 32 \<or> r = 127 then [CHR 0x5C, CHR ''x''] @ hex_pad 2 r
      else if r < 65536 then [CHR 0x5C, CHR ''u''] @ hex_pad 4 r
      else [CHR 0x5C, CHR ''U''] @ hex_pad 8 r)"

function quote_loop :: "unitab \<Rightarrow> nat list \<Rightarrow> string" where
  "quote_loop u bs =
     (if bs = [] then []
      else (case DecodeRune bs of (r, w) \<Rightarrow>
        (if w = 1 \<and> r = RuneError then [CHR 0x5C, CHR ''x''] @ hex_pad 2 (hd bs) else quote_rune u r) @
        quote_loop u (drop w bs)))"
  by pat_completeness auto
termination
proof (relation "measure (length \<circ> snd)")
  fix u :: unitab and bs :: "nat list" and r w
  assume "bs \<noteq> []" "(r, w) = DecodeRune bs"
  then have "0 < w" using DecodeRune_width [of bs] by (metis snd_conv)
  with \<open>bs \<noteq> []\<close> show "((u, drop w bs), u, bs) \<in> measure (length \<circ> snd)" by simp
qed simp

declare quote_loop.simps [simp del]

definition Quote :: "unitab \<Rightarrow> string \<Rightarrow> string" where
  "Quote u s = [CHR 0x22] @ quote_loop u (map of_char s) @ [CHR 0x22]"

text \<open>Tables that know no rune beyond Latin-1, for evaluation on ASCII input.\<close>

definition ascii_tab :: unitab where
  "ascii_tab = \<lparr>tabLetter = (\<lambda>_. False), tabDigit = (\<lambda>_. False), tabLower = (\<lambda>_. False),
                tabToUpper = (\<lambda>r. r), tabToLower = (\<lambda>r. r), tabPrint = (\<lambda>_. False)\<rparr>"

end
