(* ===== verification/Kube_Types.thy ===== *)
theory Kube_Types
  imports Go_Strings Complex_Main
begin

section \<open>Kubernetes API objects\<close>

text \<open>
  The API machinery types the operator builds and reads (\<open>metav1\<close>, \<open>corev1\<close>, \<open>appsv1\<close>,
  \<open>batchv1\<close>, \<open>policyv1\<close>). They are data types of a package outside the repository; each is a
  record of the fields the repository's code writes or reads. A Go composite literal, in
  which the fields left out have their zero value, is the record \<open>..._zero\<close> updated at the fields
  that are given. A pointer that is only tested for nil and dereferenced is an \<open>option\<close>.

  Times are nanoseconds since Go's zero time, so \<open>IsZero\<close> is equality with 0. A
  \<open>resource.Quantity\<close> is the number it denotes.
\<close>

type_synonym gotime = int
type_synonym Quantity = rat
type_synonym ResourceList = "(string, Quantity) gomap"

text \<open>\<open>(*metav1.Time).IsZero\<close>, true of the nil pointer.\<close>

definition IsZero :: "gotime option \<Rightarrow> bool" where
  "IsZero t \<longleftrightarrow> t = None \<or> t = Some 0"

record OwnerReference =
  or_APIVersion :: string
  or_Kind :: string
  or_Name :: string
  or_UID :: string
  or_Controller :: "bool option"
  or_BlockOwnerDeletion :: "bool option"

record ObjectMeta =
  om_Name :: string
  om_Namespace :: string
  om_Labels :: smap
  om_Annotations :: smap
  om_UID :: string
  om_Generation :: int
  om_CreationTimestamp :: gotime
  om_DeletionTimestamp :: "gotime option"
  om_Finalizers :: "string list"
  om_OwnerReferences :: "OwnerReference list"

definition ObjectMeta_zero :: ObjectMeta where
  "ObjectMeta_zero = \<lparr>om_Name = [], om_Namespace = [], om_Labels = [], om_Annotations = [],
     om_UID = [], om_Generation = 0, om_CreationTimestamp = 0, om_DeletionTimestamp = None,
     om_Finalizers = [], om_OwnerReferences = []\<rparr>"

text \<open>The literal \<open>metav1.ObjectMeta{Name: n, Namespace: ns, Labels: l}\<close>.\<close>

definition meta_lit :: "string \<Rightarrow> string \<Rightarrow> smap \<Rightarrow> ObjectMeta" where
  "meta_lit n ns l = ObjectMeta_zero\<lparr>om_Name := n, om_Namespace := ns, om_Labels := l\<rparr>"

lemma meta_lit_sel [simp]:
  "om_Name (meta_lit n ns l) = n"
  "om_Namespace (meta_lit n ns l) = ns"
  "om_Labels (meta_lit n ns l) = l"
  "om_OwnerReferences (meta_lit n ns l) = []"
  by (simp_all add: meta_lit_def ObjectMeta_zero_def)

record Condition =
  cond_Type :: string
  cond_Status :: string
  cond_ObservedGeneration :: int
  cond_LastTransitionTime :: gotime
  cond_Reason :: string
  cond_Message :: string

definition ConditionTrue :: string where [simp]: "ConditionTrue = ''True''"
definition ConditionFalse :: string where [simp]: "ConditionFalse = ''False''"
definition ConditionUnknown :: string where [simp]: "ConditionUnknown = ''Unknown''"

datatype IntOrString = IntVal int | StrVal string

definition FromInt :: "int \<Rightarrow> IntOrString" where
  "FromInt v = IntVal (i32 v)"

subsection \<open>Pods\<close>

record ResourceRequirements =
  rr_Requests :: ResourceList
  rr_Limits :: ResourceList

record LabelSelector =
  ls_MatchLabels :: smap

record SecretKeySelector =
  sks_Name :: string
  sks_Key :: string

record EnvVar =
  ev_Name :: string
  ev_Value :: string
  ev_ValueFrom :: "SecretKeySelector option"

definition env_value :: "string \<Rightarrow> string \<Rightarrow> EnvVar" where
  "env_value n v = \<lparr>ev_Name = n, ev_Value = v, ev_ValueFrom = None\<rparr>"

definition env_secret :: "string \<Rightarrow> string \<Rightarrow> string \<Rightarrow> EnvVar" where
  "env_secret n s k = \<lparr>ev_Name = n, ev_Value = [], ev_ValueFrom = Some \<lparr>sks_Name = s, sks_Key = k\<rparr>\<rparr>"

record ContainerPort =
  cp_Name :: string
  cp_ContainerPort :: int
  cp_Protocol :: string

record VolumeMount =
  vm_Name :: string
  vm_MountPath :: string
  vm_ReadOnly :: bool

datatype ProbeHandler =
    ExecAction "string list"
  | TCPSocketAction IntOrString
  | HTTPGetAction string IntOrString

record Probe =
  pr_Handler :: ProbeHandler
  pr_InitialDelaySeconds :: int
  pr_PeriodSeconds :: int
  pr_TimeoutSeconds :: int
  pr_SuccessThreshold :: int
  pr_FailureThreshold :: int

record SecurityContext =
  sc_AllowPrivilegeEscalation :: "bool option"
  sc_ReadOnlyRootFilesystem :: "bool option"
  sc_CapabilitiesDrop :: "string list"

record Container =
  c_Name :: string
  c_Image :: string
  c_ImagePullPolicy :: string
  c_Command :: "string list"
  c_Ports :: "ContainerPort list"
  c_Env :: "EnvVar list"
  c_EnvFromSecrets :: "string list"
  c_VolumeMounts :: "VolumeMount list"
  c_Resources :: ResourceRequirements
  c_ReadinessProbe :: "Probe option"
  c_LivenessProbe :: "Probe option"
  c_SecurityContext :: "SecurityContext option"

definition Container_zero :: Container where
  "Container_zero = \<lparr>c_Name = [], c_Image = [], c_ImagePullPolicy = [], c_Command = [],
     c_Ports = [], c_Env = [], c_EnvFromSecrets = [], c_VolumeMounts = [],
     c_Resources = \<lparr>rr_Requests = [], rr_Limits = []\<rparr>, c_ReadinessProbe = None,
     c_LivenessProbe = None, c_SecurityContext = None\<rparr>"

record TopologySpreadConstraint =
  tsc_MaxSkew :: int
  tsc_TopologyKey :: string
  tsc_WhenUnsatisfiable :: string
  tsc_LabelSelector :: LabelSelector

record PodAffinityTerm =
  pat_LabelSelector :: LabelSelector
  pat_TopologyKey :: string

record PodAntiAffinity =
  paa_Required :: "PodAffinityTerm list"
  paa_Preferred :: "(int \<times> PodAffinityTerm) list"

record Affinity =
  aff_PodAntiAffinity :: "PodAntiAffinity option"

record Toleration =
  tol_Key :: string
  tol_Operator :: string
  tol_Value :: string
  tol_Effect :: string

record PodSecurityContext =
  psc_RunAsNonRoot :: "bool option"
  psc_RunAsUser :: "int option"
  psc_RunAsGroup :: "int option"
  psc_FSGroup :: "int option"
  psc_SeccompProfileType :: "string option"

datatype VolumeSource =
    ConfigMapVolume string "int option"
  | SecretVolume string "int option"
  | EmptyDirVolume

record Volume =
  v_Name :: string
  v_Source :: VolumeSource

record PodSpec =
  ps_ServiceAccountName :: string
  ps_InitContainers :: "Container list"
  ps_Containers :: "Container list"
  ps_TopologySpreadConstraints :: "TopologySpreadConstraint list"
  ps_Affinity :: "Affinity option"
  ps_Tolerations :: "Toleration list"
  ps_ImagePullSecrets :: "string list"
  ps_PriorityClassName :: string
  ps_TerminationGracePeriodSeconds :: "int option"
  ps_SecurityContext :: "PodSecurityContext option"
  ps_Volumes :: "Volume list"
  ps_RestartPolicy :: string

definition PodSpec_zero :: PodSpec where
  "PodSpec_zero = \<lparr>ps_ServiceAccountName = [], ps_InitContainers = [], ps_Containers = [],
     ps_TopologySpreadConstraints = [], ps_Affinity = None, ps_Tolerations = [],
     ps_ImagePullSecrets = [], ps_PriorityClassName = [],
     ps_TerminationGracePeriodSeconds = None, ps_SecurityContext = None, ps_Volumes = [],
     ps_RestartPolicy = []\<rparr>"

record PodTemplateSpec =
  pts_meta :: ObjectMeta
  pts_Spec :: PodSpec

subsection \<open>Workloads and their companions\<close>

record PersistentVolumeClaim =
  pvc_meta :: ObjectMeta
  pvc_AccessModes :: "string list"
  pvc_Requests :: ResourceList
  pvc_StorageClassName :: "string option"

record StatefulSetSpec =
  ss_Replicas :: "int option"
  ss_ServiceName :: string
  ss_PodManagementPolicy :: string
  ss_UpdateStrategy :: string
  ss_MaxUnavailable :: "IntOrString option"
  ss_Selector :: LabelSelector
  ss_Template :: PodTemplateSpec
  ss_VolumeClaimTemplates :: "PersistentVolumeClaim list"

record StatefulSet =
  sts_meta :: ObjectMeta
  sts_Spec :: StatefulSetSpec
  sts_ReadyReplicas :: int

record DeploymentSpec =
  ds_Replicas :: "int option"
  ds_Selector :: LabelSelector
  ds_Template :: PodTemplateSpec

record Deployment =
  dep_meta :: ObjectMeta
  dep_Spec :: DeploymentSpec

record ServicePort =
  sp_Name :: string
  sp_Port :: int
  sp_TargetPort :: IntOrString
  sp_Protocol :: string

record ServiceSpec =
  svs_Type :: string
  svs_ClusterIP :: string
  svs_PublishNotReadyAddresses :: bool
  svs_Selector :: smap
  svs_Ports :: "ServicePort list"

record Service =
  svc_meta :: ObjectMeta
  svc_Spec :: ServiceSpec

record ConfigMap =
  cm_meta :: ObjectMeta
  cm_Data :: smap

record Secret =
  sec_meta :: ObjectMeta
  sec_Type :: string
  sec_Data :: smap
  sec_StringData :: smap

record ServiceAccount =
  sa_meta :: ObjectMeta

record PodDisruptionBudgetSpec =
  pdbs_Selector :: LabelSelector
  pdbs_MinAvailable :: "IntOrString option"
  pdbs_MaxUnavailable :: "IntOrString option"

record PodDisruptionBudget =
  pdb_meta :: ObjectMeta
  pdb_Spec :: PodDisruptionBudgetSpec

record JobCondition =
  jc_Type :: string
  jc_Status :: string

record Job =
  job_meta :: ObjectMeta
  job_BackoffLimit :: "int option"
  job_Template :: PodTemplateSpec
  job_Conditions :: "JobCondition list"

text \<open>A label selector's \<open>matchLabels\<close> selects the objects that carry every listed label.\<close>

definition selects :: "smap \<Rightarrow> smap \<Rightarrow> bool" where
  "selects sel labels \<longleftrightarrow> list_all (\<lambda>(k, v). map_of labels k = Some v) sel"

lemma selects_subset: "wf_map labels \<Longrightarrow> selects sel labels \<longleftrightarrow> set sel \<subseteq> set labels"
  by (auto simp: selects_def list_all_iff)

end
