(* ===== verification/Api_Types.thy ===== *)
theory Api_Types
  imports Kube_Types
begin

section \<open>The custom resources of \<open>pg.athos.io/v1alpha1\<close>\<close>

text \<open>
  The types of \<open>api/v1alpha1\<close>, field by field. The named string types (phases, backup
  methods) stay strings as in the source, since the API server hands the operator whatever string is
  stored; their constants are definitions that the simplifier unfolds. The JSON tags and
  the kubebuilder markers are not part of the model.
\<close>

subsection \<open>PostgresCluster\<close>

record StorageSpec =
  sto_Size :: Quantity
  sto_StorageClass :: "string option"
  sto_AccessModes :: "string list"

record S3BackupSpec =
  s3_Bucket :: string
  s3_Region :: string
  s3_Endpoint :: string
  s3_Path :: string
  s3_CredentialsSecret :: "string option"

record GCSBackupSpec =
  gcs_Bucket :: string
  gcs_Path :: string
  gcs_CredentialsSecret :: "string option"

record BackupDestinationSpec =
  bd_S3 :: "S3BackupSpec option"
  bd_GCS :: "GCSBackupSpec option"

record BackupSpec =
  bs_Enabled :: bool
  bs_RetentionPolicy :: string
  bs_Schedule :: string
  bs_Destination :: "BackupDestinationSpec option"

record TLSSpec =
  tls_Enabled :: bool
  tls_CertificateSecret :: "string option"
  tls_CASecret :: "string option"

record MonitoringSpec =
  mon_Enabled :: bool
  mon_Port :: int

record PostgresClusterSpec =
  pcs_PostgresVersion :: int
  pcs_Instances :: int
  pcs_Storage :: StorageSpec
  pcs_Resources :: ResourceRequirements
  pcs_PostgresParameters :: smap
  pcs_PostgresHBA :: "string list"
  pcs_Backup :: "BackupSpec option"
  pcs_TLS :: "TLSSpec option"
  pcs_Monitoring :: "MonitoringSpec option"
  pcs_TopologySpreadConstraints :: "TopologySpreadConstraint list"
  pcs_Affinity :: "Affinity option"
  pcs_Tolerations :: "Toleration list"
  pcs_ImagePullSecrets :: "string list"
  pcs_ServiceAccountName :: string
  pcs_PriorityClassName :: string
  pcs_Paused :: bool

type_synonym PostgresClusterPhase = string

definition PhaseInitializing :: PostgresClusterPhase where [simp]: "PhaseInitializing = ''Initializing''"
definition PhaseCreating :: PostgresClusterPhase where [simp]: "PhaseCreating = ''Creating''"
definition PhaseRunning :: PostgresClusterPhase where [simp]: "PhaseRunning = ''Running''"
definition PhaseDegraded :: PostgresClusterPhase where [simp]: "PhaseDegraded = ''Degraded''"
definition PhaseFailed :: PostgresClusterPhase where [simp]: "PhaseFailed = ''Failed''"
definition PhasePaused :: PostgresClusterPhase where [simp]: "PhasePaused = ''Paused''"
definition PhaseUpgrading :: PostgresClusterPhase where [simp]: "PhaseUpgrading = ''Upgrading''"

record PostgresClusterStatus =
  pst_Conditions :: "Condition list"
  pst_Phase :: PostgresClusterPhase
  pst_ReadyInstances :: int
  pst_CurrentPrimary :: string
  pst_WriteServiceName :: string
  pst_ReadServiceName :: string
  pst_PostgresVersion :: string
  pst_ObservedGeneration :: int
  pst_LatestBackup :: "gotime option"

definition ConditionReady :: string where [simp]: "ConditionReady = ''Ready''"
definition ConditionAvailable :: string where [simp]: "ConditionAvailable = ''Available''"
definition ConditionProgressing :: string where [simp]: "ConditionProgressing = ''Progressing''"
definition ConditionDegraded :: string where [simp]: "ConditionDegraded = ''Degraded''"
definition ConditionPrimaryReady :: string where [simp]: "ConditionPrimaryReady = ''PrimaryReady''"

definition ClusterFinalizer :: string where [simp]: "ClusterFinalizer = ''pg.athos.io/finalizer''"

record PostgresCluster =
  pgc_meta :: ObjectMeta
  pgc_Spec :: PostgresClusterSpec
  pgc_Status :: PostgresClusterStatus

subsection \<open>PostgresBackup\<close>

type_synonym BackupMethod = string
type_synonym BackupPhase = string

definition BackupMethodBaseBackup :: BackupMethod where [simp]: "BackupMethodBaseBackup = ''basebackup''"
definition BackupMethodPgDump :: BackupMethod where [simp]: "BackupMethodPgDump = ''pgdump''"
definition BackupPhasePending :: BackupPhase where [simp]: "BackupPhasePending = ''Pending''"
definition BackupPhaseRunning :: BackupPhase where [simp]: "BackupPhaseRunning = ''Running''"
definition BackupPhaseCompleted :: BackupPhase where [simp]: "BackupPhaseCompleted = ''Completed''"
definition BackupPhaseFailed :: BackupPhase where [simp]: "BackupPhaseFailed = ''Failed''"

record PostgresBackupSpec =
  pbs_ClusterName :: string
  pbs_Method :: BackupMethod
  pbs_Online :: bool

record PostgresBackupStatus =
  pbt_Phase :: BackupPhase
  pbt_StartTime :: "gotime option"
  pbt_CompletionTime :: "gotime option"
  pbt_BackupSize :: int
  pbt_DestinationPath :: string
  pbt_Conditions :: "Condition list"

record PostgresBackup =
  pgb_meta :: ObjectMeta
  pgb_Spec :: PostgresBackupSpec
  pgb_Status :: PostgresBackupStatus

subsection \<open>PostgresUser\<close>

record DatabaseGrant =
  dg_Name :: string
  dg_Privileges :: "string list"

record PostgresUserSpec =
  pus_ClusterName :: string
  pus_PasswordSecret :: "string option"
  pus_Databases :: "DatabaseGrant list"
  pus_Roles :: "string list"
  pus_Superuser :: bool
  pus_ConnectionLimit :: int

record PostgresUserStatus =
  put_Applied :: bool
  put_Conditions :: "Condition list"
  put_ObservedGeneration :: int

record PostgresUser =
  pgu_meta :: ObjectMeta
  pgu_Spec :: PostgresUserSpec
  pgu_Status :: PostgresUserStatus

subsection \<open>Objects with nothing set\<close>

text \<open>The zero values of the three kinds; concrete objects in evaluations start from them.\<close>

definition PostgresCluster_zero :: PostgresCluster where
  "PostgresCluster_zero =
    \<lparr>pgc_meta = ObjectMeta_zero,
     pgc_Spec = \<lparr>pcs_PostgresVersion = 0, pcs_Instances = 0,
       pcs_Storage = \<lparr>sto_Size = 0, sto_StorageClass = None, sto_AccessModes = []\<rparr>,
       pcs_Resources = \<lparr>rr_Requests = [], rr_Limits = []\<rparr>, pcs_PostgresParameters = [],
       pcs_PostgresHBA = [], pcs_Backup = None, pcs_TLS = None, pcs_Monitoring = None,
       pcs_TopologySpreadConstraints = [], pcs_Affinity = None, pcs_Tolerations = [],
       pcs_ImagePullSecrets = [], pcs_ServiceAccountName = [], pcs_PriorityClassName = [],
       pcs_Paused = False\<rparr>,
     pgc_Status = \<lparr>pst_Conditions = [], pst_Phase = [], pst_ReadyInstances = 0,
       pst_CurrentPrimary = [], pst_WriteServiceName = [], pst_ReadServiceName = [],
       pst_PostgresVersion = [], pst_ObservedGeneration = 0, pst_LatestBackup = None\<rparr>\<rparr>"

definition PostgresBackup_zero :: PostgresBackup where
  "PostgresBackup_zero =
    \<lparr>pgb_meta = ObjectMeta_zero,
     pgb_Spec = \<lparr>pbs_ClusterName = [], pbs_Method = [], pbs_Online = False\<rparr>,
     pgb_Status = \<lparr>pbt_Phase = [], pbt_StartTime = None, pbt_CompletionTime = None,
       pbt_BackupSize = 0, pbt_DestinationPath = [], pbt_Conditions = []\<rparr>\<rparr>"

definition PostgresUser_zero :: PostgresUser where
  "PostgresUser_zero =
    \<lparr>pgu_meta = ObjectMeta_zero,
     pgu_Spec = \<lparr>pus_ClusterName = [], pus_PasswordSecret = None, pus_Databases = [],
       pus_Roles = [], pus_Superuser = False, pus_ConnectionLimit = 0\<rparr>,
     pgu_Status = \<lparr>put_Applied = False, put_Conditions = [], put_ObservedGeneration = 0\<rparr>\<rparr>"

end
