(* ===== verification/Conditions.thy ===== *)
theory Conditions
  imports Api_Types
begin

section \<open>Status conditions\<close>

text \<open>
  \<open>internal/conditions/conditions.go\<close> and \<open>internal/postgres/status.go\<close>: the setters that
  upsert a condition into a status, the readers, and the in-place removal. \<open>metav1.Now()\<close> is
  the argument \<open>now\<close>. The locale \<open>condition_upsert\<close> states what an upsert promises on the list of
  conditions; both packages' loops are interpretations of it, and the lemmas about sequences
  of updates are proved once for the contract.
\<close>

subsection \<open>Operations\<close>

fun set_scan :: "Condition \<Rightarrow> Condition list \<Rightarrow> Condition list" where
  "set_scan c [] = [c]"
| "set_scan c (e # es) =
     (if cond_Type e \<noteq> cond_Type c then e # set_scan c es
      else (if cond_Status e = cond_Status c
            then c\<lparr>cond_LastTransitionTime := cond_LastTransitionTime e\<rparr> else c) # es)"

definition conditions_Set :: "gotime \<Rightarrow> Condition list \<Rightarrow> Condition \<Rightarrow> Condition list" where
  "conditions_Set now conds c =
     set_scan (if cond_LastTransitionTime c = 0 then c\<lparr>cond_LastTransitionTime := now\<rparr> else c) conds"

text \<open>
  \<open>Remove\<close> filters into the backing array it reads from: \<open>i\<close> is the read position, \<open>w\<close> the
  length of \<open>out\<close>. The result is the final array and \<open>w\<close>.
\<close>

function remove_loop :: "string \<Rightarrow> Condition list \<Rightarrow> nat \<Rightarrow> nat \<Rightarrow> Condition list \<times> nat" where
  "remove_loop t arr i w =
     (if i < length arr
      then (if cond_Type (arr ! i) \<noteq> t then remove_loop t (arr[w := arr ! i]) (Suc i) (Suc w)
            else remove_loop t arr (Suc i) w)
      else (arr, w))"
  by pat_completeness auto
termination
  by (relation "measure (\<lambda>(t, arr, i, w). length arr - i)") auto

declare remove_loop.simps [simp del]

definition conditions_Remove :: "Condition list \<Rightarrow> string \<Rightarrow> Condition list" where
  "conditions_Remove conds t = (case remove_loop t conds 0 0 of (arr, w) \<Rightarrow> take w arr)"

definition conditions_Find :: "Condition list \<Rightarrow> string \<Rightarrow> Condition option" where
  "conditions_Find conds t = List.find (\<lambda>c. cond_Type c = t) conds"

definition IsTrue :: "Condition list \<Rightarrow> string \<Rightarrow> bool" where
  "IsTrue conds t = (case conditions_Find conds t of None \<Rightarrow> False | Some c \<Rightarrow> cond_Status c = ConditionTrue)"

definition IsFalse :: "Condition list \<Rightarrow> string \<Rightarrow> bool" where
  "IsFalse conds t = (case conditions_Find conds t of None \<Rightarrow> False | Some c \<Rightarrow> cond_Status c = ConditionFalse)"

definition IsUnknown :: "Condition list \<Rightarrow> string \<Rightarrow> bool" where
  "IsUnknown conds t = (case conditions_Find conds t of None \<Rightarrow> True | Some c \<Rightarrow> cond_Status c = ConditionUnknown)"

definition conditions_True :: "string \<Rightarrow> string \<Rightarrow> string \<Rightarrow> Condition" where
  "conditions_True t r m = \<lparr>cond_Type = t, cond_Status = ConditionTrue, cond_ObservedGeneration = 0,
     cond_LastTransitionTime = 0, cond_Reason = r, cond_Message = m\<rparr>"

definition conditions_False :: "string \<Rightarrow> string \<Rightarrow> string \<Rightarrow> Condition" where
  "conditions_False t r m = \<lparr>cond_Type = t, cond_Status = ConditionFalse, cond_ObservedGeneration = 0,
     cond_LastTransitionTime = 0, cond_Reason = r, cond_Message = m\<rparr>"

definition conditions_Unknown :: "string \<Rightarrow> string \<Rightarrow> string \<Rightarrow> Condition" where
  "conditions_Unknown t r m = \<lparr>cond_Type = t, cond_Status = ConditionUnknown, cond_ObservedGeneration = 0,
     cond_LastTransitionTime = 0, cond_Reason = r, cond_Message = m\<rparr>"

definition WithObservedGeneration :: "Condition \<Rightarrow> int \<Rightarrow> Condition" where
  "WithObservedGeneration c gen = c\<lparr>cond_ObservedGeneration := gen\<rparr>"

definition AnyFalse :: "Condition list \<Rightarrow> string list \<Rightarrow> bool" where
  "AnyFalse conds types = list_ex (IsFalse conds) types"

definition AllTrue :: "Condition list \<Rightarrow> string list \<Rightarrow> bool" where
  "AllTrue conds types = list_all (IsTrue conds) types"

definition FilterByPrefix :: "Condition list \<Rightarrow> string \<Rightarrow> Condition list" where
  "FilterByPrefix conds p =
     (if p = [] then conds
      else filter (\<lambda>c. length p \<le> length (cond_Type c) \<and> take (length p) (cond_Type c) = p) conds)"

text \<open>
  The loop that \<open>SetClusterCondition\<close>, \<open>SetBackupCondition\<close> and \<open>SetUserCondition\<close> of
  \<open>internal/postgres/status.go\<close> share: \<open>now\<close> is overwritten when the status is unchanged.
\<close>

fun upsert_condition ::
  "string \<Rightarrow> string \<Rightarrow> int \<Rightarrow> string \<Rightarrow> string \<Rightarrow> gotime \<Rightarrow> Condition list \<Rightarrow> Condition list" where
  "upsert_condition t st gen r m now [] =
     [\<lparr>cond_Type = t, cond_Status = st, cond_ObservedGeneration = gen,
       cond_LastTransitionTime = now, cond_Reason = r, cond_Message = m\<rparr>]"
| "upsert_condition t st gen r m now (c # cs) =
     (if cond_Type c = t
      then \<lparr>cond_Type = t, cond_Status = st, cond_ObservedGeneration = gen,
             cond_LastTransitionTime =
               (if cond_Status c = st then cond_LastTransitionTime c else now),
             cond_Reason = r, cond_Message = m\<rparr> # cs
      else c # upsert_condition t st gen r m now cs)"

definition SetClusterCondition ::
  "gotime \<Rightarrow> string \<Rightarrow> string \<Rightarrow> string \<Rightarrow> string \<Rightarrow> PostgresCluster \<Rightarrow> PostgresCluster" where
  "SetClusterCondition now t st r m cluster =
     cluster\<lparr>pgc_Status := (pgc_Status cluster)\<lparr>pst_Conditions :=
       upsert_condition t st (om_Generation (pgc_meta cluster)) r m now
         (pst_Conditions (pgc_Status cluster))\<rparr>\<rparr>"

definition IsClusterReady :: "PostgresCluster \<Rightarrow> bool" where
  "IsClusterReady cluster =
     list_ex (\<lambda>c. cond_Type c = ConditionReady \<and> cond_Status c = ConditionTrue)
       (pst_Conditions (pgc_Status cluster))"

definition IsClusterRunning :: "PostgresCluster \<Rightarrow> bool" where
  "IsClusterRunning cluster \<longleftrightarrow> pst_Phase (pgc_Status cluster) = PhaseRunning"

definition SetBackupCondition ::
  "gotime \<Rightarrow> string \<Rightarrow> string \<Rightarrow> string \<Rightarrow> string \<Rightarrow> PostgresBackup \<Rightarrow> PostgresBackup" where
  "SetBackupCondition now t st r m backup =
     backup\<lparr>pgb_Status := (pgb_Status backup)\<lparr>pbt_Conditions :=
       upsert_condition t st (om_Generation (pgb_meta backup)) r m now
         (pbt_Conditions (pgb_Status backup))\<rparr>\<rparr>"

definition SetUserCondition ::
  "gotime \<Rightarrow> string \<Rightarrow> string \<Rightarrow> string \<Rightarrow> string \<Rightarrow> PostgresUser \<Rightarrow> PostgresUser" where
  "SetUserCondition now t st r m user =
     user\<lparr>pgu_Status := (pgu_Status user)\<lparr>put_Conditions :=
       upsert_condition t st (om_Generation (pgu_meta user)) r m now
         (put_Conditions (pgu_Status user))\<rparr>\<rparr>"

subsection \<open>The contract of an upsert\<close>

text \<open>The stored form of \<open>c\<close> given the condition of its type that was there before.\<close>

definition stamp :: "Condition option \<Rightarrow> Condition \<Rightarrow> Condition" where
  "stamp old c = (case old of None \<Rightarrow> c
     | Some e \<Rightarrow> if cond_Status e = cond_Status c
                then c\<lparr>cond_LastTransitionTime := cond_LastTransitionTime e\<rparr> else c)"

abbreviation one_per_type :: "Condition list \<Rightarrow> bool" where
  "one_per_type cs \<equiv> distinct (map cond_Type cs)"

lemma stamp_sel [simp]:
  "cond_Type (stamp old c) = cond_Type c"
  "cond_Status (stamp old c) = cond_Status c"
  "cond_Reason (stamp old c) = cond_Reason c"
  "cond_Message (stamp old c) = cond_Message c"
  "cond_ObservedGeneration (stamp old c) = cond_ObservedGeneration c"
  by (simp_all add: stamp_def split: option.splits)

locale condition_upsert =
  fixes ups :: "Condition \<Rightarrow> Condition list \<Rightarrow> Condition list"
  assumes find_ups:
    "conditions_Find (ups c cs) t =
       (if t = cond_Type c then Some (stamp (conditions_Find cs t) c) else conditions_Find cs t)"
  and types_ups:
    "map cond_Type (ups c cs) =
       map cond_Type cs @ (if cond_Type c \<in> cond_Type ` set cs then [] else [cond_Type c])"
begin

lemma one_per_type_ups: "one_per_type cs \<Longrightarrow> one_per_type (ups c cs)"
  by (auto simp: types_ups)

lemma ups_again: "conditions_Find (ups c (ups c cs)) t = conditions_Find (ups c cs) t"
  by (auto simp: find_ups stamp_def split: option.splits)

lemma ups_commute:
  "cond_Type c \<noteq> cond_Type d \<Longrightarrow>
   conditions_Find (ups c (ups d cs)) t = conditions_Find (ups d (ups c cs)) t"
  by (simp add: find_ups)

lemma run_keeps_time:
  assumes "conditions_Find cs t = Some e" "cond_Status e = st" "cond_LastTransitionTime e = w"
    and "list_all (\<lambda>u. cond_Type u = t \<and> cond_Status u = st) us"
  shows "\<exists>e'. conditions_Find (fold ups us cs) t = Some e' \<and> cond_Status e' = st \<and>
              cond_LastTransitionTime e' = w"
  using assms
proof (induction us arbitrary: cs e)
  case (Cons u us)
  then have "conditions_Find (ups u cs) t = Some (u\<lparr>cond_LastTransitionTime := w\<rparr>)"
    by (simp add: find_ups stamp_def)
  from Cons.IH [OF this] Cons.prems show ?case by simp
qed simp

lemma last_status:
  assumes "us \<noteq> []" "list_all (\<lambda>u. cond_Type u = t) us"
  shows "\<exists>e. conditions_Find (fold ups us cs) t = Some e \<and> cond_Status e = cond_Status (last us)"
  using assms
proof (induction us arbitrary: cs rule: rev_induct)
  case (snoc u us)
  then show ?case by (simp add: find_ups)
qed simp

text \<open>After a sequence of updates of one type, the transition time is that of the first
  update of the last run of equal statuses, or the stored one when that run is the whole sequence
  and continues the stored status.\<close>

lemma last_transition:
  assumes types: "list_all (\<lambda>u. cond_Type u = t) (us @ v # run)"
    and run: "list_all (\<lambda>u. cond_Status u = cond_Status v) run"
    and change: "us \<noteq> [] \<Longrightarrow> cond_Status (last us) \<noteq> cond_Status v"
  shows "\<exists>e. conditions_Find (fold ups (us @ v # run) cs) t = Some e \<and>
             cond_Status e = cond_Status v \<and>
             cond_LastTransitionTime e = cond_LastTransitionTime (stamp (if us = [] then conditions_Find cs t else None) v)"
proof -
  have "conditions_Find (ups v (fold ups us cs)) t = Some (stamp (if us = [] then conditions_Find cs t else None) v)"
  proof (cases "us = []")
    case True
    with types show ?thesis by (simp add: find_ups)
  next
    case False
    with last_status [of us t cs] types obtain e where
      "conditions_Find (fold ups us cs) t = Some e" "cond_Status e = cond_Status (last us)"
      by auto
    with change [OF False] types False show ?thesis by (simp add: find_ups stamp_def)
  qed
  moreover have "cond_Status (stamp x v) = cond_Status v" for x by (simp add: stamp_def split: option.split)
  moreover have "list_all (\<lambda>u. cond_Type u = t \<and> cond_Status u = cond_Status v) run"
    using types run by (simp add: list_all_iff)
  ultimately show ?thesis using run_keeps_time [OF _ _ refl] by simp
qed

end

subsection \<open>Both packages provide it\<close>

lemma find_set_scan:
  "conditions_Find (set_scan c cs) t =
     (if t = cond_Type c then Some (stamp (conditions_Find cs t) c) else conditions_Find cs t)"
  by (induction cs) (auto simp: conditions_Find_def stamp_def)

lemma types_set_scan:
  "map cond_Type (set_scan c cs) =
     map cond_Type cs @ (if cond_Type c \<in> cond_Type ` set cs then [] else [cond_Type c])"
  by (induction cs) auto

interpretation cset: condition_upsert set_scan
  by unfold_locales (rule find_set_scan, rule types_set_scan)

text \<open>\<open>put_condition\<close> is the loop of the status setters, taking a whole condition.\<close>

definition put_condition :: "Condition \<Rightarrow> Condition list \<Rightarrow> Condition list" where
  "put_condition c = upsert_condition (cond_Type c) (cond_Status c) (cond_ObservedGeneration c)
     (cond_Reason c) (cond_Message c) (cond_LastTransitionTime c)"

lemma put_condition_set_scan: "put_condition c cs = set_scan c cs"
  by (induction cs) (auto simp: put_condition_def)

interpretation cput: condition_upsert put_condition
  by unfold_locales
     (simp_all only: put_condition_set_scan find_set_scan types_set_scan)

lemma upsert_condition_put:
  "upsert_condition t st gen r m now =
     put_condition \<lparr>cond_Type = t, cond_Status = st, cond_ObservedGeneration = gen,
       cond_LastTransitionTime = now, cond_Reason = r, cond_Message = m\<rparr>"
  by (simp add: put_condition_def)

lemma SetClusterCondition_sel [simp]:
  "pgc_meta (SetClusterCondition now t st r m c) = pgc_meta c"
  "pgc_Spec (SetClusterCondition now t st r m c) = pgc_Spec c"
  "pst_Phase (pgc_Status (SetClusterCondition now t st r m c)) = pst_Phase (pgc_Status c)"
  "pst_ReadyInstances (pgc_Status (SetClusterCondition now t st r m c)) =
     pst_ReadyInstances (pgc_Status c)"
  by (simp_all add: SetClusterCondition_def)

lemma Find_SetClusterCondition:
  "conditions_Find (pst_Conditions (pgc_Status (SetClusterCondition now t st r m c))) t' =
     (if t' = t
      then Some (stamp (conditions_Find (pst_Conditions (pgc_Status c)) t')
                  \<lparr>cond_Type = t, cond_Status = st,
                   cond_ObservedGeneration = om_Generation (pgc_meta c),
                   cond_LastTransitionTime = now, cond_Reason = r, cond_Message = m\<rparr>)
      else conditions_Find (pst_Conditions (pgc_Status c)) t')"
  by (simp add: SetClusterCondition_def upsert_condition_put cput.find_ups)

text \<open>With one condition per type, \<open>IsClusterReady\<close>'s loop is \<open>IsTrue\<close> of the Ready condition.\<close>

lemma list_ex_IsTrue:
  "one_per_type cs \<Longrightarrow>
   list_ex (\<lambda>c. cond_Type c = t \<and> cond_Status c = ConditionTrue) cs \<longleftrightarrow> IsTrue cs t"
proof (induction cs)
  case (Cons c cs)
  then show ?case
  proof (cases "cond_Type c = t")
    case True
    with Cons.prems have "\<not> list_ex (\<lambda>c. cond_Type c = t \<and> cond_Status c = ConditionTrue) cs"
      by (auto simp: list_ex_iff) (metis image_eqI)
    with True show ?thesis by (simp add: IsTrue_def conditions_Find_def)
  qed (simp add: IsTrue_def conditions_Find_def)
qed (simp add: IsTrue_def conditions_Find_def)

subsection \<open>Removal in place\<close>

lemma remove_loop_step:
  "i < length arr \<Longrightarrow> remove_loop t arr i w =
     (if cond_Type (arr ! i) \<noteq> t then remove_loop t (arr[w := arr ! i]) (Suc i) (Suc w)
      else remove_loop t arr (Suc i) w)"
  by (subst remove_loop.simps) simp

lemma remove_loop_filter:
  assumes "w \<le> i" "i \<le> length arr"
  shows "\<exists>rest. remove_loop t arr i w = (rest, w + length (filter (\<lambda>c. cond_Type c \<noteq> t) (drop i arr))) \<and>
           take (w + length (filter (\<lambda>c. cond_Type c \<noteq> t) (drop i arr))) rest =
             take w arr @ filter (\<lambda>c. cond_Type c \<noteq> t) (drop i arr) \<and>
           length rest = length arr"
  using assms
proof (induction t arr i w rule: remove_loop.induct)
  case (1 t arr i w)
  show ?case
  proof (cases "i < length arr")
    case False
    then have "remove_loop t arr i w = (arr, w)" by (subst remove_loop.simps) simp
    moreover from False have "drop i arr = []" by simp
    ultimately show ?thesis by simp
  next
    case True
    then have dr: "drop i arr = arr ! i # drop (Suc i) arr" by (rule Cons_nth_drop_Suc [symmetric])
    show ?thesis
    proof (cases "cond_Type (arr ! i) = t")
      case eq: True
      with True "1.prems" "1.IH"(2) show ?thesis
        by (simp add: remove_loop_step dr)
    next
      case neq: False
      from "1.prems" True have "take (Suc w) (arr[w := arr ! i]) = take w arr @ [arr ! i]"
        by (simp add: take_Suc_conv_app_nth)
      moreover from "1.prems" have "drop (Suc i) (arr[w := arr ! i]) = drop (Suc i) arr" by simp
      ultimately show ?thesis
        using neq True "1.prems" "1.IH"(1) [OF True neq] by (simp add: remove_loop_step dr)
    qed
  qed
qed

subsection \<open>Properties\<close>

text \<open>
  C31. \<open>conditions.Remove\<close>, which overwrites the slice it is iterating over, returns exactly the
  conditions of the other types in their order.
\<close>

theorem Remove_in_place:
  "conditions_Remove conds t = filter (\<lambda>c. cond_Type c \<noteq> t) conds"
  using remove_loop_filter [of 0 0 conds t] by (auto simp: conditions_Remove_def)

text \<open>
  C30. Any non-empty sequence of \<open>SetClusterCondition\<close> calls \<open>(now, status, reason, message)\<close> for one type ends in a
  run of calls with one status; split it before that run. The stored condition then has that status, and the
  time of the first call of the run as its transition time, unless there is no call before the run and the
  cluster already had the condition with that status: then the stored time is kept. So the time moves exactly
  when the status changes.
\<close>

theorem SetClusterCondition_transition_time:
  assumes run: "list_all (\<lambda>(now, st, r, m). st = st1) run"
    and change: "us \<noteq> [] \<Longrightarrow> fst (snd (last us)) \<noteq> st1"
  shows "\<exists>e. conditions_Find (pst_Conditions (pgc_Status
               (fold (\<lambda>(now, st, r, m). SetClusterCondition now t st r m)
                  (us @ (now1, st1, r1, m1) # run) cluster))) t = Some e \<and>
             cond_Status e = st1 \<and>
             cond_LastTransitionTime e =
               (case conditions_Find (pst_Conditions (pgc_Status cluster)) t of
                  Some e0 \<Rightarrow> if us = [] \<and> cond_Status e0 = st1 then cond_LastTransitionTime e0 else now1
                | None \<Rightarrow> now1)"
proof -
  define mk where "mk = (\<lambda>(now, st, r, m). \<lparr>cond_Type = t, cond_Status = st,
    cond_ObservedGeneration = om_Generation (pgc_meta cluster), cond_LastTransitionTime = now,
    cond_Reason = r, cond_Message = m\<rparr>)"
  have conds: "pgc_meta c = pgc_meta cluster \<Longrightarrow>
      pst_Conditions (pgc_Status (fold (\<lambda>(now, st, r, m). SetClusterCondition now t st r m) xs c)) =
      fold put_condition (map mk xs) (pst_Conditions (pgc_Status c))" for xs c
    by (induction xs arbitrary: c)
       (auto simp: mk_def SetClusterCondition_def upsert_condition_put)
  let ?v = "mk (now1, st1, r1, m1)" and ?old = "pst_Conditions (pgc_Status cluster)"
  have "list_all (\<lambda>u. cond_Type u = t) (map mk xs)" for xs
    by (auto simp: list_all_iff mk_def)
  moreover have "list_all (\<lambda>u. cond_Status u = st1) (map mk run)"
    using run by (auto simp: list_all_iff mk_def)
  moreover have "us \<noteq> [] \<Longrightarrow> cond_Status (last (map mk us)) \<noteq> st1"
    using change by (simp add: last_map mk_def case_prod_unfold)
  ultimately have "\<exists>e. conditions_Find (fold put_condition (map mk us @ ?v # map mk run) ?old) t = Some e \<and>
      cond_Status e = cond_Status ?v \<and>
      cond_LastTransitionTime e = cond_LastTransitionTime (stamp (if map mk us = [] then conditions_Find ?old t else None) ?v)"
    by (intro cput.last_transition) (simp_all add: mk_def)
  then show ?thesis unfolding conds [OF refl] by (auto simp: mk_def stamp_def split: option.splits if_splits)
qed

text \<open>C30 on a fresh cluster (one False, then two True updates: the time is that of the second) and on one that is True already.\<close>

theorem SetClusterCondition_transition_time_witness:
  "(\<exists>e. conditions_Find (pst_Conditions (pgc_Status
         (fold (\<lambda>(now, st, r, m). SetClusterCondition now ''Ready'' st r m)
            ([(10, ''False'', ''A'', [])] @ (20, ''True'', ''B'', []) # [(30, ''True'', ''C'', [])])
            PostgresCluster_zero))) ''Ready'' = Some e \<and>
       cond_Status e = ''True'' \<and> cond_LastTransitionTime e = 20) \<and>
   (\<exists>e. conditions_Find (pst_Conditions (pgc_Status
         (fold (\<lambda>(now, st, r, m). SetClusterCondition now ''Ready'' st r m)
            ([] @ (50, ''True'', ''D'', []) # [])
            (SetClusterCondition 40 ''Ready'' ''True'' ''B'' [] PostgresCluster_zero)))) ''Ready'' = Some e \<and>
       cond_Status e = ''True'' \<and> cond_LastTransitionTime e = 40)"
proof -
  have none: "conditions_Find (pst_Conditions (pgc_Status PostgresCluster_zero)) ''Ready'' = None" by code_simp
  have "map_option (\<lambda>e. (cond_Status e, cond_LastTransitionTime e)) (conditions_Find (pst_Conditions (pgc_Status
      (SetClusterCondition 40 ''Ready'' ''True'' ''B'' [] PostgresCluster_zero))) ''Ready'') = Some (''True'', 40)" by code_simp
  then show ?thesis
    using SetClusterCondition_transition_time [of "''True''" "[(30, ''True'', ''C'', [])]" "[(10, ''False'', ''A'', [])]" "''Ready''"
        20 "''B''" "[]" PostgresCluster_zero]
      SetClusterCondition_transition_time [of "''True''" "[]" "[]" "''Ready''" 50 "''D''" "[]"
        "SetClusterCondition 40 ''Ready'' ''True'' ''B'' [] PostgresCluster_zero"]
    by (auto simp: none split: option.splits)
qed

end
