(* ===== verification/Postgres_Naming.thy ===== *)
theory Postgres_Naming
  imports Api_Types
begin

section \<open>Names, labels and images\<close>

text \<open>
  \<open>internal/postgres/naming.go\<close>, \<open>labels.go\<close> and \<open>version.go\<close>: the names of the objects a
  cluster owns, the label sets put on them, and the container images. The names decide which objects two
  clusters of one namespace share, so the lemmas are about when names coincide.
\<close>

subsection \<open>Names\<close>

abbreviation cluster_name :: "PostgresCluster \<Rightarrow> string" where
  "cluster_name c \<equiv> om_Name (pgc_meta c)"

definition ClusterStatefulSetName :: "PostgresCluster \<Rightarrow> string" where
  "ClusterStatefulSetName cluster = cluster_name cluster"

definition PrimaryServiceName :: "PostgresCluster \<Rightarrow> string" where
  "PrimaryServiceName cluster = cluster_name cluster @ ''-primary''"

definition ReplicaServiceName :: "PostgresCluster \<Rightarrow> string" where
  "ReplicaServiceName cluster = cluster_name cluster @ ''-replicas''"

definition HeadlessServiceName :: "PostgresCluster \<Rightarrow> string" where
  "HeadlessServiceName cluster = cluster_name cluster @ ''-pods''"

definition ConfigMapName :: "PostgresCluster \<Rightarrow> string" where
  "ConfigMapName cluster = cluster_name cluster @ ''-config''"

definition SecretName :: "PostgresCluster \<Rightarrow> string" where
  "SecretName cluster = cluster_name cluster @ ''-credentials''"

definition ServiceAccountName :: "PostgresCluster \<Rightarrow> string" where
  "ServiceAccountName cluster =
     (if pcs_ServiceAccountName (pgc_Spec cluster) \<noteq> []
      then pcs_ServiceAccountName (pgc_Spec cluster)
      else cluster_name cluster @ ''-sa'')"

definition BackupJobName :: "PostgresBackup \<Rightarrow> string" where
  "BackupJobName backup = om_Name (pgb_meta backup) @ ''-backup''"

definition PodName :: "PostgresCluster \<Rightarrow> int \<Rightarrow> string" where
  "PodName cluster n = cluster_name cluster @ ''-'' @ dec n"

definition PodFQDN :: "PostgresCluster \<Rightarrow> int \<Rightarrow> string" where
  "PodFQDN cluster n =
     PodName cluster n @ ''.'' @ HeadlessServiceName cluster @ ''.'' @
     om_Namespace (pgc_meta cluster) @ ''.svc.cluster.local''"

subsection \<open>Labels\<close>

definition LabelCluster :: string where [simp]: "LabelCluster = ''pg.athos.io/cluster''"
definition LabelRole :: string where [simp]: "LabelRole = ''pg.athos.io/role''"
definition LabelManagedBy :: string where [simp]: "LabelManagedBy = ''app.kubernetes.io/managed-by''"
definition LabelComponent :: string where [simp]: "LabelComponent = ''app.kubernetes.io/component''"
definition LabelName :: string where [simp]: "LabelName = ''app.kubernetes.io/name''"
definition LabelInstance :: string where [simp]: "LabelInstance = ''app.kubernetes.io/instance''"
definition LabelVersion :: string where [simp]: "LabelVersion = ''pg.athos.io/postgres-version''"
definition RolePrimary :: string where [simp]: "RolePrimary = ''primary''"
definition RoleReplica :: string where [simp]: "RoleReplica = ''replica''"
definition OperatorName :: string where [simp]: "OperatorName = ''athos''"

definition CommonLabels :: "PostgresCluster \<Rightarrow> smap" where
  "CommonLabels cluster =
     [(LabelName, OperatorName), (LabelInstance, cluster_name cluster),
      (LabelManagedBy, OperatorName), (LabelComponent, ''database''),
      (LabelCluster, cluster_name cluster),
      (LabelVersion, dec (pcs_PostgresVersion (pgc_Spec cluster)))]"

definition SelectorLabels :: "PostgresCluster \<Rightarrow> smap" where
  "SelectorLabels cluster =
     [(LabelName, OperatorName), (LabelInstance, cluster_name cluster),
      (LabelCluster, cluster_name cluster)]"

definition PodLabels :: "PostgresCluster \<Rightarrow> string \<Rightarrow> smap" where
  "PodLabels cluster role = mapset (CommonLabels cluster) LabelRole role"

definition PrimaryPodLabels :: "PostgresCluster \<Rightarrow> smap" where
  "PrimaryPodLabels cluster = PodLabels cluster RolePrimary"

definition ReplicaPodLabels :: "PostgresCluster \<Rightarrow> smap" where
  "ReplicaPodLabels cluster = PodLabels cluster RoleReplica"

definition MergeLabels :: "smap \<Rightarrow> smap \<Rightarrow> smap" where
  "MergeLabels base overlay = range_set (range_set [] base) overlay"

subsection \<open>Images\<close>

definition defaultImageRepo :: string where "defaultImageRepo = ''docker.io/library/postgres''"
definition exporterImageRepo :: string where
  "exporterImageRepo = ''quay.io/prometheuscommunity/postgres-exporter''"
definition defaultExporterTag :: string where "defaultExporterTag = ''v0.15.0''"

definition PostgresImageTag :: "int \<Rightarrow> string" where
  "PostgresImageTag version =
     (if version = 14 then defaultImageRepo @ '':14-alpine''
      else if version = 15 then defaultImageRepo @ '':15-alpine''
      else if version = 16 then defaultImageRepo @ '':16-alpine''
      else if version = 17 then defaultImageRepo @ '':17-alpine''
      else defaultImageRepo @ '':'' @ dec version @ ''-alpine'')"

definition ExporterImageTag :: string where
  "ExporterImageTag = exporterImageRepo @ '':'' @ defaultExporterTag"

subsection \<open>Lemmas\<close>

lemma dec_small [simp]:
  "dec 14 = ''14''" "dec 15 = ''15''" "dec 16 = ''16''" "dec 17 = ''17''"
  by code_simp+

text \<open>The cases of the switch agree with its default.\<close>

lemma PostgresImageTag_uniform:
  "PostgresImageTag v = defaultImageRepo @ '':'' @ dec v @ ''-alpine''"
  by (simp add: PostgresImageTag_def)

lemma append_suffix_inject:
  "length u = length v \<Longrightarrow> x @ u = y @ v \<longleftrightarrow> x = y \<and> u = v"
  by simp

lemma wf_CommonLabels [simp]: "wf_map (CommonLabels c)"
  by (simp add: CommonLabels_def)

lemma wf_SelectorLabels [simp]: "wf_map (SelectorLabels c)"
  by (simp add: SelectorLabels_def)

lemma MergeLabels_lookup [go_map]:
  "wf_map base \<Longrightarrow> wf_map overlay \<Longrightarrow>
   map_of (MergeLabels base overlay) = map_of base ++ map_of overlay"
  by (simp add: MergeLabels_def range_set_lookup)

lemma wf_MergeLabels [simp]: "wf_map (MergeLabels base overlay)"
  by (simp add: MergeLabels_def)

lemma PodLabels_lookup [go_map]:
  "map_of (PodLabels c role) = (map_of (CommonLabels c))(LabelRole \<mapsto> role)"
  by (simp add: PodLabels_def)

lemma service_names_distinct:
  "distinct [HeadlessServiceName c, PrimaryServiceName c, ReplicaServiceName c]"
  by (simp add: HeadlessServiceName_def PrimaryServiceName_def ReplicaServiceName_def)

text \<open>The selector labels are part of the common labels, so every object of a cluster that carries the common
  labels is selected, and none of a cluster with another name.\<close>

lemma selector_selects_common: "selects (SelectorLabels c) (CommonLabels c)"
  by (simp add: selects_def SelectorLabels_def CommonLabels_def)

lemma selector_selects_only:
  "map_of labels LabelCluster = map_of (CommonLabels d) LabelCluster \<Longrightarrow>
   selects (SelectorLabels c) labels \<Longrightarrow> cluster_name c = cluster_name d"
  by (simp add: selects_def SelectorLabels_def CommonLabels_def)

text \<open>A pod name determines its cluster's name and its ordinal.\<close>

lemma dash_dec_nat_inject:
  "x @ CHR ''-'' # dec_nat m = y @ CHR ''-'' # dec_nat n \<longleftrightarrow> x = y \<and> m = n"
proof
  assume eq: "x @ CHR ''-'' # dec_nat m = y @ CHR ''-'' # dec_nat n"
  have nodash: "CHR ''-'' \<notin> set (dec_nat k)" for k
    using dec_nat_digits [of k] by (auto simp: list_all_iff is_digit_def)
  from eq have "LastIndexByte (x @ CHR ''-'' # dec_nat m) CHR ''-'' =
      LastIndexByte (y @ CHR ''-'' # dec_nat n) CHR ''-''" by simp
  then have "length x = length y" by (simp add: LastIndexByte_append nodash)
  with eq show "x = y \<and> m = n" by simp
qed simp

lemma PodName_inject:
  "0 \<le> m \<Longrightarrow> 0 \<le> n \<Longrightarrow>
   PodName c m = PodName d n \<longleftrightarrow> cluster_name c = cluster_name d \<and> m = n"
  by (auto simp: PodName_def dec_def dash_dec_nat_inject)

end
