(* ===== verification/Postgres_Config.thy ===== *)
theory Postgres_Config
  imports Postgres_Naming
begin

section \<open>postgresql.conf and pg\_hba.conf\<close>

text \<open>
  \<open>internal/postgres/config.go\<close>, \<open>hba.go\<close> and \<open>params.go\<close>: the parameter maps, their merge, the
  rendering of the two configuration files, and the memory-derived tuning.
\<close>

subsection \<open>Parameters\<close>

definition DefaultParams :: smap where
  "DefaultParams =
    [(''listen_addresses'', [CHR 0x27, CHR ''*'', CHR 0x27]),
     (''max_connections'', ''100''),
     (''port'', ''5432''),
     (''shared_buffers'', ''128MB''),
     (''effective_cache_size'', ''512MB''),
     (''maintenance_work_mem'', ''64MB''),
     (''work_mem'', ''4MB''),
     (''wal_level'', ''replica''),
     (''max_wal_senders'', ''10''),
     (''max_replication_slots'', ''10''),
     (''wal_keep_size'', ''1GB''),
     (''archive_mode'', ''off''),
     (''checkpoint_completion_target'', ''0.9''),
     (''checkpoint_timeout'', ''10min''),
     (''random_page_cost'', ''1.1''),
     (''effective_io_concurrency'', ''200''),
     (''log_destination'', [CHR 0x27] @ ''stderr'' @ [CHR 0x27]),
     (''logging_collector'', ''off''),
     (''log_min_duration_statement'', ''1000''),
     (''log_connections'', ''on''),
     (''log_disconnections'', ''on''),
     (''log_line_prefix'', [CHR 0x27] @ ''%m [%p] %q%u@%d '' @ [CHR 0x27]),
     (''autovacuum'', ''on''),
     (''autovacuum_max_workers'', ''3''),
     (''autovacuum_naptime'', ''1min''),
     (''autovacuum_vacuum_scale_factor'', ''0.1''),
     (''autovacuum_analyze_scale_factor'', ''0.05'')]"

definition MergeParams :: "smap \<Rightarrow> smap \<Rightarrow> smap" where
  "MergeParams base override = range_set (range_set [] base) override"

definition conf_line :: "smap \<Rightarrow> string \<Rightarrow> string" where
  "conf_line params k = k @ '' = '' @ mapidx params k @ [CHR 0x0A]"

definition BuildPostgresConf :: "smap \<Rightarrow> string" where
  "BuildPostgresConf params =
     ''# Managed by Athos. Do not edit manually.'' @ [CHR 0x0A] @
     concat (map (conf_line params) (sort (keys params)))"

subsection \<open>Host-based authentication\<close>

definition DefaultHBAConf :: "bool \<Rightarrow> string list" where
  "DefaultHBAConf tlsEnabled =
    [''local   all             all                                     peer'',
     ''host    all             all             127.0.0.1/32            scram-sha-256'',
     ''host    all             all             ::1/128                 scram-sha-256'',
     ''host    replication     all             10.0.0.0/8              scram-sha-256'',
     ''host    replication     all             172.16.0.0/12           scram-sha-256'',
     ''host    replication     all             192.168.0.0/16          scram-sha-256''] @
    (if tlsEnabled
     then [''hostssl all             all             0.0.0.0/0               scram-sha-256'',
           ''hostssl all             all             ::/0                    scram-sha-256'']
     else [''host    all             all             0.0.0.0/0               scram-sha-256'',
           ''host    all             all             ::/0                    scram-sha-256''])"

definition BuildHBAConf :: "string list \<Rightarrow> bool \<Rightarrow> string" where
  "BuildHBAConf rules tlsEnabled =
     ''# Managed by Athos. Do not edit manually.'' @ [CHR 0x0A] @
     ''# TYPE  DATABASE        USER            ADDRESS                 METHOD'' @ [CHR 0x0A] @
     concat (map (\<lambda>r. r @ [CHR 0x0A]) (DefaultHBAConf tlsEnabled)) @
     (if length rules > 0
      then [CHR 0x0A] @ ''# Custom rules from PostgresCluster.spec.postgresHBA'' @ [CHR 0x0A] @
           concat (map (\<lambda>r. r @ [CHR 0x0A]) rules)
      else [])"

subsection \<open>Tuning\<close>

text \<open>
  \<open>ResourceList.Memory()\<close> points to the zero quantity when the list has no memory entry, so
  it is never nil. \<open>Quantity.Value()\<close> rounds up.
\<close>

definition Memory :: "ResourceList \<Rightarrow> Quantity" where
  "Memory rl = (case map_of rl ''memory'' of None \<Rightarrow> 0 | Some q \<Rightarrow> q)"

definition QuantityValue :: "Quantity \<Rightarrow> int" where
  "QuantityValue q = i64 \<lceil>q\<rceil>"

definition containerMemoryBytes :: "PostgresCluster \<Rightarrow> int" where
  "containerMemoryBytes cluster =
     (let mem = Memory (rr_Limits (pcs_Resources (pgc_Spec cluster)));
          mem' = (if mem = 0 then Memory (rr_Requests (pcs_Resources (pgc_Spec cluster))) else mem)
      in QuantityValue mem')"

definition fmtMemory :: "int \<Rightarrow> string" where
  "fmtMemory bytes =
     (if bytes \<ge> 1073741824 then dec (gquot bytes 1073741824) @ ''GB''
      else if bytes \<ge> 1048576 then dec (gquot bytes 1048576) @ ''MB''
      else dec (gquot bytes 1024) @ ''kB'')"

definition AutoTune :: "PostgresCluster \<Rightarrow> smap" where
  "AutoTune cluster =
     (let memBytes = containerMemoryBytes cluster in
      if memBytes \<le> 0 then []
      else
       let sharedBuffers = gquot memBytes 4;
           sharedBuffers = (if sharedBuffers > 8589934592 then 8589934592 else sharedBuffers);
           maintenanceMem = gquot memBytes 20;
           maintenanceMem = (if maintenanceMem > 2147483648 then 2147483648 else maintenanceMem)
       in [(''shared_buffers'', fmtMemory sharedBuffers),
           (''effective_cache_size'', fmtMemory (gquot (i64 (memBytes * 3)) 4)),
           (''maintenance_work_mem'', fmtMemory maintenanceMem),
           (''work_mem'', ''4MB''),
           (''checkpoint_completion_target'', ''0.9''),
           (''wal_buffers'', ''-1''),
           (''default_statistics_target'', ''100''),
           (''random_page_cost'', ''1.1''),
           (''effective_io_concurrency'', ''200'')])"

definition MergeWithAutoTune :: "PostgresCluster \<Rightarrow> smap" where
  "MergeWithAutoTune cluster = range_set (AutoTune cluster) (pcs_PostgresParameters (pgc_Spec cluster))"

definition maxConnections :: "PostgresCluster \<Rightarrow> int" where
  "maxConnections cluster = i32 (100 * pcs_Instances (pgc_Spec cluster))"

definition RequiredConnectionParams :: "PostgresCluster \<Rightarrow> smap" where
  "RequiredConnectionParams cluster =
    [(''listen_addresses'', ''*''), (''port'', ''5432''),
     (''max_connections'', dec (maxConnections cluster)),
     (''superuser_reserved_connections'', ''3'')]"

text \<open>\<open>resource.ParseQuantity\<close> is the argument \<open>parse\<close>.\<close>

definition ParseMemoryBytes :: "(string \<Rightarrow> Quantity option) \<Rightarrow> string \<Rightarrow> int" where
  "ParseMemoryBytes parse quantity =
     (case parse quantity of None \<Rightarrow> - 1 | Some q \<Rightarrow> QuantityValue q)"

subsection \<open>Lemmas\<close>

lemma wf_DefaultParams [simp]: "wf_map DefaultParams"
  by (simp add: DefaultParams_def)

lemma wf_AutoTune [simp]: "wf_map (AutoTune c)"
  by (simp add: AutoTune_def Let_def)

lemma wf_MergeParams [simp]: "wf_map (MergeParams base ov)"
  by (simp add: MergeParams_def)

lemma MergeParams_lookup [go_map]:
  "wf_map base \<Longrightarrow> wf_map ov \<Longrightarrow> map_of (MergeParams base ov) = map_of base ++ map_of ov"
  by (simp add: MergeParams_def range_set_lookup)

lemma MergeWithAutoTune_lookup [go_map]:
  "wf_map (pcs_PostgresParameters (pgc_Spec c)) \<Longrightarrow>
   map_of (MergeWithAutoTune c) = map_of (AutoTune c) ++ map_of (pcs_PostgresParameters (pgc_Spec c))"
  by (simp add: MergeWithAutoTune_def range_set_lookup)

lemma BuildPostgresConf_cong:
  assumes "wf_map m" "wf_map m'" "set m = set m'"
  shows "BuildPostgresConf m = BuildPostgresConf m'"
proof -
  have "conf_line m = conf_line m'"
    using map_of_cong_set [OF assms] by (simp add: conf_line_def mapidx_def fun_eq_iff)
  then show ?thesis using sort_keys_cong [OF assms] by (simp add: BuildPostgresConf_def)
qed

text \<open>
  Splitting a rendered file at the line feeds gives the lines that were written, when none
  of them contains a line feed itself.
\<close>

lemma splitc_lines:
  "\<forall>l \<in> set ls. c \<notin> set l \<Longrightarrow> splitc c (concat (map (\<lambda>l. l @ [c]) ls)) = ls @ [[]]"
  by (induction ls) (simp_all add: splitc_append)

lemma conf_line_eq: "conf_line m k = (k @ '' = '' @ mapidx m k) @ [CHR 0x0A]"
  by (simp add: conf_line_def)

lemma conf_file_lines:
  assumes "wf_map m" and nl: "\<forall>(k, v) \<in> set m. CHR 0x0A \<notin> set k \<and> CHR 0x0A \<notin> set v"
  shows "splitc CHR 0x0A (BuildPostgresConf m) =
    ''# Managed by Athos. Do not edit manually.'' #
      map (\<lambda>k. k @ '' = '' @ mapidx m k) (sort (keys m)) @ [[]]"
proof -
  let ?ls = "map (\<lambda>k. k @ '' = '' @ mapidx m k) (sort (keys m))"
  have line: "CHR 0x0A \<notin> set (k @ '' = '' @ mapidx m k)" if "k \<in> set (keys m)" for k
  proof -
    from that obtain v where kv: "(k, v) \<in> set m" by auto
    with assms(1) have "mapidx m k = v" by (simp add: mapidx_def)
    with kv nl show ?thesis by auto
  qed
  have "splitc CHR 0x0A (concat (map (\<lambda>l. l @ [CHR 0x0A]) ?ls)) = ?ls @ [[]]"
    by (rule splitc_lines) (use line in simp)
  moreover have "BuildPostgresConf m = ''# Managed by Athos. Do not edit manually.'' @
      CHR 0x0A # concat (map (\<lambda>l. l @ [CHR 0x0A]) ?ls)"
    unfolding BuildPostgresConf_def map_map o_def conf_line_eq [symmetric] by simp
  moreover have "CHR 0x0A \<notin> set ''# Managed by Athos. Do not edit manually.''" by simp
  ultimately show ?thesis by (simp only: splitc_append not_False_eq_True)
qed

end
