(* ===== verification/Kube_Client.thy ===== *)
theory Kube_Client
  imports Api_Types
begin

section \<open>The API client as a parameter\<close>

text \<open>
  The reconcilers talk to the API server through controller-runtime's \<open>client.Client\<close>, which is outside
  the repository. It is a record of operations over an unknown world \<open>'w\<close>; so are the event recorder, the
  clock, the random source, the SQL executor and \<open>controllerutil.SetControllerReference\<close>, in
  the record \<open>env\<close>. An operation takes the world and returns an error or a value together with the new
  world, so a statement about all \<open>env\<close> is a statement about every server, every
  failure and every concurrent change between two calls.

  \<open>logged\<close> is the client that also records the calls made through it. The locale
  \<open>quiet_env\<close> is the documented behaviour of a server that nobody else writes to; the
  in-memory store at the end is an instance.
\<close>

subsection \<open>Errors and effects\<close>

text \<open>\<open>Wrap m e\<close> is \<open>fmt.Errorf("m: %w", e)\<close>; \<open>WrapWith m e s\<close> is \<open>fmt.Errorf("m: %w (stderr: s)", e)\<close>.\<close>

datatype err = NotFound | AlreadyExists | OtherErr string | Wrap string err | WrapWith string err string

fun IsNotFound :: "err \<Rightarrow> bool" where
  "IsNotFound NotFound = True"
| "IsNotFound (Wrap _ e) = IsNotFound e"
| "IsNotFound (WrapWith _ e _) = IsNotFound e"
| "IsNotFound _ = False"

fun IsAlreadyExists :: "err \<Rightarrow> bool" where
  "IsAlreadyExists AlreadyExists = True"
| "IsAlreadyExists (Wrap _ e) = IsAlreadyExists e"
| "IsAlreadyExists (WrapWith _ e _) = IsAlreadyExists e"
| "IsAlreadyExists _ = False"

text \<open>\<open>err.Error()\<close>, with the texts of the API machinery's own errors as a parameter.\<close>

fun ErrorText :: "(err \<Rightarrow> string) \<Rightarrow> err \<Rightarrow> string" where
  "ErrorText base (Wrap m e) = m @ '': '' @ ErrorText base e"
| "ErrorText base (WrapWith m e s) = m @ '': '' @ ErrorText base e @ '' (stderr: '' @ s @ '')''"
| "ErrorText base e = base e"

type_synonym ('w, 'a) io = "'w \<Rightarrow> (err + 'a) \<times> 'w"

definition retE :: "'a \<Rightarrow> ('w, 'a) io" where "retE a = (\<lambda>w. (Inr a, w))"
definition failE :: "err \<Rightarrow> ('w, 'a) io" where "failE e = (\<lambda>w. (Inl e, w))"

text \<open>\<open>bindE\<close> is the pattern \<open>x, err := m(); if err != nil { return err }\<close>.\<close>

definition bindE :: "('w, 'a) io \<Rightarrow> ('a \<Rightarrow> ('w, 'b) io) \<Rightarrow> ('w, 'b) io" where
  "bindE m f = (\<lambda>w. case m w of (Inl e, w') \<Rightarrow> (Inl e, w') | (Inr a, w') \<Rightarrow> f a w')"

definition thenE :: "('w, 'a) io \<Rightarrow> ('w, 'b) io \<Rightarrow> ('w, 'b) io" where
  "thenE m n = bindE m (\<lambda>_. n)"

text \<open>\<open>tryE\<close> keeps the error as a value, for code that inspects it (\<open>errors.IsNotFound(err)\<close>).\<close>

definition tryE :: "('w, 'a) io \<Rightarrow> ('w, err + 'a) io" where
  "tryE m = (\<lambda>w. case m w of (r, w') \<Rightarrow> (Inr r, w'))"

definition wrapE :: "string \<Rightarrow> ('w, 'a) io \<Rightarrow> ('w, 'a) io" where
  "wrapE msg m = (\<lambda>w. case m w of (Inl e, w') \<Rightarrow> (Inl (Wrap msg e), w') | (Inr a, w') \<Rightarrow> (Inr a, w'))"

lemma run_retE [simp]: "retE a w = (Inr a, w)"
  by (simp add: retE_def)

lemma run_failE [simp]: "failE e w = (Inl e, w)"
  by (simp add: failE_def)

lemma run_bindE: "bindE m f w = (case m w of (Inl e, w') \<Rightarrow> (Inl e, w') | (Inr a, w') \<Rightarrow> f a w')"
  by (simp add: bindE_def)

lemma run_bindE_Inr [simp]: "m w = (Inr a, w') \<Longrightarrow> bindE m f w = f a w'"
  by (simp add: bindE_def)

lemma run_bindE_Inl [simp]: "m w = (Inl e, w') \<Longrightarrow> bindE m f w = (Inl e, w')"
  by (simp add: bindE_def)

lemma run_thenE_Inr [simp]: "m w = (Inr a, w') \<Longrightarrow> thenE m n w = n w'"
  by (simp add: thenE_def)

lemma run_thenE_Inl [simp]: "m w = (Inl e, w') \<Longrightarrow> thenE m n w = (Inl e, w')"
  by (simp add: thenE_def)

lemma run_tryE [simp]: "m w = (r, w') \<Longrightarrow> tryE m w = (Inr r, w')"
  by (simp add: tryE_def)

lemma run_wrapE_Inr [simp]: "m w = (Inr a, w') \<Longrightarrow> wrapE msg m w = (Inr a, w')"
  by (simp add: wrapE_def)

lemma run_wrapE_Inl [simp]: "m w = (Inl e, w') \<Longrightarrow> wrapE msg m w = (Inl (Wrap msg e), w')"
  by (simp add: wrapE_def)

subsection \<open>Objects and calls\<close>

datatype KObj =
    KCluster PostgresCluster | KBackup PostgresBackup | KUser PostgresUser | KSecret Secret
  | KConfigMap ConfigMap | KStatefulSet StatefulSet | KService Service | KPDB PodDisruptionBudget
  | KServiceAccount ServiceAccount | KJob Job | KDeployment Deployment

datatype Kind =
    ClusterKind | BackupKind | UserKind | SecretKind | ConfigMapKind | StatefulSetKind
  | ServiceKind | PDBKind | ServiceAccountKind | JobKind | DeploymentKind

fun kind_of :: "KObj \<Rightarrow> Kind" where
  "kind_of (KCluster _) = ClusterKind"
| "kind_of (KBackup _) = BackupKind"
| "kind_of (KUser _) = UserKind"
| "kind_of (KSecret _) = SecretKind"
| "kind_of (KConfigMap _) = ConfigMapKind"
| "kind_of (KStatefulSet _) = StatefulSetKind"
| "kind_of (KService _) = ServiceKind"
| "kind_of (KPDB _) = PDBKind"
| "kind_of (KServiceAccount _) = ServiceAccountKind"
| "kind_of (KJob _) = JobKind"
| "kind_of (KDeployment _) = DeploymentKind"

fun meta_of :: "KObj \<Rightarrow> ObjectMeta" where
  "meta_of (KCluster o1) = pgc_meta o1"
| "meta_of (KBackup o1) = pgb_meta o1"
| "meta_of (KUser o1) = pgu_meta o1"
| "meta_of (KSecret o1) = sec_meta o1"
| "meta_of (KConfigMap o1) = cm_meta o1"
| "meta_of (KStatefulSet o1) = sts_meta o1"
| "meta_of (KService o1) = svc_meta o1"
| "meta_of (KPDB o1) = pdb_meta o1"
| "meta_of (KServiceAccount o1) = sa_meta o1"
| "meta_of (KJob o1) = job_meta o1"
| "meta_of (KDeployment o1) = dep_meta o1"

lemma kind_of_iff:
  "kind_of ob = ClusterKind \<longleftrightarrow> (\<exists>x. ob = KCluster x)"
  "kind_of ob = BackupKind \<longleftrightarrow> (\<exists>x. ob = KBackup x)"
  "kind_of ob = UserKind \<longleftrightarrow> (\<exists>x. ob = KUser x)"
  "kind_of ob = SecretKind \<longleftrightarrow> (\<exists>x. ob = KSecret x)"
  "kind_of ob = ConfigMapKind \<longleftrightarrow> (\<exists>x. ob = KConfigMap x)"
  "kind_of ob = StatefulSetKind \<longleftrightarrow> (\<exists>x. ob = KStatefulSet x)"
  "kind_of ob = ServiceKind \<longleftrightarrow> (\<exists>x. ob = KService x)"
  "kind_of ob = PDBKind \<longleftrightarrow> (\<exists>x. ob = KPDB x)"
  "kind_of ob = ServiceAccountKind \<longleftrightarrow> (\<exists>x. ob = KServiceAccount x)"
  "kind_of ob = JobKind \<longleftrightarrow> (\<exists>x. ob = KJob x)"
  "kind_of ob = DeploymentKind \<longleftrightarrow> (\<exists>x. ob = KDeployment x)"
  by (cases ob; simp)+

type_synonym Key = "Kind \<times> string \<times> string"

definition key_of :: "KObj \<Rightarrow> Key" where
  "key_of ob = (kind_of ob, om_Namespace (meta_of ob), om_Name (meta_of ob))"

record 'w client =
  cl_get :: "Key \<Rightarrow> ('w, KObj) io"
  cl_create :: "KObj \<Rightarrow> ('w, unit) io"
  cl_update :: "KObj \<Rightarrow> ('w, unit) io"
  cl_status_update :: "KObj \<Rightarrow> ('w, KObj) io"

record Event =
  evt_Type :: string
  evt_Reason :: string
  evt_Message :: string

text \<open>
  \<open>env_setRef owner meta\<close> is the metadata after \<open>SetControllerReference\<close>, or its error;
  \<open>env_recorder\<close> is None for the nil Recorder; \<open>env_rand n\<close> is \<open>rand.Int(rand.Reader, n)\<close>;
  \<open>env_exec ns pod container cmd\<close> runs a command in a pod through the exec subresource, None for
  the nil RestConfig; \<open>env_errtext\<close> gives the texts of the API machinery's errors.
\<close>

datatype ExecResult = ExecOk | NoClient err | NoExecutor err | StreamErr err string

record 'w env =
  env_client :: "'w client"
  env_setRef :: "KObj \<Rightarrow> ObjectMeta \<Rightarrow> err + ObjectMeta"
  env_recorder :: "(KObj \<Rightarrow> Event \<Rightarrow> 'w \<Rightarrow> 'w) option"
  env_now :: "'w \<Rightarrow> gotime"
  env_rand :: "nat \<Rightarrow> ('w, nat) io"
  env_exec :: "(string \<Rightarrow> string \<Rightarrow> string \<Rightarrow> string list \<Rightarrow> 'w \<Rightarrow> ExecResult \<times> 'w) option"
  env_errtext :: "err \<Rightarrow> string"
  env_uni :: unitab

text \<open>Get into a typed object. The API machinery reports an error when the stored kind does
  not decode into the type.\<close>

definition get_as :: "(KObj \<Rightarrow> 'a option) \<Rightarrow> 'w env \<Rightarrow> Key \<Rightarrow> ('w, 'a) io" where
  "get_as p env k = bindE (cl_get (env_client env) k)
     (\<lambda>ob. case p ob of None \<Rightarrow> failE (OtherErr ''decode'') | Some x \<Rightarrow> retE x)"

fun asCluster :: "KObj \<Rightarrow> PostgresCluster option" where "asCluster (KCluster x) = Some x" | "asCluster _ = None"
fun asBackup :: "KObj \<Rightarrow> PostgresBackup option" where "asBackup (KBackup x) = Some x" | "asBackup _ = None"
fun asUser :: "KObj \<Rightarrow> PostgresUser option" where "asUser (KUser x) = Some x" | "asUser _ = None"
fun asSecret :: "KObj \<Rightarrow> Secret option" where "asSecret (KSecret x) = Some x" | "asSecret _ = None"
fun asConfigMap :: "KObj \<Rightarrow> ConfigMap option" where "asConfigMap (KConfigMap x) = Some x" | "asConfigMap _ = None"
fun asStatefulSet :: "KObj \<Rightarrow> StatefulSet option" where "asStatefulSet (KStatefulSet x) = Some x" | "asStatefulSet _ = None"
fun asService :: "KObj \<Rightarrow> Service option" where "asService (KService x) = Some x" | "asService _ = None"
fun asPDB :: "KObj \<Rightarrow> PodDisruptionBudget option" where "asPDB (KPDB x) = Some x" | "asPDB _ = None"
fun asServiceAccount :: "KObj \<Rightarrow> ServiceAccount option" where "asServiceAccount (KServiceAccount x) = Some x" | "asServiceAccount _ = None"
fun asJob :: "KObj \<Rightarrow> Job option" where "asJob (KJob x) = Some x" | "asJob _ = None"
fun asDeployment :: "KObj \<Rightarrow> Deployment option" where "asDeployment (KDeployment x) = Some x" | "asDeployment _ = None"

definition Create :: "'w env \<Rightarrow> KObj \<Rightarrow> ('w, unit) io" where
  "Create env ob = cl_create (env_client env) ob"

definition Update :: "'w env \<Rightarrow> KObj \<Rightarrow> ('w, unit) io" where
  "Update env ob = cl_update (env_client env) ob"

definition StatusUpdate :: "'w env \<Rightarrow> KObj \<Rightarrow> ('w, KObj) io" where
  "StatusUpdate env ob = cl_status_update (env_client env) ob"

definition getNow :: "'w env \<Rightarrow> ('w, gotime) io" where
  "getNow env = (\<lambda>w. (Inr (env_now env w), w))"

lemma run_getNow [simp]: "getNow env w = (Inr (env_now env w), w)"
  by (simp add: getNow_def)

text \<open>\<open>ctrl.Result\<close>, with \<open>RequeueAfter\<close> in seconds.\<close>

record Result =
  res_Requeue :: bool
  res_RequeueAfter :: int

definition res_done :: Result where "res_done = \<lparr>res_Requeue = False, res_RequeueAfter = 0\<rparr>"
definition res_requeue :: Result where "res_requeue = \<lparr>res_Requeue = True, res_RequeueAfter = 0\<rparr>"
definition res_after :: "int \<Rightarrow> Result" where "res_after s = \<lparr>res_Requeue = False, res_RequeueAfter = s\<rparr>"

definition recordEvent :: "'w env \<Rightarrow> KObj \<Rightarrow> string \<Rightarrow> string \<Rightarrow> string \<Rightarrow> ('w, unit) io" where
  "recordEvent env ob ty reason msg =
     (\<lambda>w. (Inr (), case env_recorder env of
        None \<Rightarrow> w
      | Some r \<Rightarrow> r ob \<lparr>evt_Type = ty, evt_Reason = reason, evt_Message = msg\<rparr> w))"

subsection \<open>Recording the calls\<close>

datatype call =
    CGet Key | CCreate KObj | CUpdate KObj | CStatus KObj | CEvent KObj Event
  | CExec string string string "string list"

type_synonym 'w logw = "'w \<times> call list"

definition log_io :: "call \<Rightarrow> ('w, 'a) io \<Rightarrow> ('w logw, 'a) io" where
  "log_io c m = (\<lambda>(w, l). case m w of (r, w') \<Rightarrow> (r, (w', l @ [c])))"

definition quiet_io :: "('w, 'a) io \<Rightarrow> ('w logw, 'a) io" where
  "quiet_io m = (\<lambda>(w, l). case m w of (r, w') \<Rightarrow> (r, (w', l)))"

definition logged_client :: "'w client \<Rightarrow> 'w logw client" where
  "logged_client c =
     \<lparr>cl_get = (\<lambda>k. log_io (CGet k) (cl_get c k)),
      cl_create = (\<lambda>ob. log_io (CCreate ob) (cl_create c ob)),
      cl_update = (\<lambda>ob. log_io (CUpdate ob) (cl_update c ob)),
      cl_status_update = (\<lambda>ob. log_io (CStatus ob) (cl_status_update c ob))\<rparr>"

definition logged :: "'w env \<Rightarrow> 'w logw env" where
  "logged env =
     \<lparr>env_client = logged_client (env_client env),
      env_setRef = env_setRef env,
      env_recorder = map_option (\<lambda>r ob ev (w, l). (r ob ev w, l @ [CEvent ob ev])) (env_recorder env),
      env_now = (\<lambda>(w, l). env_now env w),
      env_rand = (\<lambda>n. quiet_io (env_rand env n)),
      env_exec = map_option (\<lambda>x ns pod cn cmd (w, l).
        case x ns pod cn cmd w of (r, w') \<Rightarrow> (r, (w', l @ [CExec ns pod cn cmd]))) (env_exec env),
      env_errtext = env_errtext env,
      env_uni = env_uni env\<rparr>"

text \<open>\<open>calls m w\<close> are the calls \<open>m\<close> makes when started in \<open>w\<close>.\<close>

definition calls :: "('w logw, 'a) io \<Rightarrow> 'w \<Rightarrow> call list" where
  "calls m w = snd (snd (m (w, [])))"

text \<open>\<open>logs C m\<close>: every call \<open>m\<close> makes satisfies \<open>C\<close>, and \<open>m\<close> only adds to the log.\<close>

definition logs :: "(call \<Rightarrow> bool) \<Rightarrow> ('w logw, 'a) io \<Rightarrow> bool" where
  "logs C m \<longleftrightarrow> (\<forall>w l. \<exists>l'. snd (snd (m (w, l))) = l @ l' \<and> list_all C l')"

named_theorems logs_intro \<open>rules for the calls of a program\<close>

lemma logs_calls: "logs C m \<Longrightarrow> list_all C (calls m w)"
  unfolding logs_def calls_def by (metis append_Nil)

lemma logs_retE [logs_intro]: "logs C (retE a)"
  by (simp add: logs_def)

lemma logs_failE [logs_intro]: "logs C (failE e)"
  by (simp add: logs_def)

lemma logs_Pair [logs_intro]: "logs C (Pair r)"
  by (simp add: logs_def)

lemma logs_bindE [logs_intro]:
  assumes m: "logs C m" and f: "\<And>a. logs C (f a)"
  shows "logs C (bindE m f)"
  unfolding logs_def
proof (intro allI)
  fix w l
  from m obtain l1 where l1: "snd (snd (m (w, l))) = l @ l1" "list_all C l1"
    unfolding logs_def by blast
  obtain r w1 where mw: "m (w, l) = (r, (w1, l @ l1))" using l1(1) by (metis prod.collapse)
  show "\<exists>l'. snd (snd (bindE m f (w, l))) = l @ l' \<and> list_all C l'"
  proof (cases r)
    case (Inl e)
    with mw l1 show ?thesis by simp
  next
    case (Inr a)
    from f [of a] obtain l2 where "snd (snd (f a (w1, l @ l1))) = (l @ l1) @ l2" "list_all C l2"
      unfolding logs_def by blast
    with mw Inr l1 show ?thesis by (intro exI [of _ "l1 @ l2"]) simp
  qed
qed

lemma logs_thenE [logs_intro]: "logs C m \<Longrightarrow> logs C n \<Longrightarrow> logs C (thenE m n)"
  unfolding thenE_def by (rule logs_bindE)

lemma logs_tryE [logs_intro]: "logs C m \<Longrightarrow> logs C (tryE m)"
  by (simp add: logs_def tryE_def case_prod_unfold)

lemma logs_wrapE [logs_intro]: "logs C m \<Longrightarrow> logs C (wrapE msg m)"
  by (simp add: logs_def wrapE_def case_prod_unfold split: sum.split)

lemma logs_log_io [logs_intro]: "C c \<Longrightarrow> logs C (log_io c m)"
  by (simp add: logs_def log_io_def split: prod.split)

lemma logs_quiet_io [logs_intro]: "logs C (quiet_io m)"
  by (simp add: logs_def quiet_io_def split: prod.split)

lemma logs_getNow [logs_intro]: "logs C (getNow env)"
  by (simp add: logs_def)

lemma logs_get_as [logs_intro]: "C (CGet k) \<Longrightarrow> logs C (get_as p (logged env) k)"
  unfolding get_as_def
  by (rule logs_bindE)
     (auto simp: logged_def logged_client_def intro: logs_intro split: option.split)

lemma logs_Create [logs_intro]: "C (CCreate ob) \<Longrightarrow> logs C (Create (logged env) ob)"
  by (simp add: Create_def logged_def logged_client_def logs_log_io)

lemma logs_Update [logs_intro]: "C (CUpdate ob) \<Longrightarrow> logs C (Update (logged env) ob)"
  by (simp add: Update_def logged_def logged_client_def logs_log_io)

lemma logs_StatusUpdate [logs_intro]: "C (CStatus ob) \<Longrightarrow> logs C (StatusUpdate (logged env) ob)"
  by (simp add: StatusUpdate_def logged_def logged_client_def logs_log_io)

lemma logs_recordEvent [logs_intro]:
  "(\<And>ev. C (CEvent ob ev)) \<Longrightarrow> logs C (recordEvent (logged env) ob ty rs msg)"
  by (simp add: logs_def recordEvent_def logged_def split: option.split)

lemma logs_rand [logs_intro]: "logs C (env_rand (logged env) n)"
  by (simp add: logged_def logs_quiet_io)

text \<open>Runs of the recording operations, for statements about the exact sequence of calls.\<close>

lemma get_as_logged:
  "cl_get (env_client env) k w = (Inr ob, w') \<Longrightarrow> p ob = Some x \<Longrightarrow>
   get_as p (logged env) k (w, l) = (Inr x, (w', l @ [CGet k]))"
  by (simp add: get_as_def logged_def logged_client_def log_io_def bindE_def)

lemma get_as_logged_err:
  "cl_get (env_client env) k w = (Inl e, w') \<Longrightarrow>
   get_as p (logged env) k (w, l) = (Inl e, (w', l @ [CGet k]))"
  by (simp add: get_as_def logged_def logged_client_def log_io_def bindE_def)

lemma Update_logged:
  "Update (logged env) ob (w, l) =
     (case cl_update (env_client env) ob w of (r, w') \<Rightarrow> (r, (w', l @ [CUpdate ob])))"
  by (simp add: Update_def logged_def logged_client_def log_io_def)

lemma Create_logged:
  "Create (logged env) ob (w, l) =
     (case cl_create (env_client env) ob w of (r, w') \<Rightarrow> (r, (w', l @ [CCreate ob])))"
  by (simp add: Create_def logged_def logged_client_def log_io_def)

lemma StatusUpdate_logged:
  "StatusUpdate (logged env) ob (w, l) =
     (case cl_status_update (env_client env) ob w of (r, w') \<Rightarrow> (r, (w', l @ [CStatus ob])))"
  by (simp add: StatusUpdate_def logged_def logged_client_def log_io_def)

lemma recordEvent_logged:
  "\<exists>w' l'. recordEvent (logged env) ob ty rs msg (w, l) = (Inr (), (w', l @ l')) \<and>
     list_all (\<lambda>c. \<exists>ev. c = CEvent ob ev) l'"
  by (cases "env_recorder env") (auto simp: recordEvent_def logged_def)

lemma as_Some_iff [simp]:
  "asBackup ob = Some b \<longleftrightarrow> ob = KBackup b"
  "asCluster ob = Some c \<longleftrightarrow> ob = KCluster c"
  "asUser ob = Some u \<longleftrightarrow> ob = KUser u"
  "asSecret ob = Some s \<longleftrightarrow> ob = KSecret s"
  "asJob ob = Some j \<longleftrightarrow> ob = KJob j"
  by (cases ob; simp)+

text \<open>\<open>emits \<Phi> m w\<close>: the calls \<open>m\<close> makes from \<open>w\<close> satisfy \<open>\<Phi>\<close> as a sequence. The rule for reading
  an object splits into its three outcomes and keeps what the server answered.\<close>

definition emits :: "(call list \<Rightarrow> bool) \<Rightarrow> ('w logw, 'a) io \<Rightarrow> 'w \<Rightarrow> bool" where
  "emits \<Phi> m w \<longleftrightarrow> (\<forall>l. \<exists>l'. snd (snd (m (w, l))) = l @ l' \<and> \<Phi> l')"

lemma emits_calls: "emits \<Phi> m w \<Longrightarrow> \<Phi> (calls m w)"
  unfolding emits_def calls_def by (metis append_Nil)

lemma emits_logs: "logs C m \<Longrightarrow> (\<And>l. list_all C l \<Longrightarrow> \<Phi> l) \<Longrightarrow> emits \<Phi> m w"
  unfolding emits_def logs_def by metis

lemma emits_tryget:
  assumes err: "\<And>e w'. cl_get (env_client env) k w = (Inl e, w') \<Longrightarrow>
      emits (\<lambda>l. \<Phi> (CGet k # l)) (f (Inl e)) w'"
    and dec: "\<And>ob w'. cl_get (env_client env) k w = (Inr ob, w') \<Longrightarrow> p ob = None \<Longrightarrow>
      emits (\<lambda>l. \<Phi> (CGet k # l)) (f (Inl (OtherErr ''decode''))) w'"
    and found: "\<And>ob x w'. cl_get (env_client env) k w = (Inr ob, w') \<Longrightarrow> p ob = Some x \<Longrightarrow>
      emits (\<lambda>l. \<Phi> (CGet k # l)) (f (Inr x)) w'"
  shows "emits \<Phi> (bindE (tryE (get_as p (logged env) k)) f) w"
proof -
  have step: "emits \<Phi> (bindE (tryE (get_as p (logged env) k)) f) w"
    if get: "\<And>l. get_as p (logged env) k (w, l) = (r, (w', l @ [CGet k]))"
      and f: "emits (\<lambda>l. \<Phi> (CGet k # l)) (f r) w'" for r w'
    unfolding emits_def
  proof
    fix l
    from f obtain l' where "snd (snd (f r (w', l @ [CGet k]))) = (l @ [CGet k]) @ l'" "\<Phi> (CGet k # l')"
      unfolding emits_def by blast
    then show "\<exists>l'. snd (snd (bindE (tryE (get_as p (logged env) k)) f (w, l))) = l @ l' \<and> \<Phi> l'"
      using get [of l] by (intro exI [of _ "CGet k # l'"]) simp
  qed
  obtain r w' where g: "cl_get (env_client env) k w = (r, w')" by fastforce
  show ?thesis
  proof (cases r)
    case (Inl e)
    with g err step show ?thesis by (metis get_as_logged_err)
  next
    case (Inr ob)
    show ?thesis
    proof (cases "p ob")
      case None
      have "get_as p (logged env) k (w, l) = (Inl (OtherErr ''decode''), (w', l @ [CGet k]))" for l
        using g Inr None
        by (simp add: get_as_def logged_def logged_client_def log_io_def bindE_def)
      then show ?thesis using dec g Inr None step by blast
    next
      case (Some x)
      with g Inr found step show ?thesis by (metis get_as_logged)
    qed
  qed
qed

lemma logged_sel [simp]:
  "env_setRef (logged env) = env_setRef env" "env_uni (logged env) = env_uni env"
  "env_errtext (logged env) = env_errtext env"
  by (simp_all add: logged_def)

subsection \<open>A server without other writers\<close>

text \<open>
  What the API server stores: \<open>admit\<close> moves a Secret's write-only \<open>StringData\<close> into \<open>Data\<close>,
  \<open>keep_status\<close> is an update (the status of the stored object stays), \<open>put_status\<close> is an
  update of the status subresource (everything else stays). Defaulting and the bookkeeping of
  generation and resource version are not part of the contract.
\<close>

fun admit :: "KObj \<Rightarrow> KObj" where
  "admit (KSecret s) = KSecret (s\<lparr>sec_Data := range_set (sec_Data s) (sec_StringData s), sec_StringData := []\<rparr>)"
| "admit ob = ob"

fun keep_status :: "KObj \<Rightarrow> KObj \<Rightarrow> KObj" where
  "keep_status old (KCluster x) = KCluster (case asCluster old of
     None \<Rightarrow> x | Some y \<Rightarrow> x\<lparr>pgc_Status := pgc_Status y\<rparr>)"
| "keep_status old (KBackup x) = KBackup (case asBackup old of
     None \<Rightarrow> x | Some y \<Rightarrow> x\<lparr>pgb_Status := pgb_Status y\<rparr>)"
| "keep_status old (KUser x) = KUser (case asUser old of
     None \<Rightarrow> x | Some y \<Rightarrow> x\<lparr>pgu_Status := pgu_Status y\<rparr>)"
| "keep_status old (KStatefulSet x) = KStatefulSet (case asStatefulSet old of
     None \<Rightarrow> x | Some y \<Rightarrow> x\<lparr>sts_ReadyReplicas := sts_ReadyReplicas y\<rparr>)"
| "keep_status old (KJob x) = KJob (case asJob old of
     None \<Rightarrow> x | Some y \<Rightarrow> x\<lparr>job_Conditions := job_Conditions y\<rparr>)"
| "keep_status old new = new"

fun put_status :: "KObj \<Rightarrow> KObj \<Rightarrow> KObj" where
  "put_status (KCluster x) new = KCluster (case asCluster new of
     None \<Rightarrow> x | Some y \<Rightarrow> x\<lparr>pgc_Status := pgc_Status y\<rparr>)"
| "put_status (KBackup x) new = KBackup (case asBackup new of
     None \<Rightarrow> x | Some y \<Rightarrow> x\<lparr>pgb_Status := pgb_Status y\<rparr>)"
| "put_status (KUser x) new = KUser (case asUser new of
     None \<Rightarrow> x | Some y \<Rightarrow> x\<lparr>pgu_Status := pgu_Status y\<rparr>)"
| "put_status old new = old"

lemma key_of_admit [simp]: "key_of (admit ob) = key_of ob"
  by (cases ob) (simp_all add: key_of_def)

lemma key_of_keep_status [simp]: "key_of (keep_status old ob) = key_of ob"
  by (cases ob) (simp_all add: key_of_def split: option.split)

text \<open>Every object is stored under its own key.\<close>

definition keyed :: "(Key \<Rightarrow> KObj option) \<Rightarrow> bool" where
  "keyed m \<longleftrightarrow> (\<forall>k ob. m k = Some ob \<longrightarrow> key_of ob = k)"

lemma keyedD: "keyed m \<Longrightarrow> m k = Some ob \<Longrightarrow> key_of ob = k"
  unfolding keyed_def by blast

lemma keyed_upd [simp]: "keyed m \<Longrightarrow> key_of ob = k \<Longrightarrow> keyed (m(k \<mapsto> ob))"
  by (simp add: keyed_def)

text \<open>
  \<open>SetControllerReference\<close> fails on an object that has a controller already, and on one outside the namespace
  of a namespaced owner; \<open>ref_ok\<close> is the case without either.
\<close>

definition ref_ok :: "KObj \<Rightarrow> ObjectMeta \<Rightarrow> bool" where
  "ref_ok ob m \<longleftrightarrow> list_all (\<lambda>r. or_Controller r \<noteq> Some True) (om_OwnerReferences m) \<and>
     (om_Namespace (meta_of ob) = [] \<or> om_Namespace m = om_Namespace (meta_of ob))"

lemma ref_ok_fresh [simp]:
  "om_OwnerReferences m = [] \<Longrightarrow> om_Namespace m = om_Namespace (meta_of ob) \<Longrightarrow> ref_ok ob m"
  by (simp add: ref_ok_def)

locale quiet_env =
  fixes env :: "'w env" and look :: "'w \<Rightarrow> Key \<Rightarrow> KObj option"
  assumes get_law: "cl_get (env_client env) k w =
      ((case look w k of None \<Rightarrow> Inl NotFound | Some ob \<Rightarrow> Inr ob), w)"
    and create_law: "look w (key_of ob) = None \<Longrightarrow>
      \<exists>w'. cl_create (env_client env) ob w = (Inr (), w') \<and> look w' = (look w)(key_of ob \<mapsto> admit ob)"
    and update_law: "look w (key_of ob) = Some old \<Longrightarrow>
      \<exists>w'. cl_update (env_client env) ob w = (Inr (), w') \<and>
           look w' = (look w)(key_of ob \<mapsto> keep_status old ob)"
    and status_law: "look w (key_of ob) = Some old \<Longrightarrow>
      \<exists>w'. cl_status_update (env_client env) ob w = (Inr (put_status old ob), w') \<and>
           look w' = (look w)(key_of ob \<mapsto> put_status old ob)"
    and event_law: "env_recorder env = Some r \<Longrightarrow> look (r ob ev w) = look w"
    and rand_law: "0 < n \<Longrightarrow> \<exists>i w'. env_rand env n w = (Inr i, w') \<and> i < n \<and> look w' = look w"
    and exec_law: "env_exec env = Some x \<Longrightarrow> look (snd (x ns pod cn cmd w)) = look w"
    and setRef_law: "ref_ok ob m \<Longrightarrow> \<exists>refs. env_setRef env ob m = Inr (m\<lparr>om_OwnerReferences := refs\<rparr>)"
begin

lemma get_found:
  "look w k = Some ob \<Longrightarrow> p ob = Some x \<Longrightarrow> get_as p env k w = (Inr x, w)"
  by (simp add: get_as_def run_bindE get_law)

lemma get_absent: "look w k = None \<Longrightarrow> get_as p env k w = (Inl NotFound, w)"
  by (simp add: get_as_def run_bindE get_law)

lemma get_as_kind:
  assumes "keyed (look w)" "\<And>ob. kind_of ob = fst k \<Longrightarrow> p ob \<noteq> None"
  obtains "look w k = None" "get_as p env k w = (Inl NotFound, w)"
  | ob x where "look w k = Some ob" "p ob = Some x" "get_as p env k w = (Inr x, w)"
proof (cases "look w k")
  case None
  with that(1) show ?thesis by (simp add: get_absent)
next
  case (Some ob)
  with assms obtain x where "p ob = Some x" using keyedD [OF assms(1) Some] by (fastforce simp: key_of_def)
  with Some show ?thesis by (intro that(2)) (simp_all add: get_found)
qed

lemma Create_ok:
  assumes "look w (key_of ob) = None"
  obtains w' where "Create env ob w = (Inr (), w')" "look w' = (look w)(key_of ob \<mapsto> admit ob)"
  using create_law [OF assms] by (auto simp: Create_def)

lemma Update_ok:
  assumes "look w (key_of ob) = Some old"
  obtains w' where "Update env ob w = (Inr (), w')"
    "look w' = (look w)(key_of ob \<mapsto> keep_status old ob)"
  using update_law [OF assms] by (auto simp: Update_def)

lemma StatusUpdate_ok:
  assumes "look w (key_of ob) = Some old"
  obtains w' where "StatusUpdate env ob w = (Inr (put_status old ob), w')"
    "look w' = (look w)(key_of ob \<mapsto> put_status old ob)"
  using status_law [OF assms] by (auto simp: StatusUpdate_def)

lemma recordEvent_ok:
  obtains w' where "recordEvent env ob ty rs msg w = (Inr (), w')" "look w' = look w"
  using event_law by (cases "env_recorder env") (auto simp: recordEvent_def)

text \<open>\<open>leaves m w k good\<close>: \<open>m\<close> succeeds from \<open>w\<close>, changes at most the object at \<open>k\<close>, and leaves
  one there that is \<open>good\<close> (given what was there before).\<close>

definition leaves :: "('w, unit) io \<Rightarrow> 'w \<Rightarrow> Key \<Rightarrow> (KObj option \<Rightarrow> KObj \<Rightarrow> bool) \<Rightarrow> bool" where
  "leaves m w k good \<longleftrightarrow> (\<exists>w' ob. m w = (Inr (), w') \<and> look w' = (look w)(k \<mapsto> ob) \<and>
     key_of ob = k \<and> good (look w k) ob)"

lemma leaves_retE: "look w k = Some ob \<Longrightarrow> key_of ob = k \<Longrightarrow> good (Some ob) ob \<Longrightarrow> leaves (retE ()) w k good"
  unfolding leaves_def by (intro exI [of _ w] exI [of _ ob]) (simp add: map_upd_triv)

lemma leaves_Create:
  assumes "look w k = None" "key_of ob = k" "good None (admit ob)"
  shows "leaves (Create env ob) w k good"
  using Create_ok [of w ob] assms by (metis key_of_admit leaves_def)

lemma leaves_Create_event:
  assumes "look w k = None" "key_of ob = k" "good None (admit ob)"
  shows "leaves (thenE (Create env ob) (recordEvent env o2 ty rs msg)) w k good"
proof -
  from assms obtain w1 where w1: "Create env ob w = (Inr (), w1)"
    "look w1 = (look w)(k \<mapsto> admit ob)" using Create_ok [of w ob] by metis
  obtain w2 where "recordEvent env o2 ty rs msg w1 = (Inr (), w2)" "look w2 = look w1"
    by (rule recordEvent_ok)
  with w1 assms show ?thesis by (auto simp: leaves_def)
qed

lemma leaves_Update:
  assumes "look w k = Some old" "key_of ob = k" "good (Some old) (keep_status old ob)"
  shows "leaves (Update env ob) w k good"
  using Update_ok [of w ob old] assms by (metis key_of_keep_status leaves_def)

lemma leaves_first:
  "m w = (Inr a, w1) \<Longrightarrow> look w1 = look w \<Longrightarrow> leaves n w1 k good \<Longrightarrow> leaves (thenE m n) w k good"
  by (simp add: leaves_def)

end

subsection \<open>An in-memory server\<close>

record mem =
  mem_objs :: "(Key, KObj) gomap"
  mem_events :: "(KObj \<times> Event) list"
  mem_clock :: gotime

definition mem_look :: "mem \<Rightarrow> Key \<Rightarrow> KObj option" where
  "mem_look w = map_of (mem_objs w)"

definition mem_put :: "KObj \<Rightarrow> mem \<Rightarrow> mem" where
  "mem_put ob w = w\<lparr>mem_objs := mapset (mem_objs w) (key_of ob) ob\<rparr>"

fun controllerRef :: "KObj \<Rightarrow> OwnerReference" where
  "controllerRef ob = \<lparr>or_APIVersion = ''pg.athos.io/v1alpha1'', or_Kind = ''PostgresCluster'',
     or_Name = om_Name (meta_of ob), or_UID = om_UID (meta_of ob), or_Controller = Some True,
     or_BlockOwnerDeletion = Some True\<rparr>"

definition mem_env :: "mem env" where
  "mem_env =
    \<lparr>env_client =
      \<lparr>cl_get = (\<lambda>k w. ((case mem_look w k of None \<Rightarrow> Inl NotFound | Some ob \<Rightarrow> Inr ob), w)),
       cl_create = (\<lambda>ob w. case mem_look w (key_of ob) of
          None \<Rightarrow> (Inr (), mem_put (admit ob) w) | Some _ \<Rightarrow> (Inl AlreadyExists, w)),
       cl_update = (\<lambda>ob w. case mem_look w (key_of ob) of
          None \<Rightarrow> (Inl NotFound, w) | Some old \<Rightarrow> (Inr (), mem_put (keep_status old ob) w)),
       cl_status_update = (\<lambda>ob w. case mem_look w (key_of ob) of
          None \<Rightarrow> (Inl NotFound, w)
        | Some old \<Rightarrow> (Inr (put_status old ob),
                      w\<lparr>mem_objs := mapset (mem_objs w) (key_of ob) (put_status old ob)\<rparr>))\<rparr>,
     env_setRef = (\<lambda>ob m. if ref_ok ob m then Inr (m\<lparr>om_OwnerReferences := om_OwnerReferences m @ [controllerRef ob]\<rparr>)
        else Inl (OtherErr ''owner'')),
     env_recorder = Some (\<lambda>ob ev w. w\<lparr>mem_events := mem_events w @ [(ob, ev)]\<rparr>),
     env_now = mem_clock,
     env_rand = (\<lambda>n w. (Inr (nat (mem_clock w) mod n), w\<lparr>mem_clock := mem_clock w + 1\<rparr>)),
     env_exec = Some (\<lambda>ns pod cn cmd w. (ExecOk, w)),
     env_errtext = (\<lambda>_. ''error''),
     env_uni = ascii_tab\<rparr>"

interpretation mem: quiet_env mem_env mem_look
  by unfold_locales
     (auto simp: mem_env_def mem_look_def mem_put_def split: option.split)

end
