(* ===== verification/Password.thy ===== *)
theory Password
  imports Kube_Client
begin

section \<open>Passwords and events\<close>

text \<open>
  \<open>internal/password/password.go\<close> over the random source of the environment, and the
  message helpers of \<open>internal/events/events.go\<close> with their hand-written \<open>itoa\<close>.
\<close>

subsection \<open>Passwords\<close>

definition DefaultPasswordLength :: int where [simp]: "DefaultPasswordLength = 32"
definition DefaultAlphabet :: string where
  "DefaultAlphabet = ''abcdefghijklmnopqrstuvwxyzABCDEFGHIJKLMNOPQRSTUVWXYZ0123456789''"
definition MinPasswordLength :: int where [simp]: "MinPasswordLength = 16"
definition MaxPasswordLength :: int where [simp]: "MaxPasswordLength = 128"

record Generator =
  gen_alphabet :: string
  gen_length :: int

definition NewGenerator :: "string \<Rightarrow> int \<Rightarrow> string + Generator" where
  "NewGenerator alphabet len =
     (if len < MinPasswordLength \<or> len > MaxPasswordLength 
      then Inl (''password length '' @ dec len @ '' is outside the allowed range ['' @ dec MinPasswordLength @ '', '' @
             dec MaxPasswordLength @ '']'')
      else if length alphabet = 0 then Inl ''alphabet must not be empty''
      else Inr \<lparr>gen_alphabet = alphabet, gen_length = len\<rparr>)"

definition DefaultGenerator :: Generator where
  "DefaultGenerator = \<lparr>gen_alphabet = DefaultAlphabet, gen_length = DefaultPasswordLength\<rparr>"

text \<open>The loop that fills the buffer; an index outside the alphabet would be a run-time panic.\<close>

fun generate_loop :: "'w env \<Rightarrow> string \<Rightarrow> nat \<Rightarrow> ('w, string) io" where
  "generate_loop env alphabet 0 = retE []"
| "generate_loop env alphabet (Suc k) =
     bindE (wrapE ''generating random byte'' (env_rand env (length alphabet)))
       (\<lambda>n. if n < length alphabet
            then bindE (generate_loop env alphabet k) (\<lambda>s. retE (alphabet ! n # s))
            else failE (OtherErr ''panic: index out of range''))"

definition Generate :: "'w env \<Rightarrow> Generator \<Rightarrow> ('w, string) io" where
  "Generate env g = generate_loop env (gen_alphabet g) (nat (gen_length g))"

lemma generate_loop_result:
  "generate_loop env alphabet k w = (Inr pw, w') \<Longrightarrow> length pw = k \<and> set pw \<subseteq> set alphabet"
proof (induction k arbitrary: w w' pw)
  case (Suc k)
  then obtain n w1 s where "n < length alphabet" "generate_loop env alphabet k w1 = (Inr s, w')"
    "pw = alphabet ! n # s"
    by (auto simp: run_bindE split: prod.splits sum.splits if_splits)
  with Suc.IH show ?case by simp
qed simp

lemma logs_generate [logs_intro]: "logs C (Generate (logged env) g)"
proof -
  have "logs C (generate_loop (logged env) a k)" for a k
    by (induction k) (auto intro!: logs_intro)
  then show ?thesis by (simp add: Generate_def)
qed

text \<open>The rand law of a quiet environment makes generation succeed.\<close>

context quiet_env
begin

lemma generate_loop_ok:
  "alphabet \<noteq> [] \<Longrightarrow> \<exists>pw w'. generate_loop env alphabet k w = (Inr pw, w') \<and> look w' = look w"
proof (induction k arbitrary: w)
  case (Suc k)
  from rand_law [of "length alphabet" w] Suc.prems obtain i w1
    where r: "env_rand env (length alphabet) w = (Inr i, w1)" "i < length alphabet" "look w1 = look w"
    by auto
  from Suc.IH [OF Suc.prems, of w1] obtain pw w2
    where "generate_loop env alphabet k w1 = (Inr pw, w2)" "look w2 = look w1" by blast
  with r show ?case by simp
qed simp

lemma Generate_ok:
  "\<exists>pw w'. Generate env DefaultGenerator w = (Inr pw, w') \<and> look w' = look w"
  unfolding Generate_def by (rule generate_loop_ok) (simp add: DefaultGenerator_def DefaultAlphabet_def)

end

lemma generate_loop_succeeds:
  assumes "\<And>v. \<exists>i v'. env_rand env (length alphabet) v = (Inr i, v') \<and> i < length alphabet"
  shows "\<exists>pw w'. generate_loop env alphabet k w = (Inr pw, w')"
proof (induction k arbitrary: w)
  case (Suc k)
  from assms obtain i w1 where r: "env_rand env (length alphabet) w = (Inr i, w1)" "i < length alphabet" by blast
  from Suc.IH obtain pw w2 where "generate_loop env alphabet k w1 = (Inr pw, w2)" by blast
  with r show ?case by simp
qed simp

text \<open>The generators of the package are those of the two constructors.\<close>

definition constructed :: "Generator \<Rightarrow> bool" where
  "constructed g \<longleftrightarrow> g = DefaultGenerator \<or> (\<exists>alphabet len. NewGenerator alphabet len = Inr g)"

lemma constructed_bounds:
  "constructed g \<Longrightarrow> 16 \<le> gen_length g \<and> gen_length g \<le> 128 \<and> gen_alphabet g \<noteq> []"
  by (auto simp: constructed_def DefaultGenerator_def DefaultAlphabet_def NewGenerator_def split: if_splits)

text \<open>
  C37. A password from a constructed generator has exactly the configured length, which is between 16 and
  128, and only characters of the configured alphabet, whatever the random source does. With any source that
  always answers with a number below its bound, generation succeeds; when the source fails at the first byte, so does it.
\<close>

theorem Generate_password:
  assumes "constructed g"
  shows "(Generate env g w = (Inr pw, w') \<longrightarrow>
      int (length pw) = gen_length g \<and> 16 \<le> length pw \<and> length pw \<le> 128 \<and> set pw \<subseteq> set (gen_alphabet g)) \<and>
    ((\<forall>v. \<exists>i v'. env_rand env (length (gen_alphabet g)) v = (Inr i, v') \<and> i < length (gen_alphabet g)) \<longrightarrow>
      (\<exists>pw w'. Generate env g w = (Inr pw, w'))) \<and>
    (env_rand env (length (gen_alphabet g)) w = (Inl e, w1) \<longrightarrow>
      Generate env g w = (Inl (Wrap ''generating random byte'' e), w1))"
proof -
  note b = constructed_bounds [OF assms]
  then obtain k where "nat (gen_length g) = Suc k" by (cases "nat (gen_length g)") auto
  then have "env_rand env (length (gen_alphabet g)) w = (Inl e, w1) \<Longrightarrow>
      Generate env g w = (Inl (Wrap ''generating random byte'' e), w1)" by (simp add: Generate_def)
  then show ?thesis
    using b generate_loop_result [of env "gen_alphabet g" "nat (gen_length g)" w pw w']
      generate_loop_succeeds [of env "gen_alphabet g" "nat (gen_length g)" w]
    unfolding Generate_def by auto
qed

text \<open>C37 on the in-memory environment, for a PIN of sixteen digits.\<close>

theorem Generate_password_witness:
  "\<exists>pw w'. Generate mem_env \<lparr>gen_alphabet = ''0123456789'', gen_length = 16\<rparr>
      \<lparr>mem_objs = [], mem_events = [], mem_clock = 7\<rparr> = (Inr pw, w') \<and> length pw = 16 \<and> set pw \<subseteq> set ''0123456789''"
proof -
  let ?g = "\<lparr>gen_alphabet = ''0123456789'', gen_length = 16\<rparr>"
  have "NewGenerator ''0123456789'' 16 = Inr ?g" by (simp add: NewGenerator_def)
  then have g: "constructed ?g" unfolding constructed_def by blast
  have r: "\<exists>i v'. env_rand mem_env (length (gen_alphabet ?g)) v = (Inr i, v') \<and> i < length (gen_alphabet ?g)" for v
    by (simp add: mem_env_def)
  let ?w = "\<lparr>mem_objs = [], mem_events = [], mem_clock = 7\<rparr>"
  from Generate_password [OF g, of mem_env ?w] r obtain pw w' where pw: "Generate mem_env ?g ?w = (Inr pw, w')" by blast
  with Generate_password [OF g, of mem_env ?w pw w'] have "length pw = 16" "set pw \<subseteq> set ''0123456789''" by simp_all
  with pw show ?thesis by blast
qed

subsection \<open>Events\<close>

definition EventReasonCreated :: string where "EventReasonCreated = ''Created''"
definition EventReasonUpdated :: string where "EventReasonUpdated = ''Updated''"
definition EventReasonPaused :: string where "EventReasonPaused = ''Paused''"
definition EventTypeNormal :: string where "EventTypeNormal = ''Normal''"
definition EventTypeWarning :: string where "EventTypeWarning = ''Warning''"

definition ReconcileMessage :: "string \<Rightarrow> string \<Rightarrow> string \<Rightarrow> string" where
  "ReconcileMessage kind name action = kind @ '' '' @ name @ '' '' @ action"

function itoa_digits :: "int \<Rightarrow> string" where
  "itoa_digits n =
     (if n > 0 then itoa_digits (n div 10) @ [char_of (nat (48 + n mod 10))] else [])"
  by pat_completeness auto
termination
  by (relation "measure nat") (auto simp: nat_less_eq_zless)

declare itoa_digits.simps [simp del]

text \<open>\<open>n = -n\<close> is 32-bit arithmetic: it leaves the smallest int32 as it is.\<close>

definition itoa :: "int \<Rightarrow> string" where
  "itoa n =
     (if n = 0 then ''0''
      else let neg = n < 0; n' = (if neg then i32 (- n) else n)
           in (if neg then ''-'' else []) @ itoa_digits n')"

definition UpgradeMessage :: "int \<Rightarrow> int \<Rightarrow> string" where
  "UpgradeMessage fromVersion toVersion =
     ''PostgreSQL upgrade from version '' @ itoa fromVersion @ '' to '' @ itoa toVersion"

definition BackupMessage :: "string \<Rightarrow> string" where
  "BackupMessage backupName = ''Backup '' @ backupName"

definition FailoverMessage :: "string \<Rightarrow> string \<Rightarrow> string" where
  "FailoverMessage fromPod toPod = ''Failover from '' @ fromPod @ '' to '' @ toPod"

lemma itoa_digits_dec: "0 < n \<Longrightarrow> itoa_digits n = dec_nat (nat n)"
proof (induction n rule: itoa_digits.induct)
  case (1 n)
  show ?case
  proof (cases "n < 10")
    case True
    with "1.prems" have "n div 10 = 0" "n mod 10 = n" by auto
    with True "1.prems" show ?thesis
      by (simp add: itoa_digits.simps [of n] itoa_digits.simps [of 0] dec_nat.simps [of "nat n"]
          digit_char_def nat_add_distrib)
  next
    case False
    then have "0 < n div 10" by simp
    with "1.IH" "1.prems" have "itoa_digits (n div 10) = dec_nat (nat (n div 10))" by simp
    with False "1.prems" show ?thesis
      by (simp add: itoa_digits.simps [of n] dec_nat.simps [of "nat n"] digit_char_def
          nat_div_distrib nat_mod_distrib nat_add_distrib)
  qed
qed

text \<open>
  \<open>itoa\<close> of the events package prints every int32 as \<open>strconv.Itoa\<close> does, except the
  smallest one, for which it prints a bare minus sign.
\<close>

theorem itoa_correct:
  assumes "is_int32 n"
  shows "itoa n = (if n = - (2 ^ 31) then ''-'' else dec n)"
proof (cases "n = - (2 ^ 31)")
  case True
  have "i32 (2 ^ 31) = - (2 ^ 31)" by (simp add: i32_def)
  with True show ?thesis by (simp add: itoa_def itoa_digits.simps)
next
  case False
  then have "n < 0 \<Longrightarrow> i32 (- n) = - n" using assms by (intro i32_id) (auto simp: is_int32_def)
  with False show ?thesis
    by (auto simp: itoa_def dec_def itoa_digits_dec dec_nat.simps [of 0])
qed

text \<open>Evaluation for minus seventeen and for the smallest int32.\<close>

theorem itoa_correct_witness:
  "itoa (- 17) = dec (- 17) \<and> itoa (- 2147483648) = ''-''"
  using itoa_correct [of "- 17"] itoa_correct [of "- 2147483648"] by (simp add: is_int32_def)

end
