(* ===== verification/Cluster_Controller.thy ===== *)
theory Cluster_Controller
  imports Conditions Postgres_Resources Password
begin

section \<open>The cluster reconciler\<close>

text \<open>
  \<open>internal/controller/postgrescluster_controller.go\<close>. Each method of \<open>PostgresClusterReconciler\<close> is a
  program over the environment, with every call to the API server and to the recorder in the
  order of the source. Logging is left out. Where the source goes on with the object that
  \<open>Status().Update\<close> refreshed, the model goes on with the object the client returned.
\<close>

subsection \<open>Operations\<close>

definition key :: "Kind \<Rightarrow> ObjectMeta \<Rightarrow> Key" where
  "key k m = (k, om_Namespace m, om_Name m)"

text \<open>\<open>controllerutil.SetControllerReference(cluster, desired, r.Scheme)\<close> on the metadata.\<close>

definition setRef :: "'w env \<Rightarrow> KObj \<Rightarrow> ObjectMeta \<Rightarrow> ('w, ObjectMeta) io" where
  "setRef env ow m = (case env_setRef env ow m of Inl e \<Rightarrow> failE e | Inr m' \<Rightarrow> retE m')"

definition reconcileServiceAccount :: "'w env \<Rightarrow> PostgresCluster \<Rightarrow> ('w, unit) io" where
  "reconcileServiceAccount env cluster =
     (if pcs_ServiceAccountName (pgc_Spec cluster) \<noteq> [] then retE ()
      else
       let desired = BuildServiceAccount cluster in
       bindE (setRef env (KCluster cluster) (sa_meta desired)) (\<lambda>m.
       let desired = desired\<lparr>sa_meta := m\<rparr> in
       bindE (tryE (get_as asServiceAccount env (key ServiceAccountKind m))) (\<lambda>r.
       case r of
         Inl e \<Rightarrow> if IsNotFound e then Create env (KServiceAccount desired) else failE e
       | Inr _ \<Rightarrow> retE ())))"

definition reconcileCredentials :: "'w env \<Rightarrow> PostgresCluster \<Rightarrow> ('w, unit) io" where
  "reconcileCredentials env cluster =
     bindE (tryE (get_as asSecret env (SecretKind, om_Namespace (pgc_meta cluster), SecretName cluster))) (\<lambda>r.
     case r of
       Inr _ \<Rightarrow> retE ()
     | Inl e \<Rightarrow>
         if \<not> IsNotFound e then failE e
         else
          bindE (wrapE ''generate password'' (Generate env DefaultGenerator)) (\<lambda>pw.
          let desired = BuildCredentialSecret cluster pw in
          bindE (setRef env (KCluster cluster) (sec_meta desired)) (\<lambda>m.
          let desired = desired\<lparr>sec_meta := m\<rparr> in
          thenE (Create env (KSecret desired))
            (recordEvent env (KCluster cluster) EventTypeNormal EventReasonCreated
               (''Created credentials Secret '' @ Quote (env_uni env) (om_Name m))))))"

definition reconcileConfigMap :: "'w env \<Rightarrow> PostgresCluster \<Rightarrow> ('w, unit) io" where
  "reconcileConfigMap env cluster =
     (let desired = BuildConfigMap cluster in
      bindE (setRef env (KCluster cluster) (cm_meta desired)) (\<lambda>m.
      let desired = desired\<lparr>cm_meta := m\<rparr> in
      bindE (tryE (get_as asConfigMap env (key ConfigMapKind m))) (\<lambda>r.
      case r of
        Inl e \<Rightarrow>
          if IsNotFound e
          then thenE (Create env (KConfigMap desired))
                 (recordEvent env (KCluster cluster) EventTypeNormal EventReasonCreated
                    (''Created ConfigMap '' @ Quote (env_uni env) (om_Name m)))
          else failE e
      | Inr existing \<Rightarrow> Update env (KConfigMap (existing\<lparr>cm_Data := cm_Data desired\<rparr>)))))"

definition scaleEvent :: "'w env \<Rightarrow> PostgresCluster \<Rightarrow> StatefulSet \<Rightarrow> StatefulSet \<Rightarrow> ('w, unit) io" where
  "scaleEvent env cluster existing desired =
     (case (ss_Replicas (sts_Spec existing), ss_Replicas (sts_Spec desired)) of
        (Some a, Some b) \<Rightarrow>
          if a \<noteq> b
          then recordEvent env (KCluster cluster) EventTypeNormal EventReasonUpdated
                 (''Scaling StatefulSet '' @ Quote (env_uni env) (om_Name (sts_meta desired)) @
                  '' from '' @ dec a @ '' to '' @ dec b @ '' replicas'')
          else retE ()
      | _ \<Rightarrow> retE ())"

definition reconcileStatefulSet :: "'w env \<Rightarrow> PostgresCluster \<Rightarrow> ('w, unit) io" where
  "reconcileStatefulSet env cluster =
     (let desired = BuildStatefulSet cluster in
      bindE (setRef env (KCluster cluster) (sts_meta desired)) (\<lambda>m.
      let desired = desired\<lparr>sts_meta := m\<rparr> in
      bindE (tryE (get_as asStatefulSet env (key StatefulSetKind m))) (\<lambda>r.
      case r of
        Inl e \<Rightarrow>
          if IsNotFound e
          then thenE (Create env (KStatefulSet desired))
                 (recordEvent env (KCluster cluster) EventTypeNormal EventReasonCreated
                    (''Created StatefulSet '' @ Quote (env_uni env) (om_Name m) @ '' with '' @
                     dec (pcs_Instances (pgc_Spec cluster)) @ '' replicas''))
          else failE e
      | Inr existing \<Rightarrow>
          thenE (scaleEvent env cluster existing desired)
            (Update env (KStatefulSet (existing\<lparr>sts_Spec := (sts_Spec existing)\<lparr>
               ss_Replicas := ss_Replicas (sts_Spec desired),
               ss_Template := ss_Template (sts_Spec desired)\<rparr>\<rparr>))))))"

definition reconcileService :: "'w env \<Rightarrow> PostgresCluster \<Rightarrow> Service \<Rightarrow> ('w, unit) io" where
  "reconcileService env cluster svc =
     bindE (setRef env (KCluster cluster) (svc_meta svc)) (\<lambda>m.
     let svc = svc\<lparr>svc_meta := m\<rparr> in
     bindE (tryE (get_as asService env (key ServiceKind m))) (\<lambda>r.
     case r of
       Inl e \<Rightarrow> if IsNotFound e then Create env (KService svc) else failE e
     | Inr existing \<Rightarrow>
         Update env (KService (existing\<lparr>svc_Spec := (svc_Spec existing)\<lparr>
           svs_Ports := svs_Ports (svc_Spec svc), svs_Selector := svs_Selector (svc_Spec svc)\<rparr>\<rparr>))))"

fun reconcileServiceList :: "'w env \<Rightarrow> PostgresCluster \<Rightarrow> Service list \<Rightarrow> ('w, unit) io" where
  "reconcileServiceList env cluster [] = retE ()"
| "reconcileServiceList env cluster (svc # svcs) =
     thenE (reconcileService env cluster svc) (reconcileServiceList env cluster svcs)"

definition reconcileServices :: "'w env \<Rightarrow> PostgresCluster \<Rightarrow> ('w, unit) io" where
  "reconcileServices env cluster = reconcileServiceList env cluster
     [BuildHeadlessService cluster, BuildPrimaryService cluster, BuildReplicaService cluster]"

definition clusterPdbSpec :: "PostgresCluster \<Rightarrow> PdbSpec" where
  "clusterPdbSpec cluster = RecommendedFor (cluster_name cluster @ ''-pdb'')
     (om_Namespace (pgc_meta cluster)) (pcs_Instances (pgc_Spec cluster))
     (SelectorLabels cluster) (CommonLabels cluster)"

definition reconcilePDB :: "'w env \<Rightarrow> PostgresCluster \<Rightarrow> ('w, unit) io" where
  "reconcilePDB env cluster =
     (let desired = pdb_Build (clusterPdbSpec cluster) in
      bindE (setRef env (KCluster cluster) (pdb_meta desired)) (\<lambda>m.
      let desired = desired\<lparr>pdb_meta := m\<rparr> in
      bindE (tryE (get_as asPDB env (key PDBKind m))) (\<lambda>r.
      case r of
        Inl e \<Rightarrow>
          if IsNotFound e
          then thenE (Create env (KPDB desired))
                 (recordEvent env (KCluster cluster) EventTypeNormal EventReasonCreated
                    (''Created PodDisruptionBudget '' @ Quote (env_uni env) (om_Name m)))
          else failE e
      | Inr existing \<Rightarrow> Update env (KPDB (existing\<lparr>pdb_Spec := pdb_Spec desired\<rparr>)))))"

text \<open>\<open>setCond\<close> is a call of \<open>postgres.SetClusterCondition\<close> with the time it reads.\<close>

definition setCond ::
  "'w env \<Rightarrow> string \<Rightarrow> string \<Rightarrow> string \<Rightarrow> string \<Rightarrow> PostgresCluster \<Rightarrow> ('w, PostgresCluster) io" where
  "setCond env t st r m cluster =
     bindE (getNow env) (\<lambda>now. retE (SetClusterCondition now t st r m cluster))"

definition setPhase :: "PostgresClusterPhase \<Rightarrow> PostgresCluster \<Rightarrow> PostgresCluster" where
  "setPhase p cluster = cluster\<lparr>pgc_Status := (pgc_Status cluster)\<lparr>pst_Phase := p\<rparr>\<rparr>"

definition readyMessage :: "int \<Rightarrow> int \<Rightarrow> string" where
  "readyMessage ready desired = dec ready @ '' of '' @ dec desired @ '' instances are ready''"

definition setReadiness :: "'w env \<Rightarrow> int \<Rightarrow> PostgresCluster \<Rightarrow> ('w, PostgresCluster) io" where
  "setReadiness env ready cluster =
     (let desired = pcs_Instances (pgc_Spec cluster) in
      if ready = 0 then
        setCond env ConditionReady ConditionFalse ''NoReadyInstances'' ''No instances are ready yet''
          (setPhase PhaseCreating cluster)
      else if ready < desired then
        bindE (setCond env ConditionReady ConditionFalse ''InsufficientInstances''
                 (readyMessage ready desired) (setPhase PhaseDegraded cluster))
          (setCond env ConditionDegraded ConditionTrue ''InsufficientInstances''
                 (readyMessage ready desired))
      else
        bindE (setCond env ConditionReady ConditionTrue ''AllInstancesReady''
                 (''All '' @ dec desired @ '' instances are ready'') (setPhase PhaseRunning cluster))
          (setCond env ConditionDegraded ConditionFalse ''AllInstancesReady''
                 ''Cluster is fully operational''))"

definition finishStatus :: "PostgresCluster \<Rightarrow> PostgresCluster" where
  "finishStatus cluster = cluster\<lparr>pgc_Status := (pgc_Status cluster)\<lparr>
     pst_CurrentPrimary := PodName cluster 0,
     pst_WriteServiceName := PrimaryServiceName cluster,
     pst_ReadServiceName := ReplicaServiceName cluster,
     pst_ObservedGeneration := om_Generation (pgc_meta cluster),
     pst_PostgresVersion := dec (pcs_PostgresVersion (pgc_Spec cluster))\<rparr>\<rparr>"

definition updateStatus :: "'w env \<Rightarrow> PostgresCluster \<Rightarrow> ('w, unit) io" where
  "updateStatus env cluster =
     bindE (tryE (get_as asStatefulSet env (StatefulSetKind, om_Namespace (pgc_meta cluster),
                    ClusterStatefulSetName cluster))) (\<lambda>r.
     let go = (\<lambda>readyReplicas.
           let ready = (if readyReplicas > 0 then readyReplicas else 0);
               cluster = cluster\<lparr>pgc_Status := (pgc_Status cluster)\<lparr>pst_ReadyInstances := ready\<rparr>\<rparr>
           in bindE (setReadiness env ready cluster) (\<lambda>cluster.
              thenE (StatusUpdate env (KCluster (finishStatus cluster))) (retE ())))
     in case r of
          Inl e \<Rightarrow> if \<not> IsNotFound e then failE e else go 0
        | Inr sts \<Rightarrow> go (sts_ReadyReplicas sts))"

text \<open>The steps of \<open>reconcileSubresources\<close>, in order; an error is wrapped with the step's name.\<close>

definition clusterSteps :: "'w env \<Rightarrow> (string \<times> (PostgresCluster \<Rightarrow> ('w, unit) io)) list" where
  "clusterSteps env =
     [(''serviceaccount'', reconcileServiceAccount env),
      (''credentials'', reconcileCredentials env),
      (''configmap'', reconcileConfigMap env),
      (''statefulset'', reconcileStatefulSet env),
      (''services'', reconcileServices env),
      (''pdb'', reconcilePDB env),
      (''status'', updateStatus env)]"

fun runSteps :: "(string \<times> (PostgresCluster \<Rightarrow> ('w, unit) io)) list \<Rightarrow> PostgresCluster \<Rightarrow> ('w, unit) io" where
  "runSteps [] cluster = retE ()"
| "runSteps ((name, fn) # steps) cluster =
     thenE (wrapE (''reconcile '' @ name) (fn cluster)) (runSteps steps cluster)"

definition reconcileSubresources :: "'w env \<Rightarrow> PostgresCluster \<Rightarrow> ('w, unit) io" where
  "reconcileSubresources env cluster = runSteps (clusterSteps env) cluster"

text \<open>\<open>controllerutil\<close>'s finalizer helpers on the metadata.\<close>

definition setFinalizers :: "(string list \<Rightarrow> string list) \<Rightarrow> PostgresCluster \<Rightarrow> PostgresCluster" where
  "setFinalizers f cluster = cluster\<lparr>pgc_meta := (pgc_meta cluster)\<lparr>
     om_Finalizers := f (om_Finalizers (pgc_meta cluster))\<rparr>\<rparr>"

definition reconcileDelete :: "'w env \<Rightarrow> PostgresCluster \<Rightarrow> ('w, Result) io" where
  "reconcileDelete env cluster =
     thenE (Update env (KCluster (setFinalizers (filter (\<lambda>x. x \<noteq> ClusterFinalizer)) cluster)))
       (retE res_done)"

definition reconcilePaused :: "'w env \<Rightarrow> PostgresCluster \<Rightarrow> ('w, Result) io" where
  "reconcilePaused env cluster =
     (if pst_Phase (pgc_Status cluster) \<noteq> PhasePaused then
        bindE (setCond env ConditionProgressing ConditionFalse ''Paused'' ''Reconciliation is suspended''
                 (setPhase PhasePaused cluster)) (\<lambda>cluster.
        bindE (StatusUpdate env (KCluster cluster)) (\<lambda>ob.
        thenE (recordEvent env ob EventTypeWarning EventReasonPaused
                 ''Reconciliation paused via spec.paused'')
          (retE res_done)))
      else retE res_done)"

definition bootstrapStatus :: "'w env \<Rightarrow> PostgresCluster \<Rightarrow> ('w, PostgresCluster) io" where
  "bootstrapStatus env cluster =
     (if pst_Phase (pgc_Status cluster) = [] then
        bindE (setCond env ConditionProgressing ConditionTrue ''Initializing'' ''Cluster is being initialised''
                 (setPhase PhaseInitializing cluster)) (\<lambda>cluster.
        bindE (StatusUpdate env (KCluster cluster)) (\<lambda>ob.
        case asCluster ob of None \<Rightarrow> failE (OtherErr ''decode'') | Some c \<Rightarrow> retE c))
      else retE cluster)"

definition Reconcile_cluster :: "'w env \<Rightarrow> string \<Rightarrow> string \<Rightarrow> ('w, Result) io" where
  "Reconcile_cluster env ns name =
     bindE (tryE (get_as asCluster env (ClusterKind, ns, name))) (\<lambda>r.
     case r of
       Inl e \<Rightarrow> if IsNotFound e then retE res_done else failE e
     | Inr cluster \<Rightarrow>
         if pcs_Paused (pgc_Spec cluster) then reconcilePaused env cluster
         else if ClusterFinalizer \<notin> set (om_Finalizers (pgc_meta cluster)) then
           thenE (Update env (KCluster (setFinalizers (\<lambda>fs. fs @ [ClusterFinalizer]) cluster)))
             (retE res_requeue)
         else if \<not> IsZero (om_DeletionTimestamp (pgc_meta cluster)) then reconcileDelete env cluster
         else
          bindE (bootstrapStatus env cluster) (\<lambda>cluster.
          thenE (reconcileSubresources env cluster) (retE (res_after 30))))"

subsection \<open>Steps on a quiet server\<close>

context quiet_env
begin

lemma setRef_ok:
  assumes "ref_ok ow m"
  obtains refs where "setRef env ow m w = (Inr (m\<lparr>om_OwnerReferences := refs\<rparr>), w)"
  using setRef_law [OF assms] by (auto simp: setRef_def)

text \<open>The shape the get-or-create steps share: set the owner, look the object up, then create it
  or go on with the stored one.\<close>

lemma leaves_ensure:
  assumes w: "keyed (look w)" and k: "k = (kd, om_Namespace m0, om_Name m0)" and ref: "ref_ok ow m0"
    and proj: "\<And>ob. kind_of ob = kd \<Longrightarrow> \<exists>x. proj ob = Some x"
    and missing: "\<And>refs. look w k = None \<Longrightarrow> leaves (onmissing (m0\<lparr>om_OwnerReferences := refs\<rparr>)) w k good"
    and found: "\<And>refs ob x. look w k = Some ob \<Longrightarrow> key_of ob = k \<Longrightarrow> proj ob = Some x \<Longrightarrow>
                  leaves (onfound (m0\<lparr>om_OwnerReferences := refs\<rparr>) x) w k good"
  shows "leaves (bindE (setRef env ow m0) (\<lambda>m. bindE (tryE (get_as proj env (key kd m))) (\<lambda>r.
           case r of Inl e \<Rightarrow> if IsNotFound e then onmissing m else failE e
           | Inr x \<Rightarrow> onfound m x))) w k good"
proof -
  obtain refs where refs: "setRef env ow m0 w = (Inr (m0\<lparr>om_OwnerReferences := refs\<rparr>), w)"
    by (rule setRef_ok [OF ref])
  show ?thesis
  proof (cases "look w k")
    case None
    then have "get_as proj env (key kd (m0\<lparr>om_OwnerReferences := refs\<rparr>)) w = (Inl NotFound, w)"
      by (simp add: key_def k get_absent)
    with refs missing [OF None, of refs] show ?thesis by (simp add: leaves_def)
  next
    case (Some ob)
    then have kob: "key_of ob = k" by (rule keyedD [OF w])
    with k proj obtain x where x: "proj ob = Some x" by (auto simp: key_of_def)
    with Some have "get_as proj env (key kd (m0\<lparr>om_OwnerReferences := refs\<rparr>)) w = (Inr x, w)"
      by (simp add: key_def k get_found)
    with refs found [OF Some kob x, of refs] show ?thesis by (simp add: leaves_def)
  qed
qed

lemma ServiceAccount_step:
  assumes "keyed (look w)" "pcs_ServiceAccountName (pgc_Spec c) = []"
  shows "leaves (reconcileServiceAccount env c) w
           (ServiceAccountKind, om_Namespace (pgc_meta c), ServiceAccountName c) (\<lambda>old ob. True)"
  unfolding reconcileServiceAccount_def Let_def using assms
  by (simp, intro leaves_ensure)
     (auto simp: kind_of_iff BuildServiceAccount_def key_of_def intro!: leaves_Create leaves_retE)

lemma ConfigMap_step:
  assumes "keyed (look w)"
  shows "leaves (reconcileConfigMap env c) w (ConfigMapKind, om_Namespace (pgc_meta c), ConfigMapName c)
           (\<lambda>old ob. \<exists>m. ob = KConfigMap m \<and> cm_Data m = cm_Data (BuildConfigMap c))"
  unfolding reconcileConfigMap_def Let_def using assms
  by (intro leaves_ensure)
     (auto simp: kind_of_iff BuildConfigMap_def Let_def key_of_def
       intro!: leaves_Create_event leaves_Update)

lemma scaleEvent_ok:
  obtains w' where "scaleEvent env c ex d w = (Inr (), w')" "look w' = look w"
proof (cases "\<exists>a b. ss_Replicas (sts_Spec ex) = Some a \<and> ss_Replicas (sts_Spec d) = Some b \<and> a \<noteq> b")
  case True
  then obtain msg where
    "scaleEvent env c ex d = recordEvent env (KCluster c) EventTypeNormal EventReasonUpdated msg"
    by (auto simp: scaleEvent_def)
  moreover obtain w' where
    "recordEvent env (KCluster c) EventTypeNormal EventReasonUpdated msg w = (Inr (), w')"
    "look w' = look w" by (rule recordEvent_ok)
  ultimately show thesis using that by simp
next
  case False
  then have "scaleEvent env c ex d = retE ()"
    by (auto simp: scaleEvent_def split: option.split)
  then show thesis using that [of w] by simp
qed

lemma leaves_event_Update:
  assumes "look w k = Some old" "key_of ob = k" "good (Some old) (keep_status old ob)"
  shows "leaves (thenE (scaleEvent env c ex d) (Update env ob)) w k good"
proof -
  obtain w1 where w1: "scaleEvent env c ex d w = (Inr (), w1)" "look w1 = look w"
    by (rule scaleEvent_ok)
  with assms have "leaves (Update env ob) w1 k good" by (intro leaves_Update [of _ _ old]) simp_all
  with w1 show ?thesis by (rule leaves_first)
qed

lemma StatefulSet_step:
  assumes "keyed (look w)"
  shows "leaves (reconcileStatefulSet env c) w
           (StatefulSetKind, om_Namespace (pgc_meta c), ClusterStatefulSetName c)
           (\<lambda>old ob. \<exists>s. ob = KStatefulSet s \<and> ss_Replicas (sts_Spec s) = Some (pcs_Instances (pgc_Spec c)) \<and>
              ss_Template (sts_Spec s) = ss_Template (sts_Spec (BuildStatefulSet c)) \<and>
              sts_ReadyReplicas s =
                (case old of Some (KStatefulSet s0) \<Rightarrow> sts_ReadyReplicas s0 | _ \<Rightarrow> 0))"
  unfolding reconcileStatefulSet_def Let_def using assms
  by (intro leaves_ensure)
     (auto simp: kind_of_iff BuildStatefulSet_def key_of_def ClusterStatefulSetName_def
       intro!: leaves_Create_event leaves_event_Update)

lemma Service_step:
  assumes "keyed (look w)" "ref_ok (KCluster c) (svc_meta svc)"
  shows "leaves (reconcileService env c svc) w
           (ServiceKind, om_Namespace (svc_meta svc), om_Name (svc_meta svc))
           (\<lambda>old ob. \<exists>s. ob = KService s \<and> svs_Ports (svc_Spec s) = svs_Ports (svc_Spec svc) \<and>
              svs_Selector (svc_Spec s) = svs_Selector (svc_Spec svc))"
  unfolding reconcileService_def Let_def using assms
  by (intro leaves_ensure)
     (auto simp: kind_of_iff key_of_def intro!: leaves_Create leaves_Update)

lemma PDB_step:
  assumes "keyed (look w)"
  shows "leaves (reconcilePDB env c) w
           (PDBKind, om_Namespace (pgc_meta c), cluster_name c @ ''-pdb'')
           (\<lambda>old ob. \<exists>p. ob = KPDB p \<and> pdb_Spec p = pdb_Spec (pdb_Build (clusterPdbSpec c)))"
  unfolding reconcilePDB_def Let_def using assms
  by (intro leaves_ensure)
     (auto simp: kind_of_iff pdb_Build_def clusterPdbSpec_def RecommendedFor_def Let_def key_of_def
       intro!: leaves_Create_event leaves_Update)

end

subsection \<open>What a reconcile leaves behind\<close>

text \<open>The objects of the store match the cluster's spec.\<close>

definition service_matches :: "PostgresCluster \<Rightarrow> (Key \<Rightarrow> KObj option) \<Rightarrow> Service \<Rightarrow> bool" where
  "service_matches c store svc \<longleftrightarrow>
     (\<exists>s. store (ServiceKind, om_Namespace (pgc_meta c), om_Name (svc_meta svc)) = Some (KService s) \<and>
          svs_Ports (svc_Spec s) = svs_Ports (svc_Spec svc) \<and>
          svs_Selector (svc_Spec s) = svs_Selector (svc_Spec svc))"

definition converged :: "PostgresCluster \<Rightarrow> (Key \<Rightarrow> KObj option) \<Rightarrow> bool" where
  "converged c store \<longleftrightarrow>
     (pcs_ServiceAccountName (pgc_Spec c) = [] \<longrightarrow>
        store (ServiceAccountKind, om_Namespace (pgc_meta c), ServiceAccountName c) \<noteq> None) \<and>
     (\<exists>s. store (SecretKind, om_Namespace (pgc_meta c), SecretName c) = Some (KSecret s)) \<and>
     (\<exists>m. store (ConfigMapKind, om_Namespace (pgc_meta c), ConfigMapName c) = Some (KConfigMap m) \<and>
          cm_Data m = cm_Data (BuildConfigMap c)) \<and>
     (\<exists>s. store (StatefulSetKind, om_Namespace (pgc_meta c), cluster_name c) = Some (KStatefulSet s) \<and>
          ss_Replicas (sts_Spec s) = Some (pcs_Instances (pgc_Spec c)) \<and>
          ss_Template (sts_Spec s) = ss_Template (sts_Spec (BuildStatefulSet c))) \<and>
     list_all (service_matches c store)
       [BuildHeadlessService c, BuildPrimaryService c, BuildReplicaService c] \<and>
     (\<exists>p. store (PDBKind, om_Namespace (pgc_meta c), cluster_name c @ ''-pdb'') = Some (KPDB p) \<and>
          pdb_Spec p = pdb_Spec (pdb_Build (clusterPdbSpec c)))"

definition readyIn :: "PostgresCluster \<Rightarrow> (Key \<Rightarrow> KObj option) \<Rightarrow> int" where
  "readyIn c store =
     (case store (StatefulSetKind, om_Namespace (pgc_meta c), cluster_name c) of
        Some (KStatefulSet s) \<Rightarrow> max 0 (sts_ReadyReplicas s) | _ \<Rightarrow> 0)"

definition phaseFor :: "int \<Rightarrow> int \<Rightarrow> PostgresClusterPhase" where
  "phaseFor ready desired =
     (if ready = 0 then PhaseCreating else if ready < desired then PhaseDegraded else PhaseRunning)"

text \<open>The stored cluster has the status of \<open>ready\<close> instances, and is otherwise \<open>c\<close>.\<close>

definition status_reflects :: "PostgresCluster \<Rightarrow> int \<Rightarrow> PostgresCluster \<Rightarrow> bool" where
  "status_reflects c ready c' \<longleftrightarrow>
     pgc_Spec c' = pgc_Spec c \<and> pgc_meta c' = pgc_meta c \<and>
     pst_Phase (pgc_Status c') = phaseFor ready (pcs_Instances (pgc_Spec c)) \<and>
     pst_ReadyInstances (pgc_Status c') = ready \<and>
     pst_CurrentPrimary (pgc_Status c') = PodName c 0 \<and>
     pst_ObservedGeneration (pgc_Status c') = om_Generation (pgc_meta c) \<and>
     (IsTrue (pst_Conditions (pgc_Status c')) ConditionReady \<longleftrightarrow>
        pst_Phase (pgc_Status c') = PhaseRunning)"

text \<open>What is desired depends on the spec and the metadata only.\<close>

lemma desired_status [simp]:
  "ServiceAccountName (c\<lparr>pgc_Status := st\<rparr>) = ServiceAccountName c"
  "BuildServiceAccount (c\<lparr>pgc_Status := st\<rparr>) = BuildServiceAccount c"
  "SecretName (c\<lparr>pgc_Status := st\<rparr>) = SecretName c"
  "ConfigMapName (c\<lparr>pgc_Status := st\<rparr>) = ConfigMapName c"
  "BuildConfigMap (c\<lparr>pgc_Status := st\<rparr>) = BuildConfigMap c"
  "ClusterStatefulSetName (c\<lparr>pgc_Status := st\<rparr>) = ClusterStatefulSetName c"
  "BuildHeadlessService (c\<lparr>pgc_Status := st\<rparr>) = BuildHeadlessService c"
  "BuildPrimaryService (c\<lparr>pgc_Status := st\<rparr>) = BuildPrimaryService c"
  "BuildReplicaService (c\<lparr>pgc_Status := st\<rparr>) = BuildReplicaService c"
  "clusterPdbSpec (c\<lparr>pgc_Status := st\<rparr>) = clusterPdbSpec c"
  "PodName (c\<lparr>pgc_Status := st\<rparr>) n = PodName c n"
  by (simp_all add: ServiceAccountName_def BuildServiceAccount_def SecretName_def ConfigMapName_def
      BuildConfigMap_def ClusterStatefulSetName_def BuildHeadlessService_def BuildPrimaryService_def
      BuildReplicaService_def clusterPdbSpec_def PodName_def CommonLabels_def SelectorLabels_def
      HeadlessServiceName_def PrimaryServiceName_def ReplicaServiceName_def)

lemma BuildStatefulSet_status [simp]: "BuildStatefulSet (c\<lparr>pgc_Status := st\<rparr>) = BuildStatefulSet c"
proof -
  have "clusterContainers (c\<lparr>pgc_Status := st\<rparr>) = clusterContainers c"
    by (simp add: clusterContainers_def pgContainer_def metricsContainer_def split: option.split)
  then show ?thesis
    by (simp add: BuildStatefulSet_def clusterPodSpec_def clusterPVC_def CommonLabels_def
        SelectorLabels_def HeadlessServiceName_def)
qed

lemma status_reflects_base [simp]:
  "status_reflects (c\<lparr>pgc_Status := st\<rparr>) ready c' \<longleftrightarrow> status_reflects c ready c'"
  by (simp add: status_reflects_def)

lemma converged_status [simp]: "converged (c\<lparr>pgc_Status := st\<rparr>) store \<longleftrightarrow> converged c store"
  by (simp add: converged_def service_matches_def)

context quiet_env
begin

lemma Credentials_step:
  assumes "keyed (look w)"
  shows "leaves (reconcileCredentials env c) w (SecretKind, om_Namespace (pgc_meta c), SecretName c)
     (\<lambda>old ob. (\<exists>s. ob = KSecret s) \<and> (old \<noteq> None \<longrightarrow> old = Some ob))"
    (is "leaves ?m w ?k ?good")
proof (cases "look w ?k")
  case (Some ob)
  with keyedD [OF assms Some] obtain s where "ob = KSecret s"
    by (auto simp: key_of_def kind_of_iff)
  moreover from this Some have "?m w = (Inr (), w)"
    by (simp add: reconcileCredentials_def get_found)
  ultimately show ?thesis
    using Some keyedD [OF assms Some] unfolding leaves_def
    by (intro exI [of _ w] exI [of _ ob]) (simp add: map_upd_triv)
next
  case None
  from Generate_ok [of w] obtain pw w1 where w1: "Generate env DefaultGenerator w = (Inr pw, w1)"
    "look w1 = look w" by blast
  let ?d = "BuildCredentialSecret c pw"
  have "ref_ok (KCluster c) (sec_meta ?d)" by (simp add: BuildCredentialSecret_def Let_def)
  then obtain refs where refs: "setRef env (KCluster c) (sec_meta ?d) w1 =
      (Inr ((sec_meta ?d)\<lparr>om_OwnerReferences := refs\<rparr>), w1)" by (rule setRef_ok)
  let ?s = "?d\<lparr>sec_meta := (sec_meta ?d)\<lparr>om_OwnerReferences := refs\<rparr>\<rparr>"
  have "key_of (KSecret ?s) = ?k" by (simp add: key_of_def BuildCredentialSecret_def Let_def)
  then have "leaves (thenE (Create env (KSecret ?s)) (recordEvent env (KCluster c) EventTypeNormal
      EventReasonCreated (''Created credentials Secret '' @ Quote (env_uni env) (om_Name (sec_meta ?s))))) w1 ?k ?good"
    using None w1 by (intro leaves_Create_event) simp_all
  moreover have "?m w = thenE (Create env (KSecret ?s)) (recordEvent env (KCluster c) EventTypeNormal
      EventReasonCreated (''Created credentials Secret '' @ Quote (env_uni env) (om_Name (sec_meta ?s)))) w1"
    using None w1 refs by (simp add: reconcileCredentials_def get_absent Let_def)
  ultimately show ?thesis using w1 by (simp add: leaves_def)
qed

end

lemma IsTrue_SetClusterCondition:
  "IsTrue (pst_Conditions (pgc_Status (SetClusterCondition now t st r m c))) t' \<longleftrightarrow>
     (if t' = t then st = ConditionTrue else IsTrue (pst_Conditions (pgc_Status c)) t')"
  by (simp add: IsTrue_def Find_SetClusterCondition)

lemma setPhase_sel [simp]:
  "pgc_Spec (setPhase p c) = pgc_Spec c" "pgc_meta (setPhase p c) = pgc_meta c"
  "pst_Phase (pgc_Status (setPhase p c)) = p"
  "pst_ReadyInstances (pgc_Status (setPhase p c)) = pst_ReadyInstances (pgc_Status c)"
  by (simp_all add: setPhase_def)

lemma finishStatus_sel [simp]:
  "pgc_Spec (finishStatus c) = pgc_Spec c" "pgc_meta (finishStatus c) = pgc_meta c"
  "pst_Phase (pgc_Status (finishStatus c)) = pst_Phase (pgc_Status c)"
  "pst_ReadyInstances (pgc_Status (finishStatus c)) = pst_ReadyInstances (pgc_Status c)"
  "pst_Conditions (pgc_Status (finishStatus c)) = pst_Conditions (pgc_Status c)"
  "pst_CurrentPrimary (pgc_Status (finishStatus c)) = PodName c 0"
  "pst_ObservedGeneration (pgc_Status (finishStatus c)) = om_Generation (pgc_meta c)"
  by (simp_all add: finishStatus_def)

lemma setCond_run [simp]:
  "setCond env t st r m c w = (Inr (SetClusterCondition (env_now env w) t st r m c), w)"
  by (simp add: setCond_def)

lemma readyIn_nonneg: "0 \<le> readyIn c store"
  by (simp add: readyIn_def split: option.split KObj.split)

text \<open>The three branches of the readiness switch, for any environment.\<close>

lemma setReadiness_run:
  assumes "pst_ReadyInstances (pgc_Status c) = ready" "0 \<le> ready"
  shows "\<exists>c'. setReadiness env ready c w = (Inr c', w) \<and> status_reflects c ready (finishStatus c')"
proof -
  have "\<exists>c'. setReadiness env ready c w = (Inr c', w) \<and> pgc_Spec c' = pgc_Spec c \<and>
      pgc_meta c' = pgc_meta c \<and> pst_ReadyInstances (pgc_Status c') = ready \<and>
      pst_Phase (pgc_Status c') = phaseFor ready (pcs_Instances (pgc_Spec c)) \<and>
      (IsTrue (pst_Conditions (pgc_Status c')) ConditionReady \<longleftrightarrow> pst_Phase (pgc_Status c') = PhaseRunning)"
    using assms by (simp add: setReadiness_def Let_def phaseFor_def IsTrue_SetClusterCondition)
  then show ?thesis by (fastforce simp: status_reflects_def PodName_def)
qed

context quiet_env
begin

lemma Status_step:
  assumes "keyed (look w)"
    and c0: "look w (ClusterKind, om_Namespace (pgc_meta c), cluster_name c) = Some (KCluster c0)"
    and eq: "c0 = c\<lparr>pgc_Status := st\<rparr>"
  shows "leaves (updateStatus env c) w (ClusterKind, om_Namespace (pgc_meta c), cluster_name c)
     (\<lambda>old ob. \<exists>c'. ob = KCluster c' \<and> status_reflects c (readyIn c (look w)) c')"
    (is "leaves ?m w ?k ?good")
proof -
  let ?ready = "readyIn c (look w)"
  let ?c1 = "c\<lparr>pgc_Status := (pgc_Status c)\<lparr>pst_ReadyInstances := ?ready\<rparr>\<rparr>"
  obtain c2 where c2: "setReadiness env ?ready ?c1 w = (Inr c2, w)"
    "status_reflects ?c1 ?ready (finishStatus c2)"
    using setReadiness_run [of ?c1 ?ready env w] readyIn_nonneg by auto
  let ?new = "KCluster (finishStatus c2)"
  have kn: "key_of ?new = ?k" using c2(2) by (simp add: status_reflects_def key_of_def)
  with c0 have "look w (key_of ?new) = Some (KCluster c0)" by simp
  then obtain w' where w': "StatusUpdate env ?new w = (Inr (put_status (KCluster c0) ?new), w')"
    "look w' = (look w)(key_of ?new \<mapsto> put_status (KCluster c0) ?new)" by (rule StatusUpdate_ok)
  have "status_reflects c ?ready (c0\<lparr>pgc_Status := pgc_Status (finishStatus c2)\<rparr>)"
    using c2(2) eq by (simp add: status_reflects_def)
  moreover have "?m w = (Inr (), w')"
  proof (cases "look w (StatefulSetKind, om_Namespace (pgc_meta c), ClusterStatefulSetName c)")
    case None
    then show ?thesis using c2 w'
      by (simp add: updateStatus_def get_absent readyIn_def ClusterStatefulSetName_def)
  next
    case (Some ob)
    with keyedD [OF assms(1) Some] obtain s where "ob = KStatefulSet s"
      by (auto simp: key_of_def kind_of_iff)
    moreover from this Some have "(if sts_ReadyReplicas s > 0 then sts_ReadyReplicas s else 0) = ?ready"
      by (simp add: readyIn_def ClusterStatefulSetName_def)
    ultimately show ?thesis using Some c2 w'
      by (simp add: updateStatus_def get_found ClusterStatefulSetName_def Let_def)
  qed
  ultimately show ?thesis using w' kn unfolding leaves_def
    by (intro exI [of _ w'] exI [of _ "put_status (KCluster c0) ?new"]) (simp add: key_of_def eq)
qed

end

definition owned_keys :: "PostgresCluster \<Rightarrow> Key set" where
  "owned_keys c = (let ns = om_Namespace (pgc_meta c) in
     {(ServiceAccountKind, ns, ServiceAccountName c), (SecretKind, ns, SecretName c),
      (ConfigMapKind, ns, ConfigMapName c), (StatefulSetKind, ns, cluster_name c),
      (ServiceKind, ns, HeadlessServiceName c), (ServiceKind, ns, PrimaryServiceName c),
      (ServiceKind, ns, ReplicaServiceName c), (PDBKind, ns, cluster_name c @ ''-pdb''),
      (ClusterKind, ns, cluster_name c)})"

context quiet_env
begin

lemma ServiceAccount_run:
  assumes "keyed (look w)"
  shows "\<exists>w'. reconcileServiceAccount env c w = (Inr (), w') \<and> keyed (look w') \<and>
    (\<forall>k. k \<noteq> (ServiceAccountKind, om_Namespace (pgc_meta c), ServiceAccountName c) \<longrightarrow> look w' k = look w k) \<and>
    (pcs_ServiceAccountName (pgc_Spec c) = [] \<longrightarrow>
       look w' (ServiceAccountKind, om_Namespace (pgc_meta c), ServiceAccountName c) \<noteq> None)"
proof (cases "pcs_ServiceAccountName (pgc_Spec c) = []")
  case True
  from ServiceAccount_step [OF assms True] obtain w' ob where
    "reconcileServiceAccount env c w = (Inr (), w')"
    "look w' = (look w)((ServiceAccountKind, om_Namespace (pgc_meta c), ServiceAccountName c) \<mapsto> ob)"
    "key_of ob = (ServiceAccountKind, om_Namespace (pgc_meta c), ServiceAccountName c)"
    unfolding leaves_def by blast
  with assms show ?thesis by (intro exI [of _ w']) simp
next
  case False
  with assms show ?thesis by (simp add: reconcileServiceAccount_def)
qed

lemma Services_run:
  assumes "keyed (look w)"
  shows "\<exists>w' a b d. reconcileServices env c w = (Inr (), w') \<and> keyed (look w') \<and>
    look w' = (look w)((ServiceKind, om_Namespace (pgc_meta c), HeadlessServiceName c) \<mapsto> KService a,
                       (ServiceKind, om_Namespace (pgc_meta c), PrimaryServiceName c) \<mapsto> KService b,
                       (ServiceKind, om_Namespace (pgc_meta c), ReplicaServiceName c) \<mapsto> KService d) \<and>
    list_all (service_matches c (look w'))
       [BuildHeadlessService c, BuildPrimaryService c, BuildReplicaService c]"
proof -
  let ?h = "BuildHeadlessService c" and ?p = "BuildPrimaryService c" and ?r = "BuildReplicaService c"
  have ref: "ref_ok (KCluster c) (svc_meta ?h)" "ref_ok (KCluster c) (svc_meta ?p)" "ref_ok (KCluster c) (svc_meta ?r)"
    by (simp_all add: BuildHeadlessService_def BuildPrimaryService_def BuildReplicaService_def)
  from Service_step [OF assms ref(1)] obtain w1 a where 1: "reconcileService env c ?h w = (Inr (), w1)"
    "look w1 = (look w)((ServiceKind, om_Namespace (pgc_meta c), HeadlessServiceName c) \<mapsto> KService a)"
    "svs_Ports (svc_Spec a) = svs_Ports (svc_Spec ?h)" "svs_Selector (svc_Spec a) = svs_Selector (svc_Spec ?h)"
    "keyed (look w1)"
    using assms by (auto simp: leaves_def)
  from Service_step [OF 1(5) ref(2)] obtain w2 b where 2: "reconcileService env c ?p w1 = (Inr (), w2)"
    "look w2 = (look w1)((ServiceKind, om_Namespace (pgc_meta c), PrimaryServiceName c) \<mapsto> KService b)"
    "svs_Ports (svc_Spec b) = svs_Ports (svc_Spec ?p)" "svs_Selector (svc_Spec b) = svs_Selector (svc_Spec ?p)"
    "keyed (look w2)"
    using 1(5) by (auto simp: leaves_def)
  from Service_step [OF 2(5) ref(3)] obtain w3 d where 3: "reconcileService env c ?r w2 = (Inr (), w3)"
    "look w3 = (look w2)((ServiceKind, om_Namespace (pgc_meta c), ReplicaServiceName c) \<mapsto> KService d)"
    "svs_Ports (svc_Spec d) = svs_Ports (svc_Spec ?r)" "svs_Selector (svc_Spec d) = svs_Selector (svc_Spec ?r)"
    "keyed (look w3)"
    using 2(5) by (auto simp: leaves_def)
  have "reconcileServices env c w = (Inr (), w3)"
    using 1(1) 2(1) 3(1) by (simp add: reconcileServices_def)
  moreover have "list_all (service_matches c (look w3)) [?h, ?p, ?r]"
    using 1 2 3 service_names_distinct [of c] by (auto simp: service_matches_def)
  ultimately show ?thesis using 1(2) 2(2) 3(2,5) by (intro exI [of _ w3] exI [of _ a] exI [of _ b] exI [of _ d]) simp
qed

text \<open>All steps in a row.\<close>

lemma Subresources_run:
  assumes keyed: "keyed (look w)"
    and c0: "look w (ClusterKind, om_Namespace (pgc_meta c), cluster_name c) = Some (KCluster c0)"
      "c0 = c\<lparr>pgc_Status := st\<rparr>"
  shows "\<exists>w'. reconcileSubresources env c w = (Inr (), w') \<and> keyed (look w') \<and> converged c (look w') \<and>
    (\<exists>c'. look w' (ClusterKind, om_Namespace (pgc_meta c), cluster_name c) = Some (KCluster c') \<and>
          status_reflects c (readyIn c (look w)) c') \<and>
    (look w (SecretKind, om_Namespace (pgc_meta c), SecretName c) \<noteq> None \<longrightarrow>
       look w' (SecretKind, om_Namespace (pgc_meta c), SecretName c) =
       look w (SecretKind, om_Namespace (pgc_meta c), SecretName c)) \<and>
    (\<forall>k. k \<notin> owned_keys c \<longrightarrow> look w' k = look w k)"
proof -
  let ?ns = "om_Namespace (pgc_meta c)"
  from ServiceAccount_run [OF keyed, of c] obtain w1 where 1: "reconcileServiceAccount env c w = (Inr (), w1)"
    "keyed (look w1)" "\<And>k. k \<noteq> (ServiceAccountKind, ?ns, ServiceAccountName c) \<Longrightarrow> look w1 k = look w k"
    "pcs_ServiceAccountName (pgc_Spec c) = [] \<Longrightarrow> look w1 (ServiceAccountKind, ?ns, ServiceAccountName c) \<noteq> None"
    by blast
  from Credentials_step [OF 1(2), of c] obtain w2 sec where 2: "reconcileCredentials env c w1 = (Inr (), w2)"
    "look w2 = (look w1)((SecretKind, ?ns, SecretName c) \<mapsto> KSecret sec)" "keyed (look w2)"
    "look w1 (SecretKind, ?ns, SecretName c) \<noteq> None \<Longrightarrow> look w1 (SecretKind, ?ns, SecretName c) = Some (KSecret sec)"
    using 1(2) by (auto simp: leaves_def)
  from ConfigMap_step [OF 2(3), of c] obtain w3 cm where 3: "reconcileConfigMap env c w2 = (Inr (), w3)"
    "look w3 = (look w2)((ConfigMapKind, ?ns, ConfigMapName c) \<mapsto> KConfigMap cm)" "keyed (look w3)"
    "cm_Data cm = cm_Data (BuildConfigMap c)"
    using 2(3) by (auto simp: leaves_def)
  from StatefulSet_step [OF 3(3), of c] obtain w4 sts where 4: "reconcileStatefulSet env c w3 = (Inr (), w4)"
    "look w4 = (look w3)((StatefulSetKind, ?ns, cluster_name c) \<mapsto> KStatefulSet sts)" "keyed (look w4)"
    "ss_Replicas (sts_Spec sts) = Some (pcs_Instances (pgc_Spec c))"
    "ss_Template (sts_Spec sts) = ss_Template (sts_Spec (BuildStatefulSet c))"
    "sts_ReadyReplicas sts = (case look w3 (StatefulSetKind, ?ns, cluster_name c) of
       Some (KStatefulSet s0) \<Rightarrow> sts_ReadyReplicas s0 | _ \<Rightarrow> 0)"
    using 3(3) by (auto simp: leaves_def ClusterStatefulSetName_def)
  from Services_run [OF 4(3), of c] obtain w5 a b d where 5: "reconcileServices env c w4 = (Inr (), w5)"
    "keyed (look w5)" "look w5 = (look w4)((ServiceKind, ?ns, HeadlessServiceName c) \<mapsto> KService a,
       (ServiceKind, ?ns, PrimaryServiceName c) \<mapsto> KService b, (ServiceKind, ?ns, ReplicaServiceName c) \<mapsto> KService d)"
    "list_all (service_matches c (look w5)) [BuildHeadlessService c, BuildPrimaryService c, BuildReplicaService c]"
    by blast
  from PDB_step [OF 5(2), of c] obtain w6 pdb where 6: "reconcilePDB env c w5 = (Inr (), w6)"
    "look w6 = (look w5)((PDBKind, ?ns, cluster_name c @ ''-pdb'') \<mapsto> KPDB pdb)" "keyed (look w6)"
    "pdb_Spec pdb = pdb_Spec (pdb_Build (clusterPdbSpec c))"
    using 5(2) by (auto simp: leaves_def)
  have "look w6 (ClusterKind, ?ns, cluster_name c) = Some (KCluster c0)"
    using c0(1) 1(3) by (simp add: 2 3 4 5 6)
  from Status_step [OF 6(3) this c0(2)] obtain w7 c' where 7: "updateStatus env c w6 = (Inr (), w7)"
    "look w7 = (look w6)((ClusterKind, ?ns, cluster_name c) \<mapsto> KCluster c')" "keyed (look w7)"
    "status_reflects c (readyIn c (look w6)) c'"
    using 6(3) by (auto simp: leaves_def)
  have run: "reconcileSubresources env c w = (Inr (), w7)"
    using 1(1) 2(1) 3(1) 4(1) 5(1) 6(1) 7(1)
    by (simp add: reconcileSubresources_def clusterSteps_def)
  have ready: "readyIn c (look w6) = readyIn c (look w)"
    using 1(3) 4(6) by (simp add: readyIn_def 2 3 4(2) 5 6 split: option.splits KObj.splits)
  note looks = 2(2) 3(2) 4(2) 5(3) 6(2) 7(2)
  have conv: "converged c (look w7)"
    using 1(4) 3(4) 4(4,5) 5(4) 6(4) by (simp add: converged_def service_matches_def looks)
  have frame: "look w7 k = look w k" if "k \<notin> owned_keys c" for k
    using that 1(3) by (auto simp: owned_keys_def Let_def looks)
  have secret: "look w (SecretKind, ?ns, SecretName c) \<noteq> None \<longrightarrow>
      look w7 (SecretKind, ?ns, SecretName c) = look w (SecretKind, ?ns, SecretName c)"
    using 2(4) 1(3) by (simp add: looks)
  show ?thesis
    using run 7(3,4) conv frame secret ready
    by (intro exI [of _ w7]) (simp add: 7(2))
qed

end

subsection \<open>The whole reconcile on a quiet server\<close>

context quiet_env
begin

lemma Bootstrap_run:
  assumes "keyed (look w)" "look w (ClusterKind, om_Namespace (pgc_meta c), cluster_name c) = Some (KCluster c)"
  shows "\<exists>w' st. bootstrapStatus env c w = (Inr (c\<lparr>pgc_Status := st\<rparr>), w') \<and>
    look w' = (look w)((ClusterKind, om_Namespace (pgc_meta c), cluster_name c) \<mapsto> KCluster (c\<lparr>pgc_Status := st\<rparr>))"
proof (cases "pst_Phase (pgc_Status c) = []")
  case True
  let ?c = "SetClusterCondition (env_now env w) ConditionProgressing ConditionTrue ''Initializing''
      ''Cluster is being initialised'' (setPhase PhaseInitializing c)"
  have "key_of (KCluster ?c) = (ClusterKind, om_Namespace (pgc_meta c), cluster_name c)"
    by (simp add: key_of_def)
  moreover from this assms(2) have "look w (key_of (KCluster ?c)) = Some (KCluster c)" by simp
  then obtain w' where "StatusUpdate env (KCluster ?c) w = (Inr (put_status (KCluster c) (KCluster ?c)), w')"
    "look w' = (look w)(key_of (KCluster ?c) \<mapsto> put_status (KCluster c) (KCluster ?c))"
    by (rule StatusUpdate_ok)
  ultimately show ?thesis using True
    by (intro exI [of _ w'] exI [of _ "pgc_Status ?c"]) (simp add: bootstrapStatus_def)
next
  case False
  with assms(2) show ?thesis
    by (intro exI [of _ w] exI [of _ "pgc_Status c"]) (simp add: bootstrapStatus_def map_upd_triv)
qed

lemma Reconcile_run:
  assumes keyed: "keyed (look w)" and c: "look w (ClusterKind, ns, n) = Some (KCluster c)"
    and active: "\<not> pcs_Paused (pgc_Spec c)" "ClusterFinalizer \<in> set (om_Finalizers (pgc_meta c))"
      "IsZero (om_DeletionTimestamp (pgc_meta c))"
  shows "\<exists>w'. Reconcile_cluster env ns n w = (Inr (res_after 30), w') \<and> keyed (look w') \<and>
    converged c (look w') \<and>
    (\<exists>c'. look w' (ClusterKind, ns, n) = Some (KCluster c') \<and> status_reflects c (readyIn c (look w)) c') \<and>
    (look w (SecretKind, ns, SecretName c) \<noteq> None \<longrightarrow>
       look w' (SecretKind, ns, SecretName c) = look w (SecretKind, ns, SecretName c)) \<and>
    (\<forall>k. k \<notin> owned_keys c \<longrightarrow> look w' k = look w k)"
proof -
  from keyedD [OF keyed c] have ns: "om_Namespace (pgc_meta c) = ns" "cluster_name c = n"
    by (simp_all add: key_of_def)
  from Bootstrap_run [OF keyed, of c] c ns obtain w1 st where
    1: "bootstrapStatus env c w = (Inr (c\<lparr>pgc_Status := st\<rparr>), w1)"
       "look w1 = (look w)((ClusterKind, ns, n) \<mapsto> KCluster (c\<lparr>pgc_Status := st\<rparr>))" by auto
  let ?c = "c\<lparr>pgc_Status := st\<rparr>"
  have k1: "keyed (look w1)" using keyed ns by (simp add: 1(2) key_of_def)
  have "look w1 (ClusterKind, om_Namespace (pgc_meta ?c), cluster_name ?c) = Some (KCluster ?c)"
    by (simp add: 1(2) ns)
  from Subresources_run [OF k1 this, of st] obtain w2 where
    2: "reconcileSubresources env ?c w1 = (Inr (), w2)" "keyed (look w2)" "converged c (look w2)"
       "\<exists>c'. look w2 (ClusterKind, ns, n) = Some (KCluster c') \<and> status_reflects c (readyIn ?c (look w1)) c'"
       "look w1 (SecretKind, ns, SecretName c) \<noteq> None \<longrightarrow>
          look w2 (SecretKind, ns, SecretName c) = look w1 (SecretKind, ns, SecretName c)"
       "\<forall>k. k \<notin> owned_keys ?c \<longrightarrow> look w2 k = look w1 k"
    by (auto simp: ns)
  have own: "owned_keys ?c = owned_keys c"
    by (simp add: owned_keys_def HeadlessServiceName_def PrimaryServiceName_def ReplicaServiceName_def)
  have "readyIn ?c (look w1) = readyIn c (look w)" by (simp add: readyIn_def 1(2))
  moreover have "Reconcile_cluster env ns n w = (Inr (res_after 30), w2)"
    using active c 1(1) 2(1) by (simp add: Reconcile_cluster_def get_found)
  moreover have "look w2 k = look w k" if "k \<notin> owned_keys c" for k
  proof -
    from that 2(6) own have "look w2 k = look w1 k" by blast
    moreover from that ns have "k \<noteq> (ClusterKind, ns, n)" by (auto simp: owned_keys_def Let_def)
    ultimately show ?thesis by (simp add: 1(2))
  qed
  ultimately show ?thesis using 2 by (intro exI [of _ w2]) (simp add: 1(2))
qed

text \<open>A cluster without the finalizer first gets it, and nothing else changes.\<close>

lemma Reconcile_adds_finalizer:
  assumes keyed: "keyed (look w)" and c: "look w (ClusterKind, ns, n) = Some (KCluster c)"
    and "\<not> pcs_Paused (pgc_Spec c)" "ClusterFinalizer \<notin> set (om_Finalizers (pgc_meta c))"
  shows "\<exists>w'. Reconcile_cluster env ns n w = (Inr res_requeue, w') \<and> keyed (look w') \<and>
    look w' = (look w)((ClusterKind, ns, n) \<mapsto>
      KCluster (setFinalizers (\<lambda>fs. fs @ [ClusterFinalizer]) c))"
proof -
  let ?c = "setFinalizers (\<lambda>fs. fs @ [ClusterFinalizer]) c"
  from keyedD [OF keyed c] have k: "key_of (KCluster ?c) = (ClusterKind, ns, n)"
    by (simp add: key_of_def setFinalizers_def)
  with c have "look w (key_of (KCluster ?c)) = Some (KCluster c)" by simp
  then obtain w' where "Update env (KCluster ?c) w = (Inr (), w')"
    "look w' = (look w)(key_of (KCluster ?c) \<mapsto> keep_status (KCluster c) (KCluster ?c))" by (rule Update_ok)
  moreover have "keep_status (KCluster c) (KCluster ?c) = KCluster ?c" by (simp add: setFinalizers_def)
  ultimately show ?thesis using assms k
    by (intro exI [of _ w']) (simp add: Reconcile_cluster_def get_found)
qed

end

subsection \<open>Which calls a reconcile makes\<close>

definition cluster_call :: "call \<Rightarrow> bool" where
  "cluster_call call \<longleftrightarrow> (case call of
     CGet _ \<Rightarrow> True
   | CCreate ob \<Rightarrow> kind_of ob \<in> {ServiceAccountKind, SecretKind, ConfigMapKind, StatefulSetKind, ServiceKind, PDBKind}
   | CUpdate ob \<Rightarrow> kind_of ob \<in> {ClusterKind, ConfigMapKind, StatefulSetKind, ServiceKind, PDBKind}
   | CStatus ob \<Rightarrow> kind_of ob = ClusterKind
   | CEvent _ _ \<Rightarrow> True
   | CExec _ _ _ _ \<Rightarrow> False)"

lemma logs_setRef [logs_intro]: "logs C (setRef env ow m)"
  by (simp add: setRef_def logs_intro split: sum.split)

lemma logs_setCond [logs_intro]: "logs C (setCond env t st r m c)"
  by (simp add: logs_def)

lemma logs_if [logs_intro]: "logs C m \<Longrightarrow> logs C n \<Longrightarrow> logs C (if b then m else n)"
  by simp

lemma logs_sum [logs_intro]:
  "(\<And>e. logs C (f e)) \<Longrightarrow> (\<And>a. logs C (g a)) \<Longrightarrow> logs C (case r of Inl e \<Rightarrow> f e | Inr a \<Rightarrow> g a)"
  by (simp split: sum.split)

lemma logs_option [logs_intro]:
  "logs C m \<Longrightarrow> (\<And>a. logs C (f a)) \<Longrightarrow> logs C (case x of None \<Rightarrow> m | Some a \<Rightarrow> f a)"
  by (simp split: option.split)

lemma logs_scaleEvent [logs_intro]:
  "(\<And>ob ev. C (CEvent ob ev)) \<Longrightarrow> logs C (scaleEvent (logged env) c ex d)"
  by (auto simp: scaleEvent_def intro!: logs_intro split: option.split)

lemma logs_steps:
  "logs cluster_call (reconcileServiceAccount (logged env) c)"
  "logs cluster_call (reconcileCredentials (logged env) c)"
  "logs cluster_call (reconcileConfigMap (logged env) c)"
  "logs cluster_call (reconcileStatefulSet (logged env) c)"
  "logs cluster_call (reconcileService (logged env) c svc)"
  "logs cluster_call (reconcilePDB (logged env) c)"
  "logs cluster_call (updateStatus (logged env) c)"
  unfolding reconcileServiceAccount_def reconcileCredentials_def reconcileConfigMap_def
    reconcileStatefulSet_def reconcileService_def reconcilePDB_def updateStatus_def
    setReadiness_def Let_def
  by (intro logs_intro; simp add: cluster_call_def)+

lemma logs_Subresources: "logs cluster_call (reconcileSubresources (logged env) c)"
  unfolding reconcileSubresources_def clusterSteps_def runSteps.simps reconcileServices_def
    reconcileServiceList.simps
  by (intro logs_intro logs_steps)

subsection \<open>Properties\<close>

text \<open>
  C29. Whatever the API server answers and whoever else writes to it, a reconcile of a cluster only
  makes calls of these kinds: it creates ServiceAccounts, Secrets, ConfigMaps, StatefulSets,
  Services and budgets, updates clusters, ConfigMaps, StatefulSets, Services and budgets, and writes the
  status of clusters. In particular an existing Secret (a rotated password) or
  ServiceAccount is never overwritten.
\<close>

theorem Reconcile_cluster_calls:
  "list_all cluster_call (calls (Reconcile_cluster (logged env) ns n) w)"
proof (rule logs_calls)
  show "logs cluster_call (Reconcile_cluster (logged env) ns n)"
    unfolding Reconcile_cluster_def reconcilePaused_def reconcileDelete_def bootstrapStatus_def
    by (intro logs_intro logs_Subresources; simp add: cluster_call_def)
qed

text \<open>
  C1. Convergence. On a server without other writers, the reconcile of an active cluster (not paused, with
  the finalizer, not being deleted) succeeds, asks to be run again in 30 seconds, leaves every
  owned object matching the spec and the status reflecting the ready replicas, keeps an existing
  credentials Secret, and changes nothing outside the objects the cluster owns.
\<close>

theorem Reconcile_cluster_converges:
  assumes "quiet_env env look" "keyed (look w)" "look w (ClusterKind, ns, n) = Some (KCluster c)"
    and "\<not> pcs_Paused (pgc_Spec c)" "ClusterFinalizer \<in> set (om_Finalizers (pgc_meta c))"
    and "IsZero (om_DeletionTimestamp (pgc_meta c))"
  shows "\<exists>w'. Reconcile_cluster env ns n w = (Inr (res_after 30), w') \<and>
    converged c (look w') \<and>
    (\<exists>c'. look w' (ClusterKind, ns, n) = Some (KCluster c') \<and> status_reflects c (readyIn c (look w)) c') \<and>
    (look w (SecretKind, ns, SecretName c) \<noteq> None \<longrightarrow>
       look w' (SecretKind, ns, SecretName c) = look w (SecretKind, ns, SecretName c)) \<and>
    (\<forall>k. k \<notin> owned_keys c \<longrightarrow> look w' k = look w k)"
  using quiet_env.Reconcile_run [OF assms] by blast

definition demo_cluster :: PostgresCluster where
  "demo_cluster = PostgresCluster_zero\<lparr>
     pgc_meta := ObjectMeta_zero\<lparr>om_Name := ''db'', om_Namespace := ''prod'',
       om_Finalizers := [ClusterFinalizer], om_Generation := 3\<rparr>,
     pgc_Spec := (pgc_Spec PostgresCluster_zero)\<lparr>pcs_PostgresVersion := 16, pcs_Instances := 3\<rparr>\<rparr>"

definition demo_world :: mem where
  "demo_world = \<lparr>mem_objs = [((ClusterKind, ''prod'', ''db''), KCluster demo_cluster)],
     mem_events = [], mem_clock = 100\<rparr>"

text \<open>C1 on a world that holds just the new cluster.\<close>

theorem Reconcile_cluster_converges_witness:
  "\<exists>w'. Reconcile_cluster mem_env ''prod'' ''db'' demo_world = (Inr (res_after 30), w') \<and>
        converged demo_cluster (mem_look w')"
proof -
  have "keyed (mem_look demo_world)"
    by (simp add: keyed_def mem_look_def demo_world_def key_of_def demo_cluster_def
        PostgresCluster_zero_def ObjectMeta_zero_def)
  moreover have "mem_look demo_world (ClusterKind, ''prod'', ''db'') = Some (KCluster demo_cluster)"
    by (simp add: mem_look_def demo_world_def)
  moreover have "\<not> pcs_Paused (pgc_Spec demo_cluster)"
    "ClusterFinalizer \<in> set (om_Finalizers (pgc_meta demo_cluster))"
    "IsZero (om_DeletionTimestamp (pgc_meta demo_cluster))"
    by (simp_all add: demo_cluster_def PostgresCluster_zero_def ObjectMeta_zero_def IsZero_def)
  ultimately show ?thesis
    using Reconcile_cluster_converges [OF mem.quiet_env_axioms] by blast
qed

text \<open>
  C28. Pausing. Whatever the server does, the reconcile of a cluster whose spec is paused reads the cluster and,
  unless the phase says so already, writes its status once, with phase Paused and spec and
  metadata untouched; besides an event there is no other call, so no owned object is touched and no
  finalizer is added or removed.
\<close>

theorem Reconcile_cluster_paused:
  assumes "cl_get (env_client env) (ClusterKind, ns, n) w = (Inr (KCluster c), w1)"
    and "pcs_Paused (pgc_Spec c)"
  shows "if pst_Phase (pgc_Status c) = PhasePaused
         then calls (Reconcile_cluster (logged env) ns n) w = [CGet (ClusterKind, ns, n)]
         else \<exists>c' evs. calls (Reconcile_cluster (logged env) ns n) w =
                [CGet (ClusterKind, ns, n), CStatus (KCluster c')] @ evs \<and>
              list_all (\<lambda>call. \<exists>ob ev. call = CEvent ob ev) evs \<and>
              pgc_Spec c' = pgc_Spec c \<and> pgc_meta c' = pgc_meta c \<and>
              pst_Phase (pgc_Status c') = PhasePaused"
proof (cases "pst_Phase (pgc_Status c) = PhasePaused")
  case True
  with assms show ?thesis
    by (simp add: calls_def Reconcile_cluster_def reconcilePaused_def get_as_logged)
next
  case False
  let ?env = "logged env" and ?g = "CGet (ClusterKind, ns, n)"
  define c' where "c' = SetClusterCondition (env_now ?env (w1, [?g])) ConditionProgressing ConditionFalse
    ''Paused'' ''Reconciliation is suspended'' (setPhase PhasePaused c)"
  obtain r w2 where su: "StatusUpdate ?env (KCluster c') (w1, [?g]) = (r, (w2, [?g, CStatus (KCluster c')]))"
    by (cases "cl_status_update (env_client env) (KCluster c') w1") (simp add: StatusUpdate_logged)
  have run: "Reconcile_cluster ?env ns n (w, []) =
      bindE (StatusUpdate ?env (KCluster c')) (\<lambda>ob. thenE (recordEvent ?env ob EventTypeWarning
        EventReasonPaused ''Reconciliation paused via spec.paused'') (retE res_done)) (w1, [?g])"
    using False assms by (simp add: Reconcile_cluster_def reconcilePaused_def get_as_logged c'_def)
  have "\<exists>evs. calls (Reconcile_cluster ?env ns n) w = [?g, CStatus (KCluster c')] @ evs \<and>
      list_all (\<lambda>call. \<exists>ob ev. call = CEvent ob ev) evs"
  proof (cases r)
    case (Inl e)
    with su run show ?thesis by (simp add: calls_def)
  next
    case (Inr ob)
    obtain w3 l3 where "recordEvent ?env ob EventTypeWarning EventReasonPaused
        ''Reconciliation paused via spec.paused'' (w2, [?g, CStatus (KCluster c')]) =
        (Inr (), (w3, [?g, CStatus (KCluster c')] @ l3))" "list_all (\<lambda>c. \<exists>ev. c = CEvent ob ev) l3"
      using recordEvent_logged [of env ob EventTypeWarning EventReasonPaused
        "''Reconciliation paused via spec.paused''" w2 "[?g, CStatus (KCluster c')]"]
      by (elim exE conjE) (rule that)
    with su run Inr show ?thesis by (auto simp: calls_def list_all_iff)
  qed
  with False show ?thesis by (auto simp: c'_def)
qed

text \<open>C28 for a paused cluster in the in-memory server.\<close>

theorem Reconcile_cluster_paused_witness:
  "\<exists>c' evs. calls (Reconcile_cluster (logged mem_env) ''prod'' ''db'')
      \<lparr>mem_objs = [((ClusterKind, ''prod'', ''db''),
          KCluster (demo_cluster\<lparr>pgc_Spec := (pgc_Spec demo_cluster)\<lparr>pcs_Paused := True\<rparr>\<rparr>))],
       mem_events = [], mem_clock = 100\<rparr> =
      [CGet (ClusterKind, ''prod'', ''db''), CStatus (KCluster c')] @ evs"
proof -
  let ?c = "demo_cluster\<lparr>pgc_Spec := (pgc_Spec demo_cluster)\<lparr>pcs_Paused := True\<rparr>\<rparr>"
  let ?w = "\<lparr>mem_objs = [((ClusterKind, ''prod'', ''db''), KCluster ?c)], mem_events = [], mem_clock = 100\<rparr>"
  have "cl_get (env_client mem_env) (ClusterKind, ''prod'', ''db'') ?w = (Inr (KCluster ?c), ?w)"
    by (simp add: mem_env_def mem_look_def)
  from Reconcile_cluster_paused [OF this] show ?thesis
    by (auto simp: demo_cluster_def PostgresCluster_zero_def)
qed

definition no_cluster_update :: "call \<Rightarrow> bool" where
  "no_cluster_update call \<longleftrightarrow> (\<forall>c. call \<noteq> CUpdate (KCluster c))"

lemma no_cluster_update_simps [simp]:
  "no_cluster_update (CGet k)" "no_cluster_update (CCreate ob)" "no_cluster_update (CStatus ob)"
  "no_cluster_update (CEvent ob ev)" "no_cluster_update (CUpdate ob) \<longleftrightarrow> kind_of ob \<noteq> ClusterKind"
  by (auto simp: no_cluster_update_def kind_of_iff)

lemma logs_no_cluster_update:
  "logs no_cluster_update (reconcileSubresources (logged env) c)"
  "logs no_cluster_update (bootstrapStatus (logged env) c)"
  unfolding reconcileSubresources_def clusterSteps_def runSteps.simps reconcileServices_def
    reconcileServiceList.simps reconcileServiceAccount_def reconcileCredentials_def reconcileConfigMap_def
    reconcileStatefulSet_def reconcileService_def reconcilePDB_def updateStatus_def
    setReadiness_def bootstrapStatus_def Let_def
  by (intro logs_intro; simp)+

text \<open>
  C3. The finalizer. For every server, the reconcile of a cluster that is not paused updates the cluster object only
  to put the finalizer on or to take it off: when the finalizer is missing the one write adds it, also on
  a cluster that is being deleted; when the finalizer is there and the cluster is being deleted the one
  write removes it; otherwise the cluster object itself is not updated.
\<close>

theorem Reconcile_cluster_finalizer:
  assumes "cl_get (env_client env) (ClusterKind, ns, n) w = (Inr (KCluster c), w1)"
    and "\<not> pcs_Paused (pgc_Spec c)"
  shows "if ClusterFinalizer \<notin> set (om_Finalizers (pgc_meta c)) then
           calls (Reconcile_cluster (logged env) ns n) w =
             [CGet (ClusterKind, ns, n), CUpdate (KCluster (setFinalizers (\<lambda>fs. fs @ [ClusterFinalizer]) c))]
         else if \<not> IsZero (om_DeletionTimestamp (pgc_meta c)) then
           calls (Reconcile_cluster (logged env) ns n) w =
             [CGet (ClusterKind, ns, n), CUpdate (KCluster (setFinalizers (filter (\<lambda>x. x \<noteq> ClusterFinalizer)) c))]
         else list_all no_cluster_update (calls (Reconcile_cluster (logged env) ns n) w)"
proof -
  have upd: "snd (snd (thenE (Update (logged env) ob) (retE r) (w', l))) = l @ [CUpdate ob]"
    for ob and r :: Result and w' l
    by (cases "cl_update (env_client env) ob w'"; cases "fst (cl_update (env_client env) ob w')")
       (auto simp: Update_logged thenE_def run_bindE)
  have run: "Reconcile_cluster (logged env) ns n (w, []) =
      (if ClusterFinalizer \<notin> set (om_Finalizers (pgc_meta c)) then
         thenE (Update (logged env) (KCluster (setFinalizers (\<lambda>fs. fs @ [ClusterFinalizer]) c))) (retE res_requeue)
       else if \<not> IsZero (om_DeletionTimestamp (pgc_meta c)) then reconcileDelete (logged env) c
       else bindE (bootstrapStatus (logged env) c) (\<lambda>c. thenE (reconcileSubresources (logged env) c) (retE (res_after 30))))
      (w1, [CGet (ClusterKind, ns, n)])"
    using assms by (simp add: Reconcile_cluster_def get_as_logged)
  have "logs no_cluster_update (bindE (bootstrapStatus (logged env) c)
      (\<lambda>c. thenE (reconcileSubresources (logged env) c) (retE (res_after 30))))"
    by (intro logs_intro logs_no_cluster_update)
  then obtain l' where "snd (snd (bindE (bootstrapStatus (logged env) c)
      (\<lambda>c. thenE (reconcileSubresources (logged env) c) (retE (res_after 30))) (w1, [CGet (ClusterKind, ns, n)]))) =
      [CGet (ClusterKind, ns, n)] @ l'" "list_all no_cluster_update l'"
    unfolding logs_def by blast
  then show ?thesis unfolding calls_def run by (auto simp: upd reconcileDelete_def)
qed

text \<open>C3 on a cluster that another finalizer holds during its deletion: the operator's finalizer comes back.\<close>

theorem Reconcile_cluster_finalizer_witness:
  "\<exists>c'. calls (Reconcile_cluster (logged mem_env) ''prod'' ''db'')
      \<lparr>mem_objs = [((ClusterKind, ''prod'', ''db''), KCluster (demo_cluster\<lparr>pgc_meta := (pgc_meta demo_cluster)\<lparr>
          om_DeletionTimestamp := Some 90, om_Finalizers := [''other/finalizer'']\<rparr>\<rparr>))],
       mem_events = [], mem_clock = 100\<rparr> =
      [CGet (ClusterKind, ''prod'', ''db''), CUpdate (KCluster c')] \<and>
     om_Finalizers (pgc_meta c') = [''other/finalizer'', ClusterFinalizer]"
proof -
  let ?c = "demo_cluster\<lparr>pgc_meta := (pgc_meta demo_cluster)\<lparr>
    om_DeletionTimestamp := Some 90, om_Finalizers := [''other/finalizer'']\<rparr>\<rparr>"
  let ?w = "\<lparr>mem_objs = [((ClusterKind, ''prod'', ''db''), KCluster ?c)], mem_events = [], mem_clock = 100\<rparr>"
  have "cl_get (env_client mem_env) (ClusterKind, ''prod'', ''db'') ?w = (Inr (KCluster ?c), ?w)"
    by (simp add: mem_env_def mem_look_def)
  from Reconcile_cluster_finalizer [OF this] show ?thesis
    by (simp add: demo_cluster_def PostgresCluster_zero_def setFinalizers_def)
qed

end
