(* ===== verification/Backup_Controller.thy ===== *)
theory Backup_Controller
  imports Cluster_Controller
begin

section \<open>The backup reconciler\<close>

text \<open>
  \<open>internal/controller/postgresbackup_controller.go\<close>: a backup waits for its cluster, starts one
  Job, and follows the Job to a terminal phase. The reconciler is a program over the environment; its
  interleaving with the Job controller and with changes of the cluster is the step relation
  \<open>bstep\<close> over the in-memory server.
\<close>

subsection \<open>Operations\<close>

definition setBackupCond ::
  "'w env \<Rightarrow> string \<Rightarrow> string \<Rightarrow> string \<Rightarrow> string \<Rightarrow> PostgresBackup \<Rightarrow> ('w, PostgresBackup) io" where
  "setBackupCond env t st r m backup =
     bindE (getNow env) (\<lambda>now. retE (SetBackupCondition now t st r m backup))"

definition createBackupJob ::
  "'w env \<Rightarrow> PostgresBackup \<Rightarrow> PostgresCluster \<Rightarrow> ('w, Result) io" where
  "createBackupJob env backup cluster =
     (let job = BuildBackupJob backup cluster in
      bindE (setRef env (KBackup backup) (job_meta job)) (\<lambda>m.
      thenE (Create env (KJob (job\<lparr>job_meta := m\<rparr>)))
       (bindE (getNow env) (\<lambda>now.
        let backup = backup\<lparr>pgb_Status := (pgb_Status backup)\<lparr>
              pbt_Phase := BackupPhaseRunning, pbt_StartTime := Some now\<rparr>\<rparr> in
        bindE (setBackupCond env ''Running'' ConditionTrue ''JobCreated'' ''Backup job has been created'' backup) (\<lambda>backup.
        thenE (StatusUpdate env (KBackup backup)) (retE (res_after 15)))))))"

definition finishBackup ::
  "'w env \<Rightarrow> PostgresBackup \<Rightarrow> BackupPhase \<Rightarrow> string \<Rightarrow> string \<Rightarrow> string \<Rightarrow> ('w, Result) io" where
  "finishBackup env backup phase st r m =
     bindE (getNow env) (\<lambda>now.
     let backup = backup\<lparr>pgb_Status := (pgb_Status backup)\<lparr>
           pbt_Phase := phase, pbt_CompletionTime := Some now\<rparr>\<rparr> in
     bindE (setBackupCond env ''Complete'' st r m backup) (\<lambda>backup.
     thenE (StatusUpdate env (KBackup backup)) (retE res_done)))"

text \<open>The loop over the Job's conditions returns from inside at the first terminal one.\<close>

fun syncLoop :: "'w env \<Rightarrow> PostgresBackup \<Rightarrow> JobCondition list \<Rightarrow> ('w, Result) io" where
  "syncLoop env backup [] = retE (res_after 15)"
| "syncLoop env backup (cond # conds) =
     (if jc_Type cond = ''Complete'' \<and> jc_Status cond = ''True'' then
        finishBackup env backup BackupPhaseCompleted ConditionTrue ''JobSucceeded'' ''Backup completed successfully''
      else if jc_Type cond = ''Failed'' \<and> jc_Status cond = ''True'' then
        finishBackup env backup BackupPhaseFailed ConditionFalse ''JobFailed'' ''Backup job failed''
      else syncLoop env backup conds)"

definition syncBackupStatus :: "'w env \<Rightarrow> PostgresBackup \<Rightarrow> Job \<Rightarrow> ('w, Result) io" where
  "syncBackupStatus env backup job = syncLoop env backup (job_Conditions job)"

text \<open>\<open>waitBackup\<close> is the pattern that sets a condition, tries to store it ignoring the error, and
  asks to be run again.\<close>

definition waitBackup ::
  "'w env \<Rightarrow> PostgresBackup \<Rightarrow> string \<Rightarrow> string \<Rightarrow> string \<Rightarrow> int \<Rightarrow> ('w, Result) io" where
  "waitBackup env backup t r m after =
     bindE (setBackupCond env t ConditionFalse r m backup) (\<lambda>backup.
     thenE (tryE (StatusUpdate env (KBackup backup))) (retE (res_after after)))"

definition Reconcile_backup :: "'w env \<Rightarrow> string \<Rightarrow> string \<Rightarrow> ('w, Result) io" where
  "Reconcile_backup env ns name =
     bindE (tryE (get_as asBackup env (BackupKind, ns, name))) (\<lambda>r.
     case r of
       Inl e \<Rightarrow> if IsNotFound e then retE res_done else failE e
     | Inr backup \<Rightarrow>
         if pbt_Phase (pgb_Status backup) = BackupPhaseCompleted \<or>
            pbt_Phase (pgb_Status backup) = BackupPhaseFailed then retE res_done
         else
          bindE (tryE (get_as asCluster env
                  (ClusterKind, om_Namespace (pgb_meta backup), pbs_ClusterName (pgb_Spec backup)))) (\<lambda>rc.
          case rc of
            Inl e \<Rightarrow>
              if IsNotFound e
              then waitBackup env backup ''ClusterFound'' ''ClusterNotFound''
                     (''PostgresCluster '' @ Quote (env_uni env) (pbs_ClusterName (pgb_Spec backup)) @ '' not found'') 30
              else failE e
          | Inr cluster \<Rightarrow>
              if \<not> IsClusterRunning cluster
              then waitBackup env backup ''ClusterReady'' ''ClusterNotReady''
                     (''PostgresCluster '' @ Quote (env_uni env) (cluster_name cluster) @ '' is not in Running phase'') 20
              else
               bindE (tryE (get_as asJob env (JobKind, om_Namespace (pgb_meta backup), BackupJobName backup))) (\<lambda>rj.
               case rj of
                 Inl e \<Rightarrow> if IsNotFound e then createBackupJob env backup cluster else failE e
               | Inr job \<Rightarrow> syncBackupStatus env backup job)))"

subsection \<open>Calls\<close>

lemma setBackupCond_run [simp]:
  "setBackupCond env t st r m b w = (Inr (SetBackupCondition (env_now env w) t st r m b), w)"
  by (simp add: setBackupCond_def)

lemma logs_setBackupCond [logs_intro]: "logs C (setBackupCond env t st r m b)"
  by (simp add: logs_def)

lemma logs_waitBackup [logs_intro]:
  "(\<And>b. C (CStatus (KBackup b))) \<Longrightarrow> logs C (waitBackup (logged env) b t r m after)"
  unfolding waitBackup_def by (intro logs_intro)

lemma logs_finishBackup [logs_intro]:
  "(\<And>b. C (CStatus (KBackup b))) \<Longrightarrow> logs C (finishBackup (logged env) b ph st r m)"
  unfolding finishBackup_def Let_def by (intro logs_intro)

lemma logs_syncBackup [logs_intro]:
  assumes "\<And>b. C (CStatus (KBackup b))"
  shows "logs C (syncBackupStatus (logged env) b job)"
proof -
  have "logs C (syncLoop (logged env) b conds)" for conds
    using assms by (induction conds) (auto intro!: logs_intro)
  then show ?thesis by (simp add: syncBackupStatus_def)
qed

definition is_create :: "call \<Rightarrow> bool" where
  "is_create c \<longleftrightarrow> (case c of CCreate _ \<Rightarrow> True | _ \<Rightarrow> False)"

lemma is_create_simps [simp]:
  "is_create (CCreate ob)" "\<not> is_create (CGet k)" "\<not> is_create (CUpdate ob)"
  "\<not> is_create (CStatus ob)" "\<not> is_create (CEvent ob ev)"
  by (simp_all add: is_create_def)

text \<open>\<open>createBackupJob\<close> creates at most one object: the built Job, with the backup as its controller.\<close>

definition owned_job :: "'w env \<Rightarrow> PostgresBackup \<Rightarrow> PostgresCluster \<Rightarrow> KObj \<Rightarrow> bool" where
  "owned_job env b c ob \<longleftrightarrow> (\<exists>m. env_setRef env (KBackup b) (job_meta (BuildBackupJob b c)) = Inr m \<and>
     ob = KJob ((BuildBackupJob b c)\<lparr>job_meta := m\<rparr>))"

lemma createBackupJob_calls:
  "\<exists>l'. snd (snd (createBackupJob (logged env) b c (w, l))) = l @ l' \<and> length (filter is_create l') \<le> 1 \<and>
     (\<forall>ob. CCreate ob \<in> set l' \<longrightarrow> owned_job env b c ob)"
proof (cases "env_setRef env (KBackup b) (job_meta (BuildBackupJob b c))")
  case (Inl e)
  then show ?thesis by (simp add: createBackupJob_def Let_def setRef_def)
next
  case (Inr m)
  note Inr' = Inr
  let ?j = "KJob ((BuildBackupJob b c)\<lparr>job_meta := m\<rparr>)"
  let ?rest = "bindE (getNow (logged env)) (\<lambda>now.
        let backup = b\<lparr>pgb_Status := (pgb_Status b)\<lparr>
              pbt_Phase := BackupPhaseRunning, pbt_StartTime := Some now\<rparr>\<rparr> in
        bindE (setBackupCond (logged env) ''Running'' ConditionTrue ''JobCreated'' ''Backup job has been created'' backup) (\<lambda>backup.
        thenE (StatusUpdate (logged env) (KBackup backup)) (retE (res_after 15))))"
  have run: "createBackupJob (logged env) b c (w, l) = thenE (Create (logged env) ?j) ?rest (w, l)"
    using Inr by (simp add: createBackupJob_def Let_def setRef_def)
  have rest: "logs (\<lambda>c. \<not> is_create c) ?rest"
    unfolding Let_def by (intro logs_intro) simp
  obtain r w' where cr: "Create (logged env) ?j (w, l) = (r, (w', l @ [CCreate ?j]))"
    by (cases "cl_create (env_client env) ?j w") (simp add: Create_logged)
  show ?thesis
  proof (cases r)
    case (Inl e)
    with run cr Inr' show ?thesis by (intro exI [of _ "[CCreate ?j]"]) (auto simp: owned_job_def)
  next
    case (Inr u)
    from rest obtain l2 where
      "snd (snd (?rest (w', l @ [CCreate ?j]))) = (l @ [CCreate ?j]) @ l2"
      "list_all (\<lambda>c. \<not> is_create c) l2" unfolding logs_def by blast
    with run cr Inr Inr' show ?thesis
      by (intro exI [of _ "CCreate ?j # l2"]) (auto simp: list_all_iff filter_empty_conv is_create_def owned_job_def)
  qed
qed

text \<open>\<open>creates \<Psi> l\<close>: at most one create call in \<open>l\<close>, and its object satisfies \<open>\<Psi>\<close>.\<close>

definition creates :: "(KObj \<Rightarrow> bool) \<Rightarrow> call list \<Rightarrow> bool" where
  "creates \<Psi> l \<longleftrightarrow> length (filter is_create l) \<le> 1 \<and> (\<forall>ob. CCreate ob \<in> set l \<longrightarrow> \<Psi> ob)"

lemma creates_CGet [simp]: "creates \<Psi> (CGet k # l) \<longleftrightarrow> creates \<Psi> l"
  by (auto simp: creates_def)

lemma emits_no_create: "logs (\<lambda>c. \<not> is_create c) m \<Longrightarrow> emits (creates \<Psi>) m w"
  by (rule emits_logs) (auto simp: creates_def list_all_iff filter_empty_conv [THEN iffD2])

lemma emits_createBackupJob:
  assumes "\<And>ob. owned_job env b c ob \<Longrightarrow> \<Psi> ob"
  shows "emits (creates \<Psi>) (createBackupJob (logged env) b c) w"
  unfolding emits_def
proof
  fix l
  from createBackupJob_calls [of env b c w l] assms
  show "\<exists>l'. snd (snd (createBackupJob (logged env) b c (w, l))) = l @ l' \<and> creates \<Psi> l'"
    unfolding creates_def by blast
qed

text \<open>What has to be seen before the Job is created.\<close>

definition may_create :: "'w env \<Rightarrow> string \<Rightarrow> string \<Rightarrow> 'w \<Rightarrow> KObj \<Rightarrow> bool" where
  "may_create env ns n w ob \<longleftrightarrow>
     (\<exists>b c w1 w2 w3 e.
        cl_get (env_client env) (BackupKind, ns, n) w = (Inr (KBackup b), w1) \<and>
        pbt_Phase (pgb_Status b) \<notin> {BackupPhaseCompleted, BackupPhaseFailed} \<and>
        cl_get (env_client env) (ClusterKind, om_Namespace (pgb_meta b), pbs_ClusterName (pgb_Spec b)) w1 =
          (Inr (KCluster c), w2) \<and> IsClusterRunning c \<and>
        cl_get (env_client env) (JobKind, om_Namespace (pgb_meta b), BackupJobName b) w2 = (Inl e, w3) \<and>
        IsNotFound e \<and> owned_job env b c ob \<and> key_of ob = (JobKind, om_Namespace (pgb_meta b), BackupJobName b))"

text \<open>Setting the owner leaves name and namespace alone; then the created Job is found again under the backup's Job name.\<close>

definition keeps_names :: "'w env \<Rightarrow> bool" where
  "keeps_names env \<longleftrightarrow> (\<forall>ow m m'. env_setRef env ow m = Inr m' \<longrightarrow> om_Name m' = om_Name m \<and> om_Namespace m' = om_Namespace m)"

lemma owned_job_key:
  assumes "keeps_names env" "owned_job env b c ob"
  shows "key_of ob = (JobKind, om_Namespace (pgb_meta b), BackupJobName b)"
proof -
  from assms(2) obtain m where m: "env_setRef env (KBackup b) (job_meta (BuildBackupJob b c)) = Inr m"
    "ob = KJob ((BuildBackupJob b c)\<lparr>job_meta := m\<rparr>)" unfolding owned_job_def by blast
  with assms(1) have "om_Name m = om_Name (job_meta (BuildBackupJob b c))"
    "om_Namespace m = om_Namespace (job_meta (BuildBackupJob b c))" unfolding keeps_names_def by blast+
  with m(2) show ?thesis by (simp add: key_of_def BuildBackupJob_def Let_def)
qed

lemma emits_job_stage:
  assumes names: "keeps_names env"
    and "cl_get (env_client env) (BackupKind, ns, n) w = (Inr (KBackup b), w1)"
    and "pbt_Phase (pgb_Status b) \<notin> {BackupPhaseCompleted, BackupPhaseFailed}"
    and "cl_get (env_client env) (ClusterKind, om_Namespace (pgb_meta b), pbs_ClusterName (pgb_Spec b)) w1 =
      (Inr (KCluster c), w2)" "IsClusterRunning c"
  shows "emits (creates (may_create env ns n w))
    (bindE (tryE (get_as asJob (logged env) (JobKind, om_Namespace (pgb_meta b), BackupJobName b))) (\<lambda>rj.
       case rj of Inl e \<Rightarrow> if IsNotFound e then createBackupJob (logged env) b c else failE e
       | Inr job \<Rightarrow> syncBackupStatus (logged env) b job)) w2"
proof (rule emits_tryget)
  fix e w3
  assume "cl_get (env_client env) (JobKind, om_Namespace (pgb_meta b), BackupJobName b) w2 = (Inl e, w3)"
  with assms owned_job_key [OF names] have "IsNotFound e \<Longrightarrow> owned_job env b c ob \<Longrightarrow> may_create env ns n w ob" for ob
    unfolding may_create_def by blast
  then show "emits (\<lambda>l. creates (may_create env ns n w) (CGet (JobKind, om_Namespace (pgb_meta b), BackupJobName b) # l))
    (case Inl e of Inl e \<Rightarrow> if IsNotFound e then createBackupJob (logged env) b c else failE e
     | Inr job \<Rightarrow> syncBackupStatus (logged env) b job) w3"
    by (simp add: emits_createBackupJob emits_no_create logs_intro)
qed (auto intro!: emits_no_create logs_intro)

subsection \<open>The life of a backup\<close>

text \<open>The first terminal condition of a Job: \<open>Some True\<close> when it is Complete, \<open>Some False\<close> when Failed.\<close>

fun first_terminal :: "JobCondition list \<Rightarrow> bool option" where
  "first_terminal [] = None"
| "first_terminal (c # cs) =
     (if jc_Type c = ''Complete'' \<and> jc_Status c = ''True'' then Some True
      else if jc_Type c = ''Failed'' \<and> jc_Status c = ''True'' then Some False
      else first_terminal cs)"

lemma first_terminal_append:
  "first_terminal cs = Some t \<Longrightarrow> first_terminal (cs @ ds) = Some t"
  by (induction cs) (auto split: if_splits)

lemma syncLoop_first_terminal:
  "syncLoop env b cs = (case first_terminal cs of
     None \<Rightarrow> retE (res_after 15)
   | Some True \<Rightarrow> finishBackup env b BackupPhaseCompleted ConditionTrue ''JobSucceeded'' ''Backup completed successfully''
   | Some False \<Rightarrow> finishBackup env b BackupPhaseFailed ConditionFalse ''JobFailed'' ''Backup job failed'')"
  by (induction cs) auto

definition terminal :: "PostgresBackup \<Rightarrow> bool" where
  "terminal b \<longleftrightarrow> pbt_Phase (pgb_Status b) = BackupPhaseCompleted \<or> pbt_Phase (pgb_Status b) = BackupPhaseFailed"

abbreviation job_key :: "PostgresBackup \<Rightarrow> Key" where
  "job_key b \<equiv> (JobKind, om_Namespace (pgb_meta b), BackupJobName b)"

text \<open>The steps of a backup: a run of the reconciler, or anything else that happens in between and
  leaves the backup alone. Jobs may appear, and the Job controller may add conditions to a Job.\<close>

definition job_extends :: "KObj option \<Rightarrow> KObj option \<Rightarrow> bool" where
  "job_extends x y \<longleftrightarrow> (\<forall>j. x = Some (KJob j) \<longrightarrow>
     (\<exists>j' cs. y = Some (KJob j') \<and> job_Conditions j' = job_Conditions j @ cs))"

inductive bstep :: "'w env \<Rightarrow> ('w \<Rightarrow> Key \<Rightarrow> KObj option) \<Rightarrow> string \<Rightarrow> string \<Rightarrow> 'w \<Rightarrow> 'w \<Rightarrow> bool"
  for env look ns n where
  reconcile: "bstep env look ns n w (snd (Reconcile_backup env ns n w))"
| world: "keyed (look w') \<Longrightarrow> look w' (BackupKind, ns, n) = look w (BackupKind, ns, n) \<Longrightarrow>
    (\<And>k. job_extends (look w k) (look w' k)) \<Longrightarrow> bstep env look ns n w w'"

lemma SetBackupCondition_sel [simp]:
  "pgb_meta (SetBackupCondition now t st r m b) = pgb_meta b"
  "pgb_Spec (SetBackupCondition now t st r m b) = pgb_Spec b"
  "pbt_Phase (pgb_Status (SetBackupCondition now t st r m b)) = pbt_Phase (pgb_Status b)"
  "pbt_CompletionTime (pgb_Status (SetBackupCondition now t st r m b)) = pbt_CompletionTime (pgb_Status b)"
  by (simp_all add: SetBackupCondition_def)

context quiet_env
begin

text \<open>\<open>restores m w k b P\<close>: \<open>m\<close> stores a new version of the backup at \<open>k\<close> that satisfies \<open>P\<close>, and nothing else.\<close>

definition restores :: "('w, 'a) io \<Rightarrow> 'w \<Rightarrow> Key \<Rightarrow> PostgresBackup \<Rightarrow> (PostgresBackup \<Rightarrow> bool) \<Rightarrow> bool" where
  "restores m w k b P \<longleftrightarrow> (\<exists>b'. look (snd (m w)) = (look w)(k \<mapsto> KBackup b') \<and>
     pgb_meta b' = pgb_meta b \<and> pgb_Spec b' = pgb_Spec b \<and> P b')"

lemma store_backup:
  assumes "look w k = Some (KBackup b)" "key_of (KBackup b) = k" "pgb_meta b' = pgb_meta b" "pgb_Spec b' = pgb_Spec b"
  obtains w' where "StatusUpdate env (KBackup b') w = (Inr (KBackup b'), w')" "look w' = (look w)(k \<mapsto> KBackup b')"
proof -
  from assms have "key_of (KBackup b') = k" "b\<lparr>pgb_Status := pgb_Status b'\<rparr> = b'"
    by (simp_all add: key_of_def)
  with StatusUpdate_ok [of w "KBackup b'" "KBackup b"] assms(1) that show ?thesis by auto
qed

lemma restores_waitBackup:
  assumes "look w k = Some (KBackup b)" "key_of (KBackup b) = k"
  shows "restores (waitBackup env b t r m s) w k b (\<lambda>b'. pbt_Phase (pgb_Status b') = pbt_Phase (pgb_Status b))"
proof -
  let ?b = "SetBackupCondition (env_now env w) t ConditionFalse r m b"
  obtain w' where "StatusUpdate env (KBackup ?b) w = (Inr (KBackup ?b), w')" "look w' = (look w)(k \<mapsto> KBackup ?b)"
    by (rule store_backup [OF assms, of ?b]) simp_all
  then show ?thesis by (auto simp: restores_def waitBackup_def)
qed

lemma restores_finishBackup:
  assumes "look w k = Some (KBackup b)" "key_of (KBackup b) = k"
  shows "restores (finishBackup env b ph st r m) w k b
    (\<lambda>b'. pbt_Phase (pgb_Status b') = ph \<and> pbt_CompletionTime (pgb_Status b') \<noteq> None)"
proof -
  let ?b = "SetBackupCondition (env_now env w) ''Complete'' st r m (b\<lparr>pgb_Status := (pgb_Status b)\<lparr>
     pbt_Phase := ph, pbt_CompletionTime := Some (env_now env w)\<rparr>\<rparr>)"
  obtain w' where "StatusUpdate env (KBackup ?b) w = (Inr (KBackup ?b), w')" "look w' = (look w)(k \<mapsto> KBackup ?b)"
    by (rule store_backup [OF assms, of ?b]) simp_all
  then show ?thesis by (auto simp: restores_def finishBackup_def Let_def)
qed

lemma createBackupJob_look:
  assumes "look w k = Some (KBackup b)" "key_of (KBackup b) = k" "look w (job_key b) = None"
  obtains j b' where
    "look (snd (createBackupJob env b c w)) = (look w)(job_key b \<mapsto> KJob j, k \<mapsto> KBackup b')"
    "key_of (KJob j) = job_key b" "job_Conditions j = []"
    "pgb_meta b' = pgb_meta b" "pgb_Spec b' = pgb_Spec b" "pbt_Phase (pgb_Status b') = BackupPhaseRunning"
proof -
  let ?j = "BuildBackupJob b c"
  have "ref_ok (KBackup b) (job_meta ?j)" by (simp add: BuildBackupJob_def Let_def)
  then obtain refs where ref: "setRef env (KBackup b) (job_meta ?j) w =
      (Inr ((job_meta ?j)\<lparr>om_OwnerReferences := refs\<rparr>), w)" by (rule setRef_ok)
  let ?o = "?j\<lparr>job_meta := (job_meta ?j)\<lparr>om_OwnerReferences := refs\<rparr>\<rparr>"
  have key: "key_of (KJob ?o) = job_key b"
    by (simp add: key_of_def BuildBackupJob_def Let_def)
  with assms(3) obtain w1 where w1: "Create env (KJob ?o) w = (Inr (), w1)"
    "look w1 = (look w)(job_key b \<mapsto> KJob ?o)" using Create_ok [of w "KJob ?o"] by auto
  let ?b = "SetBackupCondition (env_now env w1) ''Running'' ConditionTrue ''JobCreated'' ''Backup job has been created''
    (b\<lparr>pgb_Status := (pgb_Status b)\<lparr>pbt_Phase := BackupPhaseRunning, pbt_StartTime := Some (env_now env w1)\<rparr>\<rparr>)"
  have "look w1 k = Some (KBackup b)" using w1(2) assms by (auto simp: key_of_def)
  then obtain w2 where "StatusUpdate env (KBackup ?b) w1 = (Inr (KBackup ?b), w2)"
      "look w2 = (look w1)(k \<mapsto> KBackup ?b)"
    by (rule store_backup [OF _ assms(2), of w1 ?b]) simp_all
  with ref w1 have look: "look (snd (createBackupJob env b c w)) = (look w)(job_key b \<mapsto> KJob ?o, k \<mapsto> KBackup ?b)"
    by (simp add: createBackupJob_def Let_def)
  from look key show ?thesis by (rule that) (simp_all add: BuildBackupJob_def Let_def)
qed

text \<open>What the Job at the time says about a backup in a terminal phase.\<close>

definition justified :: "'w \<Rightarrow> PostgresBackup \<Rightarrow> bool" where
  "justified w b \<longleftrightarrow> (terminal b \<longrightarrow> (\<exists>j t. look w (job_key b) = Some (KJob j) \<and>
     first_terminal (job_Conditions j) = Some t \<and> pbt_CompletionTime (pgb_Status b) \<noteq> None \<and>
     pbt_Phase (pgb_Status b) = (if t then BackupPhaseCompleted else BackupPhaseFailed)))"

definition bstate :: "string \<Rightarrow> string \<Rightarrow> PostgresBackup \<Rightarrow> 'w \<Rightarrow> bool" where
  "bstate ns n b0 w \<longleftrightarrow> keyed (look w) \<and> (\<exists>b. look w (BackupKind, ns, n) = Some (KBackup b) \<and>
     pgb_meta b = pgb_meta b0 \<and> pgb_Spec b = pgb_Spec b0 \<and> justified w b)"

lemma bstate_restores:
  assumes "restores m w (BackupKind, ns, n) b P" "keyed (look w)" "look w (BackupKind, ns, n) = Some (KBackup b)"
    "pgb_meta b = pgb_meta b0" "pgb_Spec b = pgb_Spec b0"
    and "\<And>b'. P b' \<Longrightarrow> pgb_meta b' = pgb_meta b \<Longrightarrow> justified w b'"
  shows "bstate ns n b0 (snd (m w))"
proof -
  from assms(1) obtain b' where b': "look (snd (m w)) = (look w)((BackupKind, ns, n) \<mapsto> KBackup b')"
    "pgb_meta b' = pgb_meta b" "pgb_Spec b' = pgb_Spec b" "P b'" unfolding restores_def by blast
  have "key_of (KBackup b') = (BackupKind, ns, n)"
    using keyedD [OF assms(2,3)] b'(2) by (simp add: key_of_def)
  with b' assms show ?thesis
    unfolding bstate_def by (auto simp: justified_def)
qed

lemma Reconcile_backup_terminal:
  assumes "look w (BackupKind, ns, n) = Some (KBackup b)" "terminal b"
  shows "Reconcile_backup env ns n w = (Inr res_done, w)"
  using assms get_found [of w _ "KBackup b" asBackup b]
  by (simp add: Reconcile_backup_def terminal_def)

lemma bstate_syncBackup:
  assumes "keyed (look w)" "look w (BackupKind, ns, n) = Some (KBackup b)"
    "pgb_meta b = pgb_meta b0" "pgb_Spec b = pgb_Spec b0" "\<not> terminal b"
    "look w (job_key b) = Some (KJob j)"
  shows "bstate ns n b0 (snd (syncBackupStatus env b j w))"
proof (cases "first_terminal (job_Conditions j)")
  case None
  with assms show ?thesis by (auto simp: syncBackupStatus_def syncLoop_first_terminal bstate_def justified_def)
next
  case (Some t)
  let ?ph = "if t then BackupPhaseCompleted else BackupPhaseFailed"
  have "justified w b'" if "pbt_Phase (pgb_Status b') = ?ph \<and> pbt_CompletionTime (pgb_Status b') \<noteq> None"
      "pgb_meta b' = pgb_meta b" for b'
    using that Some assms(6) by (auto simp: justified_def BackupJobName_def)
  then have "bstate ns n b0 (snd (finishBackup env b ?ph st r m w))" for st r m
    by (rule bstate_restores [OF restores_finishBackup [OF assms(2) keyedD [OF assms(1,2)]] assms(1-4)])
  then show ?thesis using Some by (cases t) (simp_all add: syncBackupStatus_def syncLoop_first_terminal)
qed

lemma bstate_createBackupJob:
  assumes "keyed (look w)" "look w (BackupKind, ns, n) = Some (KBackup b)"
    "pgb_meta b = pgb_meta b0" "pgb_Spec b = pgb_Spec b0" "look w (job_key b) = None"
  shows "bstate ns n b0 (snd (createBackupJob env b c w))"
proof -
  have k: "key_of (KBackup b) = (BackupKind, ns, n)" using keyedD [OF assms(1,2)] .
  obtain j b' where
    "look (snd (createBackupJob env b c w)) = (look w)(job_key b \<mapsto> KJob j, (BackupKind, ns, n) \<mapsto> KBackup b')"
    "key_of (KJob j) = job_key b" "pgb_meta b' = pgb_meta b" "pgb_Spec b' = pgb_Spec b"
    "pbt_Phase (pgb_Status b') = BackupPhaseRunning"
    by (rule createBackupJob_look [OF assms(2) k assms(5)])
  with assms k show ?thesis
    unfolding bstate_def by (auto simp: justified_def terminal_def key_of_def)
qed

lemma bstate_reconcile:
  assumes "bstate ns n b0 w"
  shows "bstate ns n b0 (snd (Reconcile_backup env ns n w))"
proof -
  from assms obtain b where kw: "keyed (look w)" and b: "look w (BackupKind, ns, n) = Some (KBackup b)"
    and eq: "pgb_meta b = pgb_meta b0" "pgb_Spec b = pgb_Spec b0" unfolding bstate_def by blast
  note k = keyedD [OF kw b]
  show ?thesis
  proof (cases "terminal b")
    case True
    with assms b show ?thesis by (simp add: Reconcile_backup_terminal)
  next
    case False
    note wait = bstate_restores [OF restores_waitBackup [OF b k] kw b eq]
    have wait: "bstate ns n b0 (snd (waitBackup env b t r m s w))" for t r m s
      by (rule wait) (use False in \<open>simp add: justified_def terminal_def\<close>)
    note get = get_found [of w _ "KBackup b" asBackup b, OF b]
    let ?ck = "(ClusterKind, om_Namespace (pgb_meta b), pbs_ClusterName (pgb_Spec b))"
    note False' = False [unfolded terminal_def]
    show ?thesis
    proof (rule get_as_kind [of w ?ck asCluster])
      fix ob c
      assume c: "get_as asCluster env ?ck w = (Inr c, w)"
      show ?thesis
      proof (rule get_as_kind [of w "job_key b" asJob])
        assume "look w (job_key b) = None" "get_as asJob env (job_key b) w = (Inl NotFound, w)"
        with c get False' wait bstate_createBackupJob [OF kw b eq] show ?thesis
          by (simp add: Reconcile_backup_def)
      next
        fix jb j
        assume "look w (job_key b) = Some jb" "asJob jb = Some j" "get_as asJob env (job_key b) w = (Inr j, w)"
        with c get False' wait bstate_syncBackup [OF kw b eq False] show ?thesis
          by (simp add: Reconcile_backup_def)
      qed (simp_all add: kw kind_of_iff)
    next
      assume "get_as asCluster env ?ck w = (Inl NotFound, w)"
      with get False' wait show ?thesis by (simp add: Reconcile_backup_def)
    qed (auto simp: kw kind_of_iff)
  qed
qed

lemma bstate_step:
  assumes "bstep env look ns n w w'" "bstate ns n b0 w"
  shows "bstate ns n b0 w'"
  using assms
proof cases
  case reconcile
  with assms(2) show ?thesis by (simp add: bstate_reconcile)
next
  case world
  from assms(2) obtain b where b: "look w (BackupKind, ns, n) = Some (KBackup b)"
    "pgb_meta b = pgb_meta b0" "pgb_Spec b = pgb_Spec b0" "justified w b" unfolding bstate_def by blast
  have "justified w' b"
    using b(4) world(3) [of "job_key b"] first_terminal_append
    unfolding justified_def job_extends_def by metis
  with b world show ?thesis unfolding bstate_def by auto
qed

lemma terminal_step:
  assumes "bstep env look ns n w w'" "look w (BackupKind, ns, n) = Some (KBackup b)" "terminal b"
  shows "look w' (BackupKind, ns, n) = Some (KBackup b)"
  using assms by cases (simp_all add: Reconcile_backup_terminal)

lemma backup_run:
  assumes "(bstep env look ns n)\<^sup>*\<^sup>* w0 w" "bstate ns n b0 w0"
  shows "bstate ns n b0 w"
  using assms by (induction rule: rtranclp_induct) (auto dest: bstate_step)

lemma terminal_run:
  assumes "(bstep env look ns n)\<^sup>*\<^sup>* w w'" "look w (BackupKind, ns, n) = Some (KBackup b)" "terminal b"
  shows "look w' (BackupKind, ns, n) = Some (KBackup b)"
  using assms by (induction rule: rtranclp_induct) (auto dest: terminal_step)

end

subsection \<open>Properties\<close>

text \<open>
  C8. One Job per backup. Whatever the server answers, a reconcile of a backup makes at most one create call,
  after it has seen the backup in a non-terminal phase, its cluster in phase Running, and no Job under
  the backup's Job name. What it creates is the Job built for that backup and cluster, with the owner
  set on its metadata, under exactly the name and namespace that were looked up (setting the owner keeps both).
\<close>

theorem Reconcile_backup_creates:
  assumes "keeps_names env"
  shows "creates (may_create env ns n w) (calls (Reconcile_backup (logged env) ns n) w)"
proof (rule emits_calls)
  let ?quiet = "\<lambda>m. emits (creates (may_create env ns n w)) m"
  have wait: "?quiet (waitBackup (logged env) b t r m s) w'" for b t r m s w'
    by (intro emits_no_create logs_intro) simp
  have ret: "?quiet (retE x) w'" "?quiet (failE e) w'" for x e w'
    by (intro emits_no_create logs_intro)+
  show "emits (creates (may_create env ns n w)) (Reconcile_backup (logged env) ns n) w"
    unfolding Reconcile_backup_def
    by (rule emits_tryget; simp add: ret; intro impI emits_tryget; simp add: ret wait)
       (auto intro!: emits_job_stage [OF assms] simp: wait)
qed

text \<open>
  C2. The life of a backup. On a server nobody else writes backups to, take any run from a backup that is not in a
  terminal phase, in which reconciles interleave with any other change that leaves this backup
  alone and only adds conditions to Jobs. Name and spec never change; whenever the phase is
  terminal, the backup's Job is there and the phase says what the Job's first terminal condition
  says, with a completion time; and from then on the backup is never changed again.
\<close>

theorem backup_lifecycle:
  assumes "quiet_env env look" "keyed (look w0)" "look w0 (BackupKind, ns, n) = Some (KBackup b0)"
    "\<not> terminal b0" "(bstep env look ns n)\<^sup>*\<^sup>* w0 w"
  shows "\<exists>b. look w (BackupKind, ns, n) = Some (KBackup b) \<and>
    pgb_meta b = pgb_meta b0 \<and> pgb_Spec b = pgb_Spec b0 \<and>
    (terminal b \<longrightarrow>
      (\<exists>j t. look w (job_key b) = Some (KJob j) \<and> first_terminal (job_Conditions j) = Some t \<and>
        pbt_CompletionTime (pgb_Status b) \<noteq> None \<and>
        pbt_Phase (pgb_Status b) = (if t then BackupPhaseCompleted else BackupPhaseFailed)) \<and>
      (\<forall>w'. (bstep env look ns n)\<^sup>*\<^sup>* w w' \<longrightarrow> look w' (BackupKind, ns, n) = Some (KBackup b)))"
proof -
  from assms(2-4) have "quiet_env.bstate look ns n b0 w0"
    by (simp add: quiet_env.bstate_def [OF assms(1)] quiet_env.justified_def [OF assms(1)])
  from quiet_env.backup_run [OF assms(1,5) this] obtain b where
    b: "look w (BackupKind, ns, n) = Some (KBackup b)" "pgb_meta b = pgb_meta b0" "pgb_Spec b = pgb_Spec b0"
      "quiet_env.justified look w b"
    unfolding quiet_env.bstate_def [OF assms(1)] by blast
  from quiet_env.terminal_run [OF assms(1) _ b(1)] b show ?thesis
    unfolding quiet_env.justified_def [OF assms(1)] by blast
qed

definition demo_backup :: PostgresBackup where
  "demo_backup = PostgresBackup_zero\<lparr>
     pgb_meta := meta_lit ''nightly'' ''prod'' [],
     pgb_Spec := \<lparr>pbs_ClusterName = ''db'', pbs_Method = ''pgdump'', pbs_Online = True\<rparr>\<rparr>"

definition demo_backup_world :: mem where
  "demo_backup_world = \<lparr>mem_objs =
     [((BackupKind, ''prod'', ''nightly''), KBackup demo_backup),
      ((ClusterKind, ''prod'', ''db''),
        KCluster (demo_cluster\<lparr>pgc_Status := (pgc_Status demo_cluster)\<lparr>pst_Phase := PhaseRunning\<rparr>\<rparr>)),
      ((JobKind, ''prod'', BackupJobName demo_backup),
        KJob ((BuildBackupJob demo_backup demo_cluster)\<lparr>job_Conditions :=
          [\<lparr>jc_Type = ''Suspended'', jc_Status = ''False''\<rparr>, \<lparr>jc_Type = ''Failed'', jc_Status = ''True''\<rparr>]\<rparr>))],
     mem_events = [], mem_clock = 100\<rparr>"

lemma demo_backup_fails:
  "map_option (\<lambda>ob. case ob of KBackup b \<Rightarrow> pbt_Phase (pgb_Status b) | _ \<Rightarrow> [])
     (mem_look (snd (Reconcile_backup mem_env ''prod'' ''nightly'' demo_backup_world)) (BackupKind, ''prod'', ''nightly'')) =
     Some ''Failed''"
  by code_simp

definition demo_backup_pending :: mem where
  "demo_backup_pending = demo_backup_world\<lparr>mem_objs := filter (\<lambda>(k, _). fst k \<noteq> JobKind) (mem_objs demo_backup_world)\<rparr>"

text \<open>C8 on a backup without a Job: the Job is created.\<close>

theorem Reconcile_backup_creates_witness:
  "let l = calls (Reconcile_backup (logged mem_env) ''prod'' ''nightly'') demo_backup_pending in
   length (filter is_create l) = 1 \<and> creates (may_create mem_env ''prod'' ''nightly'' demo_backup_pending) l"
proof -
  have "keeps_names mem_env" by (simp add: keeps_names_def mem_env_def)
  moreover have "length (filter is_create (calls (Reconcile_backup (logged mem_env) ''prod'' ''nightly'') demo_backup_pending)) = 1"
    by code_simp
  ultimately show ?thesis using Reconcile_backup_creates [of mem_env "''prod''" "''nightly''" demo_backup_pending] by simp
qed

text \<open>C2 on a backup whose Job has failed: one reconcile marks it Failed, for good.\<close>

theorem backup_lifecycle_witness:
  "\<exists>b. mem_look (snd (Reconcile_backup mem_env ''prod'' ''nightly'' demo_backup_world))
        (BackupKind, ''prod'', ''nightly'') = Some (KBackup b) \<and> pbt_Phase (pgb_Status b) = ''Failed'' \<and>
     (\<forall>w'. (bstep mem_env mem_look ''prod'' ''nightly'')\<^sup>*\<^sup>*
              (snd (Reconcile_backup mem_env ''prod'' ''nightly'' demo_backup_world)) w' \<longrightarrow>
        mem_look w' (BackupKind, ''prod'', ''nightly'') = Some (KBackup b))"
proof -
  define w1 where "w1 = snd (Reconcile_backup mem_env ''prod'' ''nightly'' demo_backup_world)"
  let ?k = "(BackupKind, ''prod'', ''nightly'')"
  have "keyed (mem_look demo_backup_world)"
    by (auto simp: keyed_def mem_look_def demo_backup_world_def key_of_def demo_backup_def demo_cluster_def
        BuildBackupJob_def Let_def PostgresCluster_zero_def PostgresBackup_zero_def ObjectMeta_zero_def)
  moreover have "mem_look demo_backup_world ?k = Some (KBackup demo_backup)"
    by (simp add: mem_look_def demo_backup_world_def)
  moreover have "\<not> terminal demo_backup" by code_simp
  moreover have "(bstep mem_env mem_look ''prod'' ''nightly'')\<^sup>*\<^sup>* demo_backup_world w1"
    unfolding w1_def by (intro r_into_rtranclp bstep.reconcile)
  ultimately obtain b where b: "mem_look w1 ?k = Some (KBackup b)"
    "terminal b \<Longrightarrow> \<forall>w'. (bstep mem_env mem_look ''prod'' ''nightly'')\<^sup>*\<^sup>* w1 w' \<longrightarrow> mem_look w' ?k = Some (KBackup b)"
    using backup_lifecycle [OF mem.quiet_env_axioms, of demo_backup_world "''prod''" "''nightly''" demo_backup w1]
    by blast
  have "pbt_Phase (pgb_Status b) = ''Failed''"
    using demo_backup_fails [folded w1_def] by (simp add: b(1))
  then have "terminal b" by (simp add: terminal_def)
  then show ?thesis unfolding w1_def [symmetric] using b \<open>pbt_Phase (pgb_Status b) = ''Failed''\<close> by blast
qed

end
