(* ===== verification/Sql_Escape.thy ===== *)
theory Sql_Escape
  imports Api_Types
begin

section \<open>SQL quoting\<close>

text \<open>
  \<open>internal/sqlescape/sqlescape.go\<close>, with the quoting rules of the SQL lexer it relies on
  as the specification: \<open>scan_quoted\<close> reads a quoted token whose quote character is doubled
  inside. The locale \<open>quoting\<close> is the contract of a quoting function (the lexer reads back exactly the
  quoted string and stops where it ends); the quoting functions of the other packages are
  interpreted as instances of it in their own theories.
\<close>

subsection \<open>Operations\<close>

definition DQ :: char where "DQ = CHR 0x22"
definition SQ :: char where "SQ = CHR 0x27"
definition NUL :: char where "NUL = CHR 0x00"

lemma quote_chars_distinct [simp]:
  "DQ \<noteq> SQ" "SQ \<noteq> DQ" "DQ \<noteq> NUL" "NUL \<noteq> DQ" "SQ \<noteq> NUL" "NUL \<noteq> SQ"
  by (simp_all add: DQ_def SQ_def NUL_def)

lemma byte_quotes [simp]: "byte DQ = 34" "byte SQ = 39" "byte NUL = 0"
  by (simp_all add: DQ_def SQ_def NUL_def)

definition Identifier :: "string \<Rightarrow> string" where
  "Identifier name =
     (if NUL \<in> set name then [DQ] @ [CHR 0x5C] @ ''x00'' @ [DQ]
      else [DQ] @ ReplaceAll name DQ [DQ, DQ] @ [DQ])"

definition StringLiteral :: "string \<Rightarrow> string" where
  "StringLiteral s = [SQ] @ ReplaceAll s SQ [SQ, SQ] @ [SQ]"

definition QualifiedIdentifier :: "string list \<Rightarrow> string" where
  "QualifiedIdentifier parts = (if parts = [] then [] else Join (map Identifier parts) ''.'')"

definition valid_rune :: "unitab \<Rightarrow> nat \<Rightarrow> bool" where
  "valid_rune u r \<longleftrightarrow>
     r \<noteq> 0 \<and> \<not> (r < 32 \<and> r \<noteq> 32) \<and> r \<noteq> 34 \<and>
     (IsLetter u r \<or> IsDigit u r \<or> r = 95 \<or> r = 36 \<or> r = 45 \<or> r = 46)"

definition IsValidIdentifier :: "unitab \<Rightarrow> string \<Rightarrow> bool" where
  "IsValidIdentifier u name \<longleftrightarrow>
     name \<noteq> [] \<and> length name \<le> 63 \<and> list_all (valid_rune u) (runes name)"

datatype sql_error = InvalidIdentifier string | ErrUnsafePassword

definition MustIdentifier :: "unitab \<Rightarrow> string \<Rightarrow> sql_error + string" where
  "MustIdentifier u name =
     (if \<not> IsValidIdentifier u name then Inl (InvalidIdentifier name) else Inr (Identifier name))"

definition AssertSafePassword :: "string \<Rightarrow> sql_error option" where
  "AssertSafePassword pw = (if NUL \<in> set pw then Some ErrUnsafePassword else None)"

subsection \<open>Reading a quoted token\<close>

fun scan_quoted :: "char \<Rightarrow> string \<Rightarrow> (string \<times> string) option" where
  "scan_quoted q [] = None"
| "scan_quoted q [c] = (if c = q then Some ([], []) else None)"
| "scan_quoted q (c # d # cs) =
     (if c = q then
        (if d = q then map_option (\<lambda>(s, rest). (q # s, rest)) (scan_quoted q cs)
         else Some ([], d # cs))
      else map_option (\<lambda>(s, rest). (c # s, rest)) (scan_quoted q (d # cs)))"

definition unquote :: "char \<Rightarrow> string \<Rightarrow> (string \<times> string) option" where
  "unquote q s = (case s of [] \<Rightarrow> None | c # cs \<Rightarrow> if c = q then scan_quoted q cs else None)"

lemma scan_quoted_other:
  "c \<noteq> q \<Longrightarrow> s \<noteq> [] \<Longrightarrow>
   scan_quoted q (c # s) = map_option (\<lambda>(x, rest). (c # x, rest)) (scan_quoted q s)"
  by (cases s) auto

lemma scan_quoted_rest:
  "scan_quoted q s = Some (x, rest) \<Longrightarrow> length rest < length s"
  by (induction q s arbitrary: x rest rule: scan_quoted.induct) (auto split: if_splits)

lemma scan_quoted_doubled:
  assumes "rest = [] \<or> hd rest \<noteq> q"
  shows "scan_quoted q (ReplaceAll s q [q, q] @ q # rest) = Some (s, rest)"
proof (induction s)
  case Nil
  show ?case using assms by (cases rest) auto
next
  case (Cons c s)
  then show ?case by (cases "c = q") (simp_all add: scan_quoted_other)
qed

subsection \<open>The contract of a quoting function\<close>

locale quoting =
  fixes q :: char and ok :: "string \<Rightarrow> bool" and quote :: "string \<Rightarrow> string"
  assumes unquote_quote:
    "ok s \<Longrightarrow> rest = [] \<or> hd rest \<noteq> q \<Longrightarrow> unquote q (quote s @ rest) = Some (s, rest)"
begin

lemma quote_append_inject:
  assumes "ok s" "ok t" "r = [] \<or> hd r \<noteq> q" "r' = [] \<or> hd r' \<noteq> q"
  shows "quote s @ r = quote t @ r' \<longleftrightarrow> s = t \<and> r = r'"
proof
  assume eq: "quote s @ r = quote t @ r'"
  have "Some (s, r) = unquote q (quote s @ r)" by (rule unquote_quote [OF assms(1,3), symmetric])
  also have "\<dots> = Some (t, r')" unfolding eq by (rule unquote_quote [OF assms(2,4)])
  finally show "s = t \<and> r = r'" by simp
qed simp

lemma quote_inject: "ok s \<Longrightarrow> ok t \<Longrightarrow> quote s = quote t \<longleftrightarrow> s = t"
  using quote_append_inject [of s t "[]" "[]"] by simp

lemma quote_nonempty:
  assumes "ok s" shows "quote s \<noteq> []"
  using unquote_quote [OF assms, of "[]"] by (simp add: unquote_def split: list.splits)

lemma quote_scan:
  assumes "ok s" "rest = [] \<or> hd rest \<noteq> q"
  obtains t where "quote s = q # t" "scan_quoted q (t @ rest) = Some (s, rest)"
proof -
  from quote_nonempty [OF assms(1)] obtain a t where qs: "quote s = a # t"
    by (cases "quote s") auto
  with unquote_quote [OF assms] have "a = q" "scan_quoted q (t @ rest) = Some (s, rest)"
    by (simp_all add: unquote_def split: if_splits)
  with qs that show thesis by simp
qed

text \<open>A list of quoted parts with a separator that does not start with the quote is read
  back part by part, so distinct lists of parts have distinct renderings.\<close>

lemma Join_quote_inject:
  assumes sep: "sep \<noteq> []" "hd sep \<noteq> q"
  shows "list_all ok xs \<Longrightarrow> list_all ok ys \<Longrightarrow> Join (map quote xs) sep = Join (map quote ys) sep \<Longrightarrow> xs = ys"
proof (induction xs arbitrary: ys)
  case Nil
  then show ?case by (cases ys) (auto simp: Join_Cons dest: quote_nonempty)
next
  case (Cons x xs)
  define r where "r zs = (if zs = [] then [] else sep @ Join (map quote zs) sep)" for zs
  have r: "r zs = [] \<or> hd (r zs) \<noteq> q" for zs using sep by (simp add: r_def)
  from Cons.prems obtain y ys' where ys: "ys = y # ys'"
    by (cases ys) (auto simp: Join_Cons dest: quote_nonempty)
  from Cons.prems have "quote x @ r xs = quote y @ r ys'"
    by (simp add: ys Join_Cons r_def)
  then have eq: "x = y" "r xs = r ys'"
    using Cons.prems quote_append_inject [OF _ _ r r] by (simp_all add: ys)
  have "xs = ys'"
  proof (cases "xs = [] \<or> ys' = []")
    case True
    with eq(2) sep show ?thesis by (auto simp: r_def split: if_splits)
  next
    case False
    with eq(2) have "Join (map quote xs) sep = Join (map quote ys') sep" by (simp add: r_def)
    with Cons.IH Cons.prems ys show ?thesis by simp
  qed
  with eq ys show ?case by simp
qed

end

interpretation strlit: quoting SQ "\<lambda>_. True" StringLiteral
  by unfold_locales (simp add: unquote_def StringLiteral_def scan_quoted_doubled)

interpretation ident: quoting DQ "\<lambda>s. NUL \<notin> set s" Identifier
  by unfold_locales (simp add: unquote_def Identifier_def scan_quoted_doubled)

subsection \<open>Validation\<close>

lemma valid_rune_small:
  "valid_rune u r \<Longrightarrow> r < 128 \<Longrightarrow>
   48 \<le> r \<and> r \<le> 57 \<or> 65 \<le> r \<and> r \<le> 90 \<or> 97 \<le> r \<and> r \<le> 122 \<or> r \<in> {36, 45, 46, 95}"
  by (auto simp: valid_rune_def IsLetter_def IsDigit_def)

lemma valid_identifier_bytes:
  assumes "IsValidIdentifier u name" "c \<in> set name" "byte c < 128"
  shows "48 \<le> byte c \<and> byte c \<le> 57 \<or> 65 \<le> byte c \<and> byte c \<le> 90 \<or>
         97 \<le> byte c \<and> byte c \<le> 122 \<or> byte c \<in> {36, 45, 46, 95}"
proof (rule valid_rune_small)
  from assms(2,3) have "byte c \<in> set (runes name)" by (rule runes_small)
  with assms(1) show "valid_rune u (byte c)" by (auto simp: IsValidIdentifier_def list_all_iff)
qed (rule assms(3))

lemma valid_identifier_safe:
  assumes "IsValidIdentifier u name"
  shows "NUL \<notin> set name" "DQ \<notin> set name" "SQ \<notin> set name"
  using valid_identifier_bytes [OF assms, of NUL] valid_identifier_bytes [OF assms, of DQ]
        valid_identifier_bytes [OF assms, of SQ] by auto

lemma Identifier_valid: "IsValidIdentifier u name \<Longrightarrow> Identifier name = [DQ] @ name @ [DQ]"
  by (simp add: Identifier_def valid_identifier_safe)

end
