(* ===== verification/User_Sql.thy ===== *)
theory User_Sql
  imports Sql_Escape
begin

section \<open>The SQL of the user controller\<close>

text \<open>
  \<open>buildUserSQL\<close>, \<open>isValidPrivilege\<close> and \<open>redactPassword\<close> of
  \<open>internal/controller/postgresuser_controller.go\<close>, and \<open>internal/userstate/userstate.go\<close>. The
  specification is a lexer for the part of the SQL grammar the texts use (quoted identifiers, string
  literals, dollar quoting): the text is shown to lex into a fixed frame of keywords in which every
  string of the custom resource is the contents of one single token.
\<close>

subsection \<open>buildUserSQL\<close>

abbreviation NL :: char where "NL \<equiv> CHR 0x0A"

definition valid_privileges :: "string list" where
  "valid_privileges = [''SELECT'', ''INSERT'', ''UPDATE'', ''DELETE'', ''TRUNCATE'', ''REFERENCES'',
     ''TRIGGER'', ''USAGE'', ''CREATE'', ''CONNECT'', ''TEMPORARY'', ''TEMP'', ''EXECUTE'', ''ALL'',
     ''ALL PRIVILEGES'']"

definition isValidPrivilege :: "unitab \<Rightarrow> string \<Rightarrow> bool" where
  "isValidPrivilege u p \<longleftrightarrow> ToUpper u p \<in> set valid_privileges"

definition passwordClause :: "string \<Rightarrow> string" where
  "passwordClause password =
     (if password \<noteq> [] then '' PASSWORD '' @ StringLiteral password else [])"

definition connLimit :: "PostgresUserSpec \<Rightarrow> int" where
  "connLimit spec = (if pus_ConnectionLimit spec = 0 then - 1 else pus_ConnectionLimit spec)"

definition grantRole :: "unitab \<Rightarrow> string \<Rightarrow> string \<Rightarrow> string" where
  "grantRole u name role =
     (if \<not> IsValidIdentifier u role then []
      else ''GRANT '' @ Identifier role @ '' TO '' @ name @ '';'' @ [NL])"

definition grantPriv :: "unitab \<Rightarrow> string \<Rightarrow> string \<Rightarrow> string" where
  "grantPriv u name priv =
     (if \<not> isValidPrivilege u priv then []
      else ''GRANT '' @ priv @ '' ON ALL TABLES IN SCHEMA public TO '' @ name @ '';'' @ [NL])"

definition grantDatabase :: "unitab \<Rightarrow> string \<Rightarrow> DatabaseGrant \<Rightarrow> string" where
  "grantDatabase u name g =
     (if \<not> IsValidIdentifier u (dg_Name g) then []
      else ''GRANT CONNECT ON DATABASE '' @ Identifier (dg_Name g) @ '' TO '' @ name @ '';'' @ [NL] @
           concat (map (grantPriv u name) (dg_Privileges g)))"

definition buildUserSQL :: "unitab \<Rightarrow> PostgresUser \<Rightarrow> string \<Rightarrow> string" where
  "buildUserSQL u user password =
     (if \<not> IsValidIdentifier u (om_Name (pgu_meta user)) then []
      else if AssertSafePassword password \<noteq> None then []
      else
       let name = Identifier (om_Name (pgu_meta user));
           rolname = StringLiteral (om_Name (pgu_meta user));
           spec = pgu_Spec user
       in ''DO $$ BEGIN IF NOT EXISTS (SELECT FROM pg_roles WHERE rolname = '' @ rolname @
          '') THEN CREATE ROLE '' @ name @ '' WITH LOGIN'' @
          (if pus_Superuser spec then '' SUPERUSER'' else []) @
          '' CONNECTION LIMIT '' @ dec (connLimit spec) @ passwordClause password @
          ''; END IF; END $$;'' @ [NL] @
          ''ALTER ROLE '' @ name @
          (if pus_Superuser spec then '' SUPERUSER'' else '' NOSUPERUSER'') @
          '' CONNECTION LIMIT '' @ dec (connLimit spec) @ passwordClause password @ '';'' @ [NL] @
          concat (map (grantRole u name) (pus_Roles spec)) @
          concat (map (grantDatabase u name) (pus_Databases spec)))"

subsection \<open>A lexer for the texts\<close>

datatype sqltok = TIdent string | TStr string | TDollar string | TChar char

fun scan_dollar :: "string \<Rightarrow> (string \<times> string) option" where
  "scan_dollar (c # d # cs) =
     (if c = CHR ''$'' \<and> d = CHR ''$'' then Some ([], cs)
      else map_option (\<lambda>(b, rest). (c # b, rest)) (scan_dollar (d # cs)))"
| "scan_dollar _ = None"

lemma scan_dollar_rest: "scan_dollar s = Some (b, rest) \<Longrightarrow> length rest < length s"
  by (induction s arbitrary: b rest rule: scan_dollar.induct) (auto split: if_splits)

function sql_lex :: "string \<Rightarrow> sqltok list option" where
  "sql_lex s =
     (case s of [] \<Rightarrow> Some []
      | c # cs \<Rightarrow>
         (if c = DQ then
            (case scan_quoted DQ cs of None \<Rightarrow> None
             | Some (x, rest) \<Rightarrow> map_option (\<lambda>ts. TIdent x # ts) (sql_lex rest))
          else if c = SQ then
            (case scan_quoted SQ cs of None \<Rightarrow> None
             | Some (x, rest) \<Rightarrow> map_option (\<lambda>ts. TStr x # ts) (sql_lex rest))
          else if c = CHR ''$'' \<and> cs \<noteq> [] \<and> hd cs = CHR ''$'' then
            (case scan_dollar (tl cs) of None \<Rightarrow> None
             | Some (x, rest) \<Rightarrow> map_option (\<lambda>ts. TDollar x # ts) (sql_lex rest))
          else map_option (\<lambda>ts. TChar c # ts) (sql_lex cs)))"
  by pat_completeness auto
termination
  by (relation "measure length") (auto dest!: scan_quoted_rest scan_dollar_rest)

declare sql_lex.simps [simp del]

lemma sql_lex_Nil [simp]: "sql_lex [] = Some []"
  by (simp add: sql_lex.simps)

lemmas sql_lex_Cons = sql_lex.simps [of "c # cs" for c cs, unfolded list.case]

text \<open>Characters that start no quoted token lex to themselves.\<close>

definition plain :: "string \<Rightarrow> bool" where
  "plain s \<longleftrightarrow> DQ \<notin> set s \<and> SQ \<notin> set s \<and> CHR ''$'' \<notin> set s"

lemma plain_simps [simp]:
  "plain []" "plain (a @ b) \<longleftrightarrow> plain a \<and> plain b"
  "plain (c # s) \<longleftrightarrow> c \<noteq> DQ \<and> c \<noteq> SQ \<and> c \<noteq> CHR ''$'' \<and> plain s"
  by (auto simp: plain_def)

abbreviation lit :: "string \<Rightarrow> sqltok list" where "lit s \<equiv> map TChar s"

lemma lex_plain:
  "plain s \<Longrightarrow> sql_lex (s @ rest) = map_option (\<lambda>ts. lit s @ ts) (sql_lex rest)"
proof (induction s)
  case Nil
  show ?case by (cases "sql_lex rest") simp_all
next
  case (Cons c s)
  then show ?case by (cases "sql_lex rest") (simp_all add: sql_lex_Cons)
qed

lemma lex_Identifier:
  assumes "NUL \<notin> set s" "rest = [] \<or> hd rest \<noteq> DQ"
  shows "sql_lex (Identifier s @ rest) = map_option (\<lambda>ts. TIdent s # ts) (sql_lex rest)"
  by (rule ident.quote_scan [OF assms]) (simp add: sql_lex_Cons)

lemma lex_StringLiteral:
  assumes "rest = [] \<or> hd rest \<noteq> SQ"
  shows "sql_lex (StringLiteral s @ rest) = map_option (\<lambda>ts. TStr s # ts) (sql_lex rest)"
  by (rule strlit.quote_scan [OF TrueI assms, of s]) (simp add: sql_lex_Cons)

subsection \<open>Texts as segments\<close>

text \<open>A text is built from keywords (\<open>Lit\<close>), quoted identifiers and quoted strings; each quoted
  segment is followed by a keyword segment or by the end.\<close>

datatype seg = Lit string | QI string | QS string

fun render1 :: "seg \<Rightarrow> string" where
  "render1 (Lit s) = s"
| "render1 (QI s) = Identifier s"
| "render1 (QS s) = StringLiteral s"

fun tok1 :: "seg \<Rightarrow> sqltok list" where
  "tok1 (Lit s) = lit s"
| "tok1 (QI s) = [TIdent s]"
| "tok1 (QS s) = [TStr s]"

abbreviation render :: "seg list \<Rightarrow> string" where "render segs \<equiv> concat (map render1 segs)"
abbreviation toks :: "seg list \<Rightarrow> sqltok list" where "toks segs \<equiv> concat (map tok1 segs)"

fun starts_lit :: "seg list \<Rightarrow> bool" where
  "starts_lit (Lit s # _) = (s \<noteq> [])"
| "starts_lit _ = False"

fun wf_segs :: "seg list \<Rightarrow> bool" where
  "wf_segs [] = True"
| "wf_segs (Lit s # segs) = (plain s \<and> wf_segs segs)"
| "wf_segs (QI s # segs) = (NUL \<notin> set s \<and> starts_lit segs \<and> wf_segs segs)"
| "wf_segs (QS s # segs) = (starts_lit segs \<and> wf_segs segs)"

lemma starts_lit_hd:
  assumes "starts_lit segs" "wf_segs segs"
  shows "hd (render segs @ rest) \<noteq> DQ \<and> hd (render segs @ rest) \<noteq> SQ"
proof -
  from assms(1) obtain c s segs' where "segs = Lit (c # s) # segs'"
    by (cases segs rule: starts_lit.cases) (auto simp: neq_Nil_conv)
  with assms(2) show ?thesis by simp
qed

lemma lex_segs:
  "wf_segs segs \<Longrightarrow> sql_lex (render segs @ rest) = map_option (\<lambda>ts. toks segs @ ts) (sql_lex rest)"
proof (induction segs rule: wf_segs.induct)
  case 1
  show ?case by (cases "sql_lex rest") simp_all
next
  case (2 s segs)
  then show ?case by (simp add: lex_plain option.map_comp o_def)
next
  case (3 s segs)
  then show ?case
    using starts_lit_hd [of segs rest] by (simp add: lex_Identifier option.map_comp o_def)
next
  case (4 s segs)
  then show ?case
    using starts_lit_hd [of segs rest] by (simp add: lex_StringLiteral option.map_comp o_def)
qed

lemma wf_segs_append: "wf_segs a \<Longrightarrow> wf_segs b \<Longrightarrow> wf_segs (a @ b)"
proof (induction a rule: wf_segs.induct)
  case (3 s segs)
  then show ?case by (cases segs rule: starts_lit.cases) auto
next
  case (4 s segs)
  then show ?case by (cases segs rule: starts_lit.cases) auto
qed auto

lemma wf_segs_concat: "(\<And>x. x \<in> set xs \<Longrightarrow> wf_segs (f x)) \<Longrightarrow> wf_segs (concat (map f xs))"
  by (induction xs) (auto intro: wf_segs_append)

subsection \<open>Dollar quoting\<close>

fun no_dd :: "string \<Rightarrow> bool" where
  "no_dd (c # d # cs) = (\<not> (c = CHR ''$'' \<and> d = CHR ''$'') \<and> no_dd (d # cs))"
| "no_dd _ = True"

lemma no_dd_Cons: "no_dd (c # s) \<longleftrightarrow> \<not> (c = CHR ''$'' \<and> s \<noteq> [] \<and> hd s = CHR ''$'') \<and> no_dd s"
  by (cases s) auto

lemma no_dd_append:
  "b = [] \<or> hd b \<noteq> CHR ''$'' \<Longrightarrow> no_dd (a @ b) \<longleftrightarrow> no_dd a \<and> no_dd b"
  by (induction a rule: no_dd.induct) (auto simp: no_dd_Cons)

lemma no_dd_no_dollar: "CHR ''$'' \<notin> set s \<Longrightarrow> no_dd s"
  by (induction s rule: no_dd.induct) auto

lemma no_dd_ReplaceAll:
  "q \<noteq> CHR ''$'' \<Longrightarrow> no_dd s \<Longrightarrow> no_dd (ReplaceAll s q [q, q])"
proof (induction s)
  case (Cons c s)
  then have "no_dd (ReplaceAll s q [q, q])" by (simp add: no_dd_Cons)
  with Cons.prems show ?case
    by (cases s) (auto simp: no_dd_Cons)
qed simp

lemma scan_dollar_body:
  "no_dd b \<Longrightarrow> b = [] \<or> last b \<noteq> CHR ''$'' \<Longrightarrow>
   scan_dollar (b @ CHR ''$'' # CHR ''$'' # rest) = Some (b, rest)"
proof (induction b rule: no_dd.induct)
  case (1 c d cs)
  then show ?case by (auto split: if_splits)
qed auto

lemma lex_dollar:
  assumes "no_dd b" "b = [] \<or> last b \<noteq> CHR ''$''"
  shows "sql_lex (CHR ''$'' # CHR ''$'' # b @ CHR ''$'' # CHR ''$'' # rest) =
         map_option (\<lambda>ts. TDollar b # ts) (sql_lex rest)"
  by (subst sql_lex.simps) (simp add: scan_dollar_body [OF assms] DQ_def SQ_def)

subsection \<open>Privileges\<close>

text \<open>A privilege is interpolated as it is, only its upper-case form is compared. No special
  character survives the comparison, whatever the case tables are.\<close>

lemma ToUpper_ascii:
  assumes "c \<in> set p" "byte c < 128" "\<not> (97 \<le> byte c \<and> byte c \<le> 122)"
  shows "c \<in> set (ToUpper u p)"
proof -
  from assms(1,2) have "byte c \<in> set (runes p)" by (rule runes_small)
  moreover have "EncodeRune (rune_upper u (byte c)) = [c]"
    using assms(2,3) by (cases "97 \<le> byte c") (simp_all add: rune_upper_def EncodeRune_def)
  ultimately show ?thesis
    by (auto simp: ToUpper_def intro!: bexI [of _ "byte c"])
qed

lemma valid_privilege_plain:
  assumes "isValidPrivilege u p"
  shows "plain p" "p \<noteq> []" "CHR '';'' \<notin> set p"
proof -
  have chars: "DQ \<notin> set w \<and> SQ \<notin> set w \<and> CHR ''$'' \<notin> set w \<and> CHR '';'' \<notin> set w"
    if "w \<in> set valid_privileges" for w
    using that by (auto simp: valid_privileges_def DQ_def SQ_def)
  from assms have w: "ToUpper u p \<in> set valid_privileges" by (simp add: isValidPrivilege_def)
  show "plain p" "CHR '';'' \<notin> set p"
    using chars [OF w] ToUpper_ascii [of DQ p u] ToUpper_ascii [of SQ p u]
      ToUpper_ascii [of "CHR ''$''" p u] ToUpper_ascii [of "CHR '';''" p u]
    by (auto simp: plain_def)
  show "p \<noteq> []"
  proof
    assume "p = []"
    then have "ToUpper u p = []" by (simp add: ToUpper_def)
    with w show False by (simp add: valid_privileges_def)
  qed
qed

lemma plain_dec: "plain (dec n)" "dec n \<noteq> []" "CHR '';'' \<notin> set (dec n)"
  using dec_nat_digits [of "nat n"] dec_nat_digits [of "nat (- n)"]
  by (auto simp: dec_def plain_def DQ_def SQ_def list_all_iff is_digit_def)

subsection \<open>The text as segments\<close>

definition password_segs :: "string \<Rightarrow> seg list" where
  "password_segs pw = (if pw \<noteq> [] then [Lit '' PASSWORD '', QS pw] else [])"

definition create_segs :: "PostgresUser \<Rightarrow> string \<Rightarrow> seg list" where
  "create_segs user pw =
     [Lit '' BEGIN IF NOT EXISTS (SELECT FROM pg_roles WHERE rolname = '', QS (om_Name (pgu_meta user)),
      Lit '') THEN CREATE ROLE '', QI (om_Name (pgu_meta user)), Lit '' WITH LOGIN'',
      Lit (if pus_Superuser (pgu_Spec user) then '' SUPERUSER'' else []), Lit '' CONNECTION LIMIT '',
      Lit (dec (connLimit (pgu_Spec user)))] @ password_segs pw @ [Lit ''; END IF; END '']"

definition alter_segs :: "PostgresUser \<Rightarrow> string \<Rightarrow> seg list" where
  "alter_segs user pw =
     [Lit (CHR '';'' # [NL]), Lit ''ALTER ROLE '', QI (om_Name (pgu_meta user)),
      Lit (if pus_Superuser (pgu_Spec user) then '' SUPERUSER'' else '' NOSUPERUSER''),
      Lit '' CONNECTION LIMIT '', Lit (dec (connLimit (pgu_Spec user)))] @ password_segs pw @
     [Lit (CHR '';'' # [NL])]"

definition role_segs :: "unitab \<Rightarrow> PostgresUser \<Rightarrow> string \<Rightarrow> seg list" where
  "role_segs u user role =
     (if \<not> IsValidIdentifier u role then []
      else [Lit ''GRANT '', QI role, Lit '' TO '', QI (om_Name (pgu_meta user)), Lit (CHR '';'' # [NL])])"

definition priv_segs :: "unitab \<Rightarrow> PostgresUser \<Rightarrow> string \<Rightarrow> seg list" where
  "priv_segs u user priv =
     (if \<not> isValidPrivilege u priv then []
      else [Lit ''GRANT '', Lit priv, Lit '' ON ALL TABLES IN SCHEMA public TO '',
            QI (om_Name (pgu_meta user)), Lit (CHR '';'' # [NL])])"

definition database_segs :: "unitab \<Rightarrow> PostgresUser \<Rightarrow> DatabaseGrant \<Rightarrow> seg list" where
  "database_segs u user g =
     (if \<not> IsValidIdentifier u (dg_Name g) then []
      else [Lit ''GRANT CONNECT ON DATABASE '', QI (dg_Name g), Lit '' TO '',
            QI (om_Name (pgu_meta user)), Lit (CHR '';'' # [NL])] @
           concat (map (priv_segs u user) (dg_Privileges g)))"

definition grant_segs :: "unitab \<Rightarrow> PostgresUser \<Rightarrow> seg list" where
  "grant_segs u user =
     concat (map (role_segs u user) (pus_Roles (pgu_Spec user))) @
     concat (map (database_segs u user) (pus_Databases (pgu_Spec user)))"

lemma render_concat: "render (concat (map f xs)) = concat (map (\<lambda>x. render (f x)) xs)"
  by (induction xs) simp_all

lemma render_password: "render (password_segs pw) = passwordClause pw"
  by (simp add: password_segs_def passwordClause_def)

lemma render_role: "render (role_segs u user r) = grantRole u (Identifier (om_Name (pgu_meta user))) r"
  by (simp add: role_segs_def grantRole_def)

lemma render_priv: "render (priv_segs u user p) = grantPriv u (Identifier (om_Name (pgu_meta user))) p"
  by (simp add: priv_segs_def grantPriv_def)

lemma render_database:
  "render (database_segs u user g) = grantDatabase u (Identifier (om_Name (pgu_meta user))) g"
  by (simp add: database_segs_def grantDatabase_def render_concat render_priv)

lemma buildUserSQL_segs:
  assumes "IsValidIdentifier u (om_Name (pgu_meta user))" "NUL \<notin> set pw"
  shows "buildUserSQL u user pw =
    render [Lit ''DO ''] @ CHR ''$'' # CHR ''$'' # render (create_segs user pw) @
    CHR ''$'' # CHR ''$'' # render (alter_segs user pw @ grant_segs u user)"
  using assms
  by (simp add: buildUserSQL_def AssertSafePassword_def Let_def create_segs_def alter_segs_def
      grant_segs_def render_concat render_password render_role render_database)

lemma plain_keywords [simp]:
  "DQ \<noteq> CHR '' ''" "SQ \<noteq> CHR '' ''"
  by (simp_all add: DQ_def SQ_def)

lemma wf_password [simp]: "starts_lit segs \<Longrightarrow> wf_segs segs \<Longrightarrow> wf_segs (password_segs pw @ segs)"
  by (simp add: password_segs_def DQ_def SQ_def)

lemma starts_password [simp]: "starts_lit segs \<Longrightarrow> starts_lit (password_segs pw @ segs)"
  by (simp add: password_segs_def)

lemma wf_user_segs:
  assumes "IsValidIdentifier u (om_Name (pgu_meta user))"
  shows "wf_segs (create_segs user pw)" "wf_segs (alter_segs user pw)" "wf_segs (grant_segs u user)"
proof -
  note nul = valid_identifier_safe(1)
  show "wf_segs (create_segs user pw)" "wf_segs (alter_segs user pw)"
    using nul [OF assms]
    by (simp_all add: create_segs_def alter_segs_def DQ_def SQ_def plain_dec)
  have r: "wf_segs (role_segs u user r)" for r
    using nul [OF assms] nul [of u r] by (simp add: role_segs_def DQ_def SQ_def)
  have p: "wf_segs (priv_segs u user p)" for p
    using nul [OF assms] valid_privilege_plain [of u p] by (simp add: priv_segs_def DQ_def SQ_def)
  have d: "wf_segs (database_segs u user g)" for g
    using nul [OF assms] nul [of u "dg_Name g"] p
    by (auto simp: database_segs_def DQ_def SQ_def intro!: wf_segs_concat)
  show "wf_segs (grant_segs u user)"
    unfolding grant_segs_def by (intro wf_segs_append wf_segs_concat r d)
qed

text \<open>The dollar-quoted body: no delimiter inside, unless the name or the password brings one.\<close>

lemma no_dd_seg_append:
  "no_dd a \<Longrightarrow> no_dd b \<Longrightarrow> b = [] \<or> hd b \<noteq> CHR ''$'' \<Longrightarrow> no_dd (a @ b)"
  by (simp add: no_dd_append)

lemma no_dd_StringLiteral: "no_dd s \<Longrightarrow> no_dd (StringLiteral s @ t) \<longleftrightarrow> no_dd (SQ # t)"
proof -
  assume "no_dd s"
  then have "no_dd (ReplaceAll s SQ [SQ, SQ])" by (simp add: no_dd_ReplaceAll SQ_def)
  then have "no_dd ((SQ # ReplaceAll s SQ [SQ, SQ]) @ SQ # t) \<longleftrightarrow> no_dd (SQ # t)"
    by (subst no_dd_append) (simp_all add: no_dd_Cons SQ_def)
  then show ?thesis by (simp add: StringLiteral_def)
qed

lemma no_dd_Identifier:
  "IsValidIdentifier u s \<Longrightarrow> no_dd s \<Longrightarrow> no_dd (Identifier s @ t) \<longleftrightarrow> no_dd (DQ # t)"
proof -
  assume s: "IsValidIdentifier u s" "no_dd s"
  then have "no_dd ((DQ # s) @ DQ # t) \<longleftrightarrow> no_dd (DQ # t)"
    by (subst no_dd_append) (simp_all add: no_dd_Cons DQ_def)
  with s show ?thesis by (simp add: Identifier_valid)
qed

lemma no_dd_dec: "no_dd (dec n @ t) \<longleftrightarrow> no_dd t" if "t = [] \<or> hd t \<noteq> CHR ''$''"
  using that plain_dec [of n] by (simp add: no_dd_append no_dd_no_dollar plain_def)

lemma create_no_dd:
  assumes "IsValidIdentifier u (om_Name (pgu_meta user))" "no_dd (om_Name (pgu_meta user))" "no_dd pw"
  shows "no_dd (render (create_segs user pw))" "last (render (create_segs user pw)) \<noteq> CHR ''$''"
  using assms
  by (simp_all add: create_segs_def password_segs_def no_dd_Cons no_dd_StringLiteral
      no_dd_Identifier no_dd_dec DQ_def [symmetric] SQ_def [symmetric] last_append)

text \<open>The part of the body before the password.\<close>

definition create_head :: "PostgresUser \<Rightarrow> seg list" where
  "create_head user =
     [Lit '' BEGIN IF NOT EXISTS (SELECT FROM pg_roles WHERE rolname = '', QS (om_Name (pgu_meta user)),
      Lit '') THEN CREATE ROLE '', QI (om_Name (pgu_meta user)), Lit '' WITH LOGIN'',
      Lit (if pus_Superuser (pgu_Spec user) then '' SUPERUSER'' else []), Lit '' CONNECTION LIMIT '',
      Lit (dec (connLimit (pgu_Spec user)))]"

lemma create_segs_head:
  "create_segs user pw = create_head user @ password_segs pw @ [Lit ''; END IF; END '']"
  by (simp add: create_segs_def create_head_def)

lemma create_head_no_dd:
  "IsValidIdentifier u (om_Name (pgu_meta user)) \<Longrightarrow> no_dd (om_Name (pgu_meta user)) \<Longrightarrow>
   t = [] \<or> hd t \<noteq> CHR ''$'' \<Longrightarrow> no_dd (render (create_head user) @ t) \<longleftrightarrow> no_dd t"
  by (simp add: create_head_def no_dd_Cons no_dd_StringLiteral
      no_dd_Identifier no_dd_dec DQ_def [symmetric] SQ_def [symmetric])

lemma last_ReplaceAll_dollar:
  "a \<noteq> [] \<Longrightarrow> last a \<noteq> CHR ''$'' \<Longrightarrow>
   ReplaceAll a SQ [SQ, SQ] \<noteq> [] \<and> last (ReplaceAll a SQ [SQ, SQ]) \<noteq> CHR ''$''"
  by (induction a rule: rev_induct) (simp_all add: SQ_def)

definition semis :: "sqltok list \<Rightarrow> nat" where
  "semis ts = length (filter ((=) (TChar CHR '';'')) ts)"

lemma semis_append [simp]: "semis (a @ b) = semis a + semis b"
  by (simp add: semis_def)

lemma semis_Cons [simp]: "semis (t # ts) = (if t = TChar CHR '';'' then 1 else 0) + semis ts"
  by (simp add: semis_def)

lemma semis_Nil [simp]: "semis [] = 0"
  by (simp add: semis_def)

lemma semis_lit: "CHR '';'' \<notin> set s \<Longrightarrow> semis (lit s) = 0"
  by (auto simp: semis_def filter_empty_conv)

lemma semis_password [simp]: "semis (toks (password_segs pw)) = 0"
  by (simp add: password_segs_def)

lemma semis_grants:
  "semis (toks (grant_segs u user)) =
     length (filter (IsValidIdentifier u) (pus_Roles (pgu_Spec user))) +
     sum_list (map (\<lambda>g. if IsValidIdentifier u (dg_Name g)
                        then 1 + length (filter (isValidPrivilege u) (dg_Privileges g)) else 0)
                (pus_Databases (pgu_Spec user)))"
proof -
  have r: "semis (toks (role_segs u user r)) = (if IsValidIdentifier u r then 1 else 0)" for r
    by (simp add: role_segs_def)
  have p: "semis (toks (priv_segs u user p)) = (if isValidPrivilege u p then 1 else 0)" for p
    using valid_privilege_plain(3) [of u p] by (simp add: priv_segs_def semis_lit)
  have privs: "semis (toks (concat (map (priv_segs u user) ps))) =
      length (filter (isValidPrivilege u) ps)" for ps
    by (induction ps) (simp_all add: p)
  have d: "semis (toks (database_segs u user g)) = (if IsValidIdentifier u (dg_Name g)
      then 1 + length (filter (isValidPrivilege u) (dg_Privileges g)) else 0)" for g
    using privs [of "dg_Privileges g"] by (simp add: database_segs_def)
  have "semis (toks (concat (map (role_segs u user) rs))) =
      length (filter (IsValidIdentifier u) rs)" for rs
    by (induction rs) (simp_all add: r)
  moreover have "semis (toks (concat (map (database_segs u user) gs))) =
      sum_list (map (\<lambda>g. if IsValidIdentifier u (dg_Name g)
        then 1 + length (filter (isValidPrivilege u) (dg_Privileges g)) else 0) gs)" for gs
    by (induction gs) (simp_all add: d)
  ultimately show ?thesis by (simp add: grant_segs_def)
qed

subsection \<open>Properties\<close>

text \<open>
  C7. No injection. For a valid user name and a password, neither containing two dollar signs in
  a row, the text of \<open>buildUserSQL\<close> lexes to a DO statement whose dollar-quoted body is the intended one,
  followed by the intended ALTER and GRANT tokens: each name and the password is the contents of a
  single quoted token, also inside the body. The text has one statement for DO, one for ALTER, one
  per valid role and per valid database, and one per valid privilege of a valid database.
\<close>

theorem buildUserSQL_tokens:
  assumes "IsValidIdentifier u (om_Name (pgu_meta user))" "no_dd (om_Name (pgu_meta user))"
    and "NUL \<notin> set pw" "no_dd pw"
  shows "\<exists>ts. sql_lex (buildUserSQL u user pw) = Some ts \<and>
           ts = lit ''DO '' @ [TDollar (render (create_segs user pw))] @
                toks (alter_segs user pw) @ toks (grant_segs u user) \<and>
           sql_lex (render (create_segs user pw)) = Some (toks (create_segs user pw)) \<and>
           semis ts = 2 + length (filter (IsValidIdentifier u) (pus_Roles (pgu_Spec user))) +
             sum_list (map (\<lambda>g. if IsValidIdentifier u (dg_Name g)
                                then 1 + length (filter (isValidPrivilege u) (dg_Privileges g)) else 0)
                        (pus_Databases (pgu_Spec user)))"
proof -
  let ?rest = "alter_segs user pw @ grant_segs u user"
  let ?body = "render (create_segs user pw)"
  have wf: "wf_segs [Lit ''DO '']" "wf_segs ?rest"
    by (simp add: DQ_def SQ_def) (intro wf_segs_append wf_user_segs [OF assms(1)])
  have "sql_lex (CHR ''$'' # CHR ''$'' # ?body @ CHR ''$'' # CHR ''$'' # render ?rest) =
      Some (TDollar ?body # toks ?rest)"
    using lex_dollar [OF create_no_dd(1) [OF assms(1,2,4)]] create_no_dd(2) [OF assms(1,2,4)]
      lex_segs [OF wf(2), of "[]"] by simp
  then have lex: "sql_lex (buildUserSQL u user pw) = Some (lit ''DO '' @ [TDollar ?body] @
      toks (alter_segs user pw) @ toks (grant_segs u user))"
    unfolding buildUserSQL_segs [OF assms(1,3)] lex_segs [OF wf(1)] by simp
  have "semis (toks (alter_segs user pw)) = 2"
    using plain_dec(3) by (simp add: alter_segs_def semis_lit)
  moreover have "sql_lex (render (create_segs user pw)) = Some (toks (create_segs user pw))"
    using lex_segs [OF wf_user_segs(1) [OF assms(1)], of pw "[]"] by simp
  ultimately show ?thesis using lex by (simp add: semis_grants)
qed

definition demo_user :: PostgresUser where
  "demo_user = PostgresUser_zero\<lparr>
     pgu_meta := ObjectMeta_zero\<lparr>om_Name := ''app''\<rparr>,
     pgu_Spec := (pgu_Spec PostgresUser_zero)\<lparr>
       pus_Roles := [''readers'', ''no role; DROP''],
       pus_Databases := [\<lparr>dg_Name = ''orders'', dg_Privileges = [''select'', ''ALL; DROP'']\<rparr>]\<rparr>\<rparr>"

lemma demo_user_name: "om_Name (pgu_meta demo_user) = ''app''"
  by (simp add: demo_user_def PostgresUser_zero_def ObjectMeta_zero_def)

text \<open>C7 for a user with one valid and one invalid role and privilege, and a password with a quote.\<close>

theorem buildUserSQL_tokens_witness:
  "\<exists>ts. sql_lex (buildUserSQL ascii_tab demo_user (CHR ''a'' # SQ # ''b'')) = Some ts \<and> semis ts = 5"
proof -
  have v: "IsValidIdentifier ascii_tab (om_Name (pgu_meta demo_user))"
    "no_dd (om_Name (pgu_meta demo_user))" "NUL \<notin> set (CHR ''a'' # SQ # ''b'')"
    "no_dd (CHR ''a'' # SQ # ''b'')"
    unfolding demo_user_name by code_simp+
  have "length (filter (IsValidIdentifier ascii_tab) (pus_Roles (pgu_Spec demo_user))) = 1"
    by code_simp
  moreover have "sum_list (map (\<lambda>g. if IsValidIdentifier ascii_tab (dg_Name g)
      then 1 + length (filter (isValidPrivilege ascii_tab) (dg_Privileges g)) else 0)
      (pus_Databases (pgu_Spec demo_user))) = 2"
    by code_simp
  ultimately show ?thesis
    using buildUserSQL_tokens [OF v] by auto
qed

text \<open>
  C39. A password that contains two dollar signs ends the dollar-quoted body of the DO statement
  inside the password literal: for every such password the text after them is outside the body.
  \<open>AssertSafePassword\<close> accepts these passwords.
\<close>

theorem buildUserSQL_dollar_breakout:
  assumes "IsValidIdentifier u (om_Name (pgu_meta user))" "no_dd (om_Name (pgu_meta user))"
    and "NUL \<notin> set (a @ ''$$'' @ b)" "no_dd a" "a = [] \<or> last a \<noteq> CHR ''$''"
  shows "\<exists>body rest. buildUserSQL u user (a @ ''$$'' @ b) =
             ''DO $$'' @ body @ ''$$'' @ ReplaceAll b SQ [SQ, SQ] @ rest \<and>
           scan_dollar (drop 5 (buildUserSQL u user (a @ ''$$'' @ b))) =
             Some (body, ReplaceAll b SQ [SQ, SQ] @ rest)"
proof -
  let ?ra = "ReplaceAll a SQ [SQ, SQ]" and ?head = "render (create_head user)"
  let ?body = "?head @ '' PASSWORD '' @ SQ # ?ra"
  obtain rest where sql: "buildUserSQL u user (a @ ''$$'' @ b) =
      ''DO $$'' @ ?body @ ''$$'' @ ReplaceAll b SQ [SQ, SQ] @ rest"
    unfolding buildUserSQL_segs [OF assms(1,3)]
    by (simp add: create_segs_head password_segs_def StringLiteral_def SQ_def)
  have "no_dd ?ra" using assms(4) by (simp add: no_dd_ReplaceAll SQ_def)
  then have "no_dd (SQ # ?ra)" by (simp add: no_dd_Cons SQ_def)
  then have "no_dd ?body" using assms(1,2) by (simp add: create_head_no_dd no_dd_Cons)
  moreover have "last ?body \<noteq> CHR ''$''"
    using assms(5) last_ReplaceAll_dollar [of a] by (cases "a = []") (simp_all add: SQ_def last_append)
  ultimately have "scan_dollar (?body @ ''$$'' @ ReplaceAll b SQ [SQ, SQ] @ rest) =
      Some (?body, ReplaceAll b SQ [SQ, SQ] @ rest)"
    using scan_dollar_body [of ?body] by simp
  with sql show ?thesis by (intro exI [of _ ?body] exI [of _ rest]) simp
qed

text \<open>C39 for a password that smuggles in a statement.\<close>

theorem buildUserSQL_dollar_breakout_witness:
  "AssertSafePassword (''x'' @ ''$$'' @ ''; DROP ROLE admin; --'') = None \<and>
   (\<exists>body rest. scan_dollar (drop 5 (buildUserSQL ascii_tab demo_user
        (''x'' @ ''$$'' @ ''; DROP ROLE admin; --''))) =
      Some (body, ''; DROP ROLE admin; --'' @ rest))"
proof -
  have v: "IsValidIdentifier ascii_tab (om_Name (pgu_meta demo_user))"
    "no_dd (om_Name (pgu_meta demo_user))" "NUL \<notin> set (''x'' @ ''$$'' @ ''; DROP ROLE admin; --'')"
    "no_dd ''x''" "''x'' = [] \<or> last ''x'' \<noteq> CHR ''$''"
    unfolding demo_user_name by code_simp+
  moreover have "ReplaceAll ''; DROP ROLE admin; --'' SQ [SQ, SQ] = ''; DROP ROLE admin; --''"
    by code_simp
  ultimately show ?thesis
    using buildUserSQL_dollar_breakout [OF v] by (auto simp: AssertSafePassword_def)
qed

subsection \<open>Redaction\<close>

text \<open>
  \<open>passwordLiteralRe.ReplaceAllString\<close>: the pattern is the word PASSWORD, white space (tab, line
  feed, form feed, carriage return, space), a quote, anything up to the next quote. Matches are taken from the left,
  each position is tried in turn. \<open>match_password s\<close> is the text after a match at the head.
\<close>

definition re_space :: "char \<Rightarrow> bool" where
  "re_space c \<longleftrightarrow> c \<in> {CHR 0x09, CHR 0x0A, CHR 0x0C, CHR 0x0D, CHR 0x20}"

definition match_password :: "string \<Rightarrow> string option" where
  "match_password s =
     (if prefix ''PASSWORD'' s \<and> drop 8 s \<noteq> [] \<and> re_space (s ! 8)
      then case dropWhile re_space (drop 8 s) of
             [] \<Rightarrow> None
           | c # cs \<Rightarrow>
               (if c = SQ \<and> SQ \<in> set cs then Some (tl (dropWhile (\<lambda>d. d \<noteq> SQ) cs)) else None)
      else None)"

lemma match_password_shorter:
  assumes "match_password s = Some rest" shows "length rest < length s"
proof -
  have "length (dropWhile p xs) \<le> length xs" for p and xs :: string
    by (rule length_dropWhile_le)
  from this [of re_space "drop 8 s"] this [of "\<lambda>d. d \<noteq> SQ" "tl (dropWhile re_space (drop 8 s))"]
  show ?thesis using assms
    by (auto simp: match_password_def split: if_splits list.splits)
qed

function redactPassword :: "string \<Rightarrow> string" where
  "redactPassword s =
     (case match_password s of
        Some rest \<Rightarrow> ''PASSWORD '' @ [SQ] @ ''[REDACTED]'' @ [SQ] @ redactPassword rest
      | None \<Rightarrow> (case s of [] \<Rightarrow> [] | c # cs \<Rightarrow> c # redactPassword cs))"
  by pat_completeness auto
termination
  by (relation "measure length") (auto dest: match_password_shorter)

declare redactPassword.simps [simp del]

lemma dropWhile_not_mem: "q \<notin> set a \<Longrightarrow> dropWhile (\<lambda>d. d \<noteq> q) (a @ q # rest) = q # rest"
  by (induction a) auto

lemma match_password_clause:
  assumes "SQ \<notin> set a"
  shows "match_password (''PASSWORD '' @ SQ # a @ SQ # rest) = Some rest"
  using assms dropWhile_not_mem [OF assms, of rest]
  by (simp add: match_password_def re_space_def SQ_def)

lemma redact_clause:
  assumes "SQ \<notin> set a"
  shows "redactPassword ('' PASSWORD '' @ SQ # a @ SQ # rest) =
         '' PASSWORD '' @ SQ # ''[REDACTED]'' @ SQ # redactPassword rest"
proof -
  have "match_password ('' PASSWORD '' @ SQ # a @ SQ # rest) = None"
    by (simp add: match_password_def)
  then have "redactPassword ('' PASSWORD '' @ SQ # a @ SQ # rest) =
      CHR '' '' # redactPassword (''PASSWORD '' @ SQ # a @ SQ # rest)"
    by (subst redactPassword.simps) simp
  also have "redactPassword (''PASSWORD '' @ SQ # a @ SQ # rest) =
      ''PASSWORD '' @ [SQ] @ ''[REDACTED]'' @ [SQ] @ redactPassword rest"
    using match_password_clause [OF assms, of rest] by (subst redactPassword.simps) simp
  finally show ?thesis by simp
qed

text \<open>
  What \<open>redactPassword\<close> does to the password clause that \<open>buildUserSQL\<close> writes. A password without a
  single quote is replaced as a whole. Of a password with a quote only the part before the
  first quote is replaced: the text goes on with the rest of the literal.
\<close>

theorem redactPassword_clause:
  assumes "a \<noteq> []" "SQ \<notin> set a"
  shows "redactPassword (passwordClause a @ rest) =
           '' PASSWORD '' @ SQ # ''[REDACTED]'' @ SQ # redactPassword rest \<and>
         redactPassword (passwordClause (a @ SQ # b) @ rest) =
           '' PASSWORD '' @ SQ # ''[REDACTED]'' @ SQ #
             redactPassword (SQ # ReplaceAll b SQ [SQ, SQ] @ SQ # rest)"
  using redact_clause [OF assms(2), of rest]
    redact_clause [OF assms(2), of "SQ # ReplaceAll b SQ [SQ, SQ] @ SQ # rest"] assms
  by (simp add: passwordClause_def StringLiteral_def)

text \<open>Evaluation for the password a'b: the b stays readable.\<close>

theorem redactPassword_clause_witness:
  "redactPassword (passwordClause (''a'' @ SQ # ''b'') @ '';'') =
     '' PASSWORD '' @ SQ # ''[REDACTED]'' @ SQ # SQ # ''b'' @ SQ # '';''"
proof -
  have "redactPassword (SQ # ReplaceAll ''b'' SQ [SQ, SQ] @ SQ # '';'') = SQ # ''b'' @ SQ # '';''"
    by code_simp
  moreover have "''a'' \<noteq> []" "SQ \<notin> set ''a''" by (simp_all add: SQ_def)
  ultimately show ?thesis using redactPassword_clause [of "''a''" "'';''" "''b''"] by simp
qed

subsection \<open>userstate\<close>

record User =
  us_Name :: string
  us_Password :: string
  us_Superuser :: bool
  us_ConnectionLimit :: int
  us_Roles :: "string list"
  us_GrantsByDatabase :: "(string, string list) gomap"

datatype plan_error =
    NameRequired | InvalidUserName string | UnsafePassword | InvalidRole string
  | InvalidDatabase string | InvalidPrivilege string

definition sorted_copy :: "string list \<Rightarrow> string list" where
  "sorted_copy items = sort items"

definition sortedKeys :: "(string, string list) gomap \<Rightarrow> string list" where
  "sortedKeys m = sort (keys m)"

fun plan_roles :: "unitab \<Rightarrow> string \<Rightarrow> string list \<Rightarrow> plan_error + string list" where
  "plan_roles u name [] = Inr []"
| "plan_roles u name (role # roles) =
     (if \<not> IsValidIdentifier u role then Inl (InvalidRole role)
      else case plan_roles u name roles of
             Inl e \<Rightarrow> Inl e
           | Inr ss \<Rightarrow> Inr ((''GRANT '' @ Identifier role @ '' TO '' @ name) # ss))"

fun plan_privs :: "unitab \<Rightarrow> string \<Rightarrow> string \<Rightarrow> string list \<Rightarrow> plan_error + string list" where
  "plan_privs u name db [] = Inr []"
| "plan_privs u name db (g # gs) =
     (if \<not> IsValidIdentifier u g then Inl (InvalidPrivilege g)
      else case plan_privs u name db gs of
             Inl e \<Rightarrow> Inl e
           | Inr ss \<Rightarrow> Inr ((''GRANT '' @ g @ '' ON DATABASE '' @ db @ '' TO '' @ name) # ss))"

fun plan_dbs ::
  "unitab \<Rightarrow> string \<Rightarrow> (string, string list) gomap \<Rightarrow> string list \<Rightarrow> plan_error + string list" where
  "plan_dbs u name m [] = Inr []"
| "plan_dbs u name m (db # dbs) =
     (if \<not> IsValidIdentifier u db then Inl (InvalidDatabase db)
      else case plan_privs u name (Identifier db) (sorted_copy (mapidx m db)) of
             Inl e \<Rightarrow> Inl e
           | Inr ss \<Rightarrow> (case plan_dbs u name m dbs of Inl e \<Rightarrow> Inl e | Inr ss' \<Rightarrow> Inr (ss @ ss')))"

definition userstate_Plan :: "unitab \<Rightarrow> User \<Rightarrow> bool \<Rightarrow> plan_error + string list" where
  "userstate_Plan u usr exists =
     (if us_Name usr = [] then Inl NameRequired
      else if \<not> IsValidIdentifier u (us_Name usr) then Inl (InvalidUserName (us_Name usr))
      else if AssertSafePassword (us_Password usr) \<noteq> None then Inl UnsafePassword
      else
       let name = Identifier (us_Name usr);
           stmts =
             [(if exists then ''ALTER USER'' else ''CREATE USER'') @ '' '' @ name @ '' WITH LOGIN''] @
             (if us_Password usr \<noteq> []
              then [''ALTER USER '' @ name @ '' WITH PASSWORD '' @ StringLiteral (us_Password usr)] else []) @
             [''ALTER USER '' @ name @ (if us_Superuser usr then '' SUPERUSER'' else '' NOSUPERUSER'')] @
             (if us_ConnectionLimit usr \<noteq> 0
              then [''ALTER USER '' @ name @ '' CONNECTION LIMIT '' @ dec (us_ConnectionLimit usr)] else [])
       in case plan_roles u name (sorted_copy (us_Roles usr)) of
            Inl e \<Rightarrow> Inl e
          | Inr rs \<Rightarrow>
              (case plan_dbs u name (us_GrantsByDatabase usr) (sortedKeys (us_GrantsByDatabase usr)) of
                 Inl e \<Rightarrow> Inl e | Inr ds \<Rightarrow> Inr (stmts @ rs @ ds)))"

definition PlanRevoke :: "unitab \<Rightarrow> User \<Rightarrow> string list" where
  "PlanRevoke u usr =
     (if \<not> IsValidIdentifier u (us_Name usr) then []
      else
       let name = Identifier (us_Name usr) in
       map (\<lambda>db. ''REVOKE ALL ON DATABASE '' @ Identifier db @ '' FROM '' @ name)
         (filter (IsValidIdentifier u) (sortedKeys (us_GrantsByDatabase usr))) @
       [''REASSIGN OWNED BY '' @ name @ '' TO postgres'', ''DROP OWNED BY '' @ name,
        ''DROP USER IF EXISTS '' @ name])"

lemma plan_dbs_cong: "map_of m = map_of m' \<Longrightarrow> plan_dbs u name m dbs = plan_dbs u name m' dbs"
  by (induction dbs) (simp_all add: mapidx_def cong: sum.case_cong)

lemma plan_privs_invalid:
  "p \<in> set gs \<Longrightarrow> \<not> IsValidIdentifier u p \<Longrightarrow> \<exists>e. plan_privs u name db gs = Inl e"
  by (induction gs) (auto split: sum.splits)

lemma plan_dbs_invalid:
  "db \<in> set dbs \<Longrightarrow> p \<in> set (mapidx m db) \<Longrightarrow> \<not> IsValidIdentifier u p \<Longrightarrow>
   \<exists>e. plan_dbs u name m dbs = Inl e"
proof (induction dbs)
  case (Cons d dbs)
  show ?case
  proof (cases "db = d")
    case True
    with Cons.prems plan_privs_invalid [of p "sorted_copy (mapidx m d)" u name "Identifier d"]
    show ?thesis by (auto simp: sorted_copy_def)
  next
    case False
    with Cons show ?thesis by (auto split: sum.splits)
  qed
qed simp

text \<open>
  C38. \<open>userstate.Plan\<close> is deterministic: it depends on neither the order of the role list nor the
  iteration order of the grants map.
\<close>

theorem Plan_deterministic:
  assumes "mset (us_Roles a) = mset (us_Roles b)"
    and "wf_map (us_GrantsByDatabase a)" "wf_map (us_GrantsByDatabase b)"
    and "set (us_GrantsByDatabase a) = set (us_GrantsByDatabase b)"
    and "us_Name a = us_Name b" "us_Password a = us_Password b"
    and "us_Superuser a = us_Superuser b" "us_ConnectionLimit a = us_ConnectionLimit b"
  shows "userstate_Plan u a exists = userstate_Plan u b exists"
proof -
  have "sorted_copy (us_Roles a) = sorted_copy (us_Roles b)"
    using assms(1) by (simp add: sorted_copy_def properties_for_sort)
  moreover have "sortedKeys (us_GrantsByDatabase a) = sortedKeys (us_GrantsByDatabase b)"
    using sort_keys_cong [OF assms(2-4)] by (simp add: sortedKeys_def)
  ultimately show ?thesis
    using plan_dbs_cong [OF map_of_cong_set [OF assms(2-4)]] assms(5-)
    by (simp add: userstate_Plan_def Let_def cong: sum.case_cong)
qed

text \<open>C38 for two orders of the roles and grants of one user.\<close>

theorem Plan_deterministic_witness:
  "let a = \<lparr>us_Name = ''app'', us_Password = [], us_Superuser = False, us_ConnectionLimit = 3,
            us_Roles = [''r1'', ''r2''],
            us_GrantsByDatabase = [(''d1'', [''CREATE'']), (''d2'', [''CONNECT''])]\<rparr>;
       b = a\<lparr>us_Roles := [''r2'', ''r1''],
             us_GrantsByDatabase := [(''d2'', [''CONNECT'']), (''d1'', [''CREATE''])]\<rparr>
   in userstate_Plan ascii_tab a True = userstate_Plan ascii_tab b True"
  unfolding Let_def by (rule Plan_deterministic) auto

end
