(* ===== verification/User_Controller.thy ===== *)
theory User_Controller
  imports Backup_Controller User_Sql
begin

section \<open>The user reconciler\<close>

text \<open>
  \<open>internal/controller/postgresuser_controller.go\<close>: resolve the cluster and the password, run the
  statements of \<open>buildUserSQL\<close> in the primary pod, and write the outcome to the status. The exec
  subresource of the API server is the parameter \<open>env_exec\<close>.
\<close>

subsection \<open>Operations\<close>

definition setUserCond ::
  "'w env \<Rightarrow> string \<Rightarrow> string \<Rightarrow> string \<Rightarrow> string \<Rightarrow> PostgresUser \<Rightarrow> ('w, PostgresUser) io" where
  "setUserCond env t st r m user =
     bindE (getNow env) (\<lambda>now. retE (SetUserCondition now t st r m user))"

definition setApplied :: "bool \<Rightarrow> PostgresUser \<Rightarrow> PostgresUser" where
  "setApplied a user = user\<lparr>pgu_Status := (pgu_Status user)\<lparr>put_Applied := a\<rparr>\<rparr>"

definition observeGeneration :: "PostgresUser \<Rightarrow> PostgresUser" where
  "observeGeneration user =
     user\<lparr>pgu_Status := (pgu_Status user)\<lparr>put_ObservedGeneration := om_Generation (pgu_meta user)\<rparr>\<rparr>"

definition psql :: "string \<Rightarrow> string list" where
  "psql sql = [''psql'', ''-U'', ''postgres'', ''-c'', sql]"

definition execSQL :: "'w env \<Rightarrow> string \<Rightarrow> string \<Rightarrow> string \<Rightarrow> string \<Rightarrow> ('w, unit) io" where
  "execSQL env namespace podName containerName sql =
     (case env_exec env of
        None \<Rightarrow> retE ()
      | Some x \<Rightarrow> (\<lambda>w. case x namespace podName containerName (psql sql) w of (r, w') \<Rightarrow>
          ((case r of
              ExecOk \<Rightarrow> Inr ()
            | NoClient e \<Rightarrow> Inl (Wrap ''create kubernetes client'' e)
            | NoExecutor e \<Rightarrow> Inl (Wrap ''create exec'' e)
            | StreamErr e stderr \<Rightarrow> Inl (WrapWith ''exec sql'' e (redactPassword stderr))), w')))"

definition userPassword :: "'w env \<Rightarrow> PostgresUser \<Rightarrow> ('w, string) io" where
  "userPassword env user =
     (case pus_PasswordSecret (pgu_Spec user) of
        None \<Rightarrow> retE []
      | Some s \<Rightarrow>
          bindE (wrapE ''fetch password secret''
                   (get_as asSecret env (SecretKind, om_Namespace (pgu_meta user), s)))
                (\<lambda>secret. retE (mapidx (sec_Data secret) ''password'')))"

definition reportExec :: "'w env \<Rightarrow> string \<Rightarrow> PostgresUser \<Rightarrow> err + unit \<Rightarrow> ('w, Result) io" where
  "reportExec env reqName user r =
     (case r of
       Inl e \<Rightarrow>
         bindE (setUserCond env ''Applied'' ConditionFalse ''ExecFailed'' (ErrorText (env_errtext env) e) user) (\<lambda>user.
         thenE (tryE (StatusUpdate env (KUser (observeGeneration (setApplied False user))))) (retE (res_after 30)))
     | Inr _ \<Rightarrow>
         bindE (setUserCond env ''Applied'' ConditionTrue ''UserReconciled''
                  (''User '' @ Quote (env_uni env) reqName @ '' has been reconciled'') user) (\<lambda>user.
         thenE (StatusUpdate env (KUser (observeGeneration (setApplied True user)))) (retE (res_after 60))))"

definition applyUser :: "'w env \<Rightarrow> string \<Rightarrow> PostgresUser \<Rightarrow> PostgresCluster \<Rightarrow> ('w, Result) io" where
  "applyUser env reqName user cluster =
     bindE (userPassword env user) (\<lambda>password.
     bindE (tryE (execSQL env (om_Namespace (pgc_meta cluster)) (PodName cluster 0) ''postgres''
                    (buildUserSQL (env_uni env) user password)))
           (reportExec env reqName user))"

definition Reconcile_user :: "'w env \<Rightarrow> string \<Rightarrow> string \<Rightarrow> ('w, Result) io" where
  "Reconcile_user env ns name =
     bindE (tryE (get_as asUser env (UserKind, ns, name))) (\<lambda>r.
     case r of
       Inl e \<Rightarrow> if IsNotFound e then retE res_done else failE e
     | Inr user \<Rightarrow>
         bindE (tryE (get_as asCluster env
                 (ClusterKind, om_Namespace (pgu_meta user), pus_ClusterName (pgu_Spec user)))) (\<lambda>rc.
         case rc of
           Inl e \<Rightarrow>
             if IsNotFound e then
               bindE (setUserCond env ''ClusterFound'' ConditionFalse ''ClusterNotFound''
                        (''PostgresCluster '' @ Quote (env_uni env) (pus_ClusterName (pgu_Spec user)) @ '' not found'') user) (\<lambda>user.
               thenE (tryE (StatusUpdate env (KUser (observeGeneration (setApplied False user))))) (retE (res_after 30)))
             else failE e
         | Inr cluster \<Rightarrow>
             if \<not> IsClusterRunning cluster then
               bindE (setUserCond env ''ClusterReady'' ConditionFalse ''ClusterNotReady''
                        (''PostgresCluster '' @ Quote (env_uni env) (cluster_name cluster) @ '' is not in Running phase'') user) (\<lambda>user.
               thenE (tryE (StatusUpdate env (KUser (setApplied False user)))) (retE (res_after 20)))
             else applyUser env name user cluster))"

subsection \<open>Calls\<close>

lemma setUserCond_run [simp]:
  "setUserCond env t st r m b w = (Inr (SetUserCondition (env_now env w) t st r m b), w)"
  by (simp add: setUserCond_def)

lemma logs_setUserCond [logs_intro]: "logs C (setUserCond env t st r m b)"
  by (simp add: logs_def)

lemma user_status_sel [simp]:
  "pgu_meta (setApplied a u) = pgu_meta u" "pgu_Spec (setApplied a u) = pgu_Spec u"
  "pgu_meta (observeGeneration u) = pgu_meta u" "pgu_Spec (observeGeneration u) = pgu_Spec u"
  "pgu_meta (SetUserCondition now t st r m u) = pgu_meta u" "pgu_Spec (SetUserCondition now t st r m u) = pgu_Spec u"
  "put_Applied (pgu_Status (setApplied a u)) = a"
  "put_Applied (pgu_Status (observeGeneration u)) = put_Applied (pgu_Status u)"
  "put_ObservedGeneration (pgu_Status (setApplied a u)) = put_ObservedGeneration (pgu_Status u)"
  "put_ObservedGeneration (pgu_Status (observeGeneration u)) = om_Generation (pgu_meta u)"
  "put_ObservedGeneration (pgu_Status (SetUserCondition now t st r m u)) = put_ObservedGeneration (pgu_Status u)"
  by (simp_all add: setApplied_def observeGeneration_def SetUserCondition_def)

text \<open>The statements that are run, as a filter on the calls.\<close>

definition execs :: "call list \<Rightarrow> call list" where
  "execs l = filter (\<lambda>c. case c of CExec _ _ _ _ \<Rightarrow> True | _ \<Rightarrow> False) l"

lemma execs_simps [simp]:
  "execs [] = []" "execs (CGet k # l) = execs l" "execs (CStatus ob # l) = execs l"
  "execs (CExec ns p c cmd # l) = CExec ns p c cmd # execs l" "execs (l @ l') = execs l @ execs l'"
  by (simp_all add: execs_def)

definition no_exec :: "call \<Rightarrow> bool" where
  "no_exec c \<longleftrightarrow> (case c of CExec _ _ _ _ \<Rightarrow> False | _ \<Rightarrow> True)"

lemma no_exec_simps [simp]: "no_exec (CGet k)" "no_exec (CStatus ob)"
  by (simp_all add: no_exec_def)

lemma execs_none: "list_all no_exec l \<Longrightarrow> execs l = []"
  by (induction l) (auto simp: execs_def no_exec_def split: call.splits)

lemma get_as_logged_run:
  "get_as p (logged env) k (w, l) = (fst (get_as p env k w), (snd (get_as p env k w), l @ [CGet k]))"
  by (cases "cl_get (env_client env) k w"; cases "fst (cl_get (env_client env) k w)")
     (auto simp: get_as_def logged_def logged_client_def log_io_def bindE_def split: option.split)

lemma userPassword_logged:
  obtains g where "execs g = []"
    "\<And>l. userPassword (logged env) u (w, l) = (fst (userPassword env u w), (snd (userPassword env u w), l @ g))"
proof (cases "pus_PasswordSecret (pgu_Spec u)")
  case None
  show ?thesis by (rule that [of "[]"]) (simp_all add: None userPassword_def)
next
  case (Some s)
  let ?k = "(SecretKind, om_Namespace (pgu_meta u), s)"
  obtain r w' where "get_as asSecret env ?k w = (r, w')" by fastforce
  then show ?thesis
    by (intro that [of "[CGet ?k]"])
       (simp_all add: Some userPassword_def get_as_logged_run bindE_def wrapE_def split: sum.split)
qed

lemma execSQL_logged:
  obtains g where "g = [] \<or> g = [CExec ns pod cn (psql sql)]"
    "\<And>l. execSQL (logged env) ns pod cn sql (w, l) =
       (fst (execSQL env ns pod cn sql w), (snd (execSQL env ns pod cn sql w), l @ g))"
proof (cases "env_exec env")
  case None
  show ?thesis by (rule that [of "[]"]) (simp_all add: None execSQL_def logged_def)
next
  case (Some x)
  show ?thesis
    by (rule that [of "[CExec ns pod cn (psql sql)]"])
       (simp_all add: Some execSQL_def logged_def case_prod_unfold)
qed

lemma emits_run:
  assumes "\<And>l. m (w, l) = (r, (w', l @ g))" and "\<And>a. r = Inr a \<Longrightarrow> emits (\<lambda>l. \<Phi> (g @ l)) (f a) w'"
    and "\<And>e. r = Inl e \<Longrightarrow> \<Phi> g"
  shows "emits \<Phi> (bindE m f) w"
  unfolding emits_def
proof
  fix l
  show "\<exists>l'. snd (snd (bindE m f (w, l))) = l @ l' \<and> \<Phi> l'"
  proof (cases r)
    case (Inl e)
    with assms(1) [of l] assms(3) show ?thesis by simp
  next
    case (Inr a)
    from assms(2) [OF Inr] obtain l' where "snd (snd (f a (w', l @ g))) = (l @ g) @ l'" "\<Phi> (g @ l')"
      unfolding emits_def by blast
    with assms(1) [of l] Inr show ?thesis by (intro exI [of _ "g @ l'"]) simp
  qed
qed

lemma emits_no_exec:
  assumes "logs no_exec m" "\<Phi> g" "execs g = g"
  shows "emits (\<lambda>l. \<Phi> (execs (g @ l))) m w"
  by (rule emits_logs [OF assms(1)]) (simp add: execs_none assms)

lemma logs_reportExec [logs_intro]:
  "(\<And>u. C (CStatus (KUser u))) \<Longrightarrow> logs C (reportExec (logged env) n u r)"
  unfolding reportExec_def by (cases r) (auto intro!: logs_intro)

lemma emits_applyUser:
  assumes exec: "\<And>pw w1. userPassword env u w = (Inr pw, w1) \<Longrightarrow>
      \<Phi> [CExec (om_Namespace (pgc_meta c)) (PodName c 0) ''postgres'' (psql (buildUserSQL (env_uni env) u pw))]"
    and none: "\<Phi> []"
  shows "emits (\<lambda>l. \<Phi> (execs l)) (applyUser (logged env) n u c) w"
proof -
  obtain g where g: "execs g = []" and run: "\<And>l. userPassword (logged env) u (w, l) =
      (fst (userPassword env u w), (snd (userPassword env u w), l @ g))"
    using userPassword_logged [of env u w] by blast
  show ?thesis unfolding applyUser_def
  proof (rule emits_run [OF run])
    fix pw
    assume "fst (userPassword env u w) = Inr pw"
    then have pw: "userPassword env u w = (Inr pw, snd (userPassword env u w))" by (metis prod.collapse)
    let ?w = "snd (userPassword env u w)"
    let ?x = "\<lambda>env. execSQL env (om_Namespace (pgc_meta c)) (PodName c 0) ''postgres'' (buildUserSQL (env_uni env) u pw)"
    obtain x where x: "x = [] \<or> x = [CExec (om_Namespace (pgc_meta c)) (PodName c 0) ''postgres''
        (psql (buildUserSQL (env_uni env) u pw))]"
      and "\<And>l. ?x (logged env) (?w, l) = (fst (?x env ?w), (snd (?x env ?w), l @ x))"
      using execSQL_logged [of "om_Namespace (pgc_meta c)" "PodName c 0" "''postgres''"
          "buildUserSQL (env_uni env) u pw" env ?w] by auto
    then have "tryE (?x (logged env)) (?w, l) = (Inr (fst (?x env ?w)), (snd (?x env ?w), l @ x))" for l
      by (simp add: tryE_def)
    then show "emits (\<lambda>l. \<Phi> (execs (g @ l))) (bindE (tryE (?x (logged env))) (reportExec (logged env) n u)) ?w"
    proof (rule emits_run)
      fix r
      have "\<Phi> x" "execs x = x" using x exec [OF pw] none by auto
      then show "emits (\<lambda>l. \<Phi> (execs (g @ x @ l))) (reportExec (logged env) n u r) (snd (?x env ?w))"
        using emits_no_exec [of "reportExec (logged env) n u r" \<Phi> x] by (simp add: g logs_reportExec)
    qed simp
  qed (simp add: g none)
qed

lemma emits_if:
  "(P \<Longrightarrow> emits \<Phi> a w) \<Longrightarrow> (\<not> P \<Longrightarrow> emits \<Phi> b w) \<Longrightarrow> emits \<Phi> (if P then a else b) w"
  by simp

text \<open>What has to be seen before a statement is run, and which one it is.\<close>

definition may_exec :: "'w env \<Rightarrow> string \<Rightarrow> string \<Rightarrow> 'w \<Rightarrow> call \<Rightarrow> bool" where
  "may_exec env ns n w x \<longleftrightarrow>
     (\<exists>u c pw w1 w2 w3.
        cl_get (env_client env) (UserKind, ns, n) w = (Inr (KUser u), w1) \<and>
        cl_get (env_client env) (ClusterKind, om_Namespace (pgu_meta u), pus_ClusterName (pgu_Spec u)) w1 =
          (Inr (KCluster c), w2) \<and> IsClusterRunning c \<and>
        userPassword env u w2 = (Inr pw, w3) \<and>
        x = CExec (om_Namespace (pgc_meta c)) (PodName c 0) ''postgres'' (psql (buildUserSQL (env_uni env) u pw)))"

text \<open>
  C9. What is run in the primary. Whatever the server answers, a reconcile of a user runs at most one command, in
  the postgres container of pod 0 of the user's cluster, after it has seen the cluster in phase
  Running and read the password; the command is psql with the statements of \<open>buildUserSQL\<close> for
  that user and that password.
\<close>

theorem Reconcile_user_execs:
  fixes env :: "'w env"
  shows "execs (calls (Reconcile_user (logged env) ns n) w) = [] \<or>
   (\<exists>x. execs (calls (Reconcile_user (logged env) ns n) w) = [x] \<and> may_exec env ns n w x)"
proof -
  let ?\<Phi> = "\<lambda>l. l = [] \<or> (\<exists>x. l = [x] \<and> may_exec env ns n w x)"
  have quiet: "emits (\<lambda>l. ?\<Phi> (execs l)) m w'" if "logs no_exec m" for m :: "('w logw, Result) io" and w'
    using emits_no_exec [OF that, of ?\<Phi> "[]"] by simp
  have wait: "emits (\<lambda>l. ?\<Phi> (execs l)) (bindE (setUserCond (logged env) t st r m u)
      (\<lambda>u. thenE (tryE (StatusUpdate (logged env) (KUser (f u)))) (retE s))) w'" for t st r m u f and s :: Result and w'
    by (intro quiet logs_intro) simp
  have ret: "emits (\<lambda>l. ?\<Phi> (execs l)) (retE s) w'" "emits (\<lambda>l. ?\<Phi> (execs l)) (failE e :: ('w logw, Result) io) w'" for s :: Result and e w'
    by (intro quiet logs_intro)+
  have "emits (\<lambda>l. ?\<Phi> (execs l)) (Reconcile_user (logged env) ns n) w"
    unfolding Reconcile_user_def
  proof (rule emits_tryget; simp only: sum.case execs_simps; (intro emits_if ret)?)
    fix ob u w1
    assume u: "cl_get (env_client env) (UserKind, ns, n) w = (Inr ob, w1)" "asUser ob = Some u"
    show "emits (\<lambda>l. ?\<Phi> (execs l)) (bindE (tryE (get_as asCluster (logged env)
         (ClusterKind, om_Namespace (pgu_meta u), pus_ClusterName (pgu_Spec u)))) (\<lambda>rc.
         case rc of
           Inl e \<Rightarrow>
             if IsNotFound e then
               bindE (setUserCond (logged env) ''ClusterFound'' ConditionFalse ''ClusterNotFound''
                        (''PostgresCluster '' @ Quote (env_uni (logged env)) (pus_ClusterName (pgu_Spec u)) @ '' not found'') u) (\<lambda>user.
               thenE (tryE (StatusUpdate (logged env) (KUser (observeGeneration (setApplied False user))))) (retE (res_after 30)))
             else failE e
         | Inr cluster \<Rightarrow>
             if \<not> IsClusterRunning cluster then
               bindE (setUserCond (logged env) ''ClusterReady'' ConditionFalse ''ClusterNotReady''
                        (''PostgresCluster '' @ Quote (env_uni (logged env)) (cluster_name cluster) @ '' is not in Running phase'') u) (\<lambda>user.
               thenE (tryE (StatusUpdate (logged env) (KUser (setApplied False user)))) (retE (res_after 20)))
             else applyUser (logged env) n u cluster)) w1"
    proof (rule emits_tryget; simp only: sum.case execs_simps; (intro emits_if ret wait)?)
      fix ob' c w2
      assume "cl_get (env_client env) (ClusterKind, om_Namespace (pgu_meta u), pus_ClusterName (pgu_Spec u)) w1 = (Inr ob', w2)"
        "asCluster ob' = Some c" "\<not> \<not> IsClusterRunning c"
      with u have "userPassword env u w2 = (Inr pw, w3) \<Longrightarrow> may_exec env ns n w
          (CExec (om_Namespace (pgc_meta c)) (PodName c 0) ''postgres'' (psql (buildUserSQL (env_uni env) u pw)))" for pw w3
        unfolding may_exec_def by (simp only: as_Some_iff) blast
      then show "emits (\<lambda>l. ?\<Phi> (execs l)) (applyUser (logged env) n u c) w2"
        by (intro emits_applyUser) simp_all
    qed
  qed
  then show ?thesis by (rule emits_calls)
qed

subsection \<open>The outcome on a quiet server\<close>

text \<open>The password as the stored objects determine it; None when its Secret is missing.\<close>

definition stored_password :: "(Key \<Rightarrow> KObj option) \<Rightarrow> PostgresUser \<Rightarrow> string option" where
  "stored_password m u = (case pus_PasswordSecret (pgu_Spec u) of
     None \<Rightarrow> Some []
   | Some s \<Rightarrow> (case m (SecretKind, om_Namespace (pgu_meta u), s) of
        Some (KSecret x) \<Rightarrow> Some (mapidx (sec_Data x) ''password'') | _ \<Rightarrow> None))"

text \<open>Applied flag, observed generation and seconds to the next run; None for an error that leaves the user as it is.\<close>

definition user_outcome :: "'w env \<Rightarrow> ('w \<Rightarrow> Key \<Rightarrow> KObj option) \<Rightarrow> PostgresUser \<Rightarrow> 'w \<Rightarrow> (bool \<times> int \<times> int) option" where
  "user_outcome env look u w =
     (case look w (ClusterKind, om_Namespace (pgu_meta u), pus_ClusterName (pgu_Spec u)) of
        Some (KCluster c) \<Rightarrow>
          if \<not> IsClusterRunning c then Some (False, put_ObservedGeneration (pgu_Status u), 20)
          else (case stored_password (look w) u of
             None \<Rightarrow> None
           | Some pw \<Rightarrow>
               (case fst (execSQL env (om_Namespace (pgc_meta c)) (PodName c 0) ''postgres''
                            (buildUserSQL (env_uni env) u pw) w) of
                  Inr _ \<Rightarrow> Some (True, om_Generation (pgu_meta u), 60)
                | Inl _ \<Rightarrow> Some (False, om_Generation (pgu_meta u), 30)))
      | _ \<Rightarrow> Some (False, om_Generation (pgu_meta u), 30))"

context quiet_env
begin

text \<open>\<open>reports m w k u a g s\<close>: \<open>m\<close> stores the user at \<open>k\<close> with applied flag \<open>a\<close> and observed generation \<open>g\<close>.\<close>

definition reports :: "('w, Result) io \<Rightarrow> 'w \<Rightarrow> Key \<Rightarrow> PostgresUser \<Rightarrow> bool \<Rightarrow> int \<Rightarrow> int \<Rightarrow> bool" where
  "reports m w k u a g s \<longleftrightarrow> (\<exists>u' w'. m w = (Inr (res_after s), w') \<and> look w' = (look w)(k \<mapsto> KUser u') \<and>
     pgu_meta u' = pgu_meta u \<and> pgu_Spec u' = pgu_Spec u \<and>
     put_Applied (pgu_Status u') = a \<and> put_ObservedGeneration (pgu_Status u') = g)"

lemma store_user:
  assumes "look w k = Some (KUser u)" "key_of (KUser u) = k" "pgu_meta u' = pgu_meta u" "pgu_Spec u' = pgu_Spec u"
  obtains w' where "StatusUpdate env (KUser u') w = (Inr (KUser u'), w')" "look w' = (look w)(k \<mapsto> KUser u')"
proof -
  from assms have "key_of (KUser u') = k" "u\<lparr>pgu_Status := pgu_Status u'\<rparr> = u'"
    by (simp_all add: key_of_def)
  with StatusUpdate_ok [of w "KUser u'" "KUser u"] assms(1) that show ?thesis by auto
qed

lemma reports_wait:
  fixes t st r msg :: string
  assumes "look w k = Some (KUser u)" "key_of (KUser u) = k"
    and f: "\<And>x. pgu_meta (f x) = pgu_meta x" "\<And>x. pgu_Spec (f x) = pgu_Spec x"
  defines "u' \<equiv> f (SetUserCondition (env_now env w) t st r msg u)"
  shows "reports (bindE (setUserCond env t st r msg u)
      (\<lambda>x. thenE (tryE (StatusUpdate env (KUser (f x)))) (retE (res_after s)))) w k u
      (put_Applied (pgu_Status u')) (put_ObservedGeneration (pgu_Status u')) s" (is ?lax)
    and "reports (bindE (setUserCond env t st r msg u)
      (\<lambda>x. thenE (StatusUpdate env (KUser (f x))) (retE (res_after s)))) w k u
      (put_Applied (pgu_Status u')) (put_ObservedGeneration (pgu_Status u')) s" (is ?strict)
proof -
  obtain w' where "StatusUpdate env (KUser u') w = (Inr (KUser u'), w')" "look w' = (look w)(k \<mapsto> KUser u')"
    using store_user [OF assms(1,2), of u'] f by (auto simp: u'_def)
  then show ?lax ?strict using f by (auto simp: reports_def u'_def)
qed

lemma userPassword_stored:
  assumes "keyed (look w)"
  shows "userPassword env u w = ((case stored_password (look w) u of
     None \<Rightarrow> Inl (Wrap ''fetch password secret'' NotFound) | Some pw \<Rightarrow> Inr pw), w)"
proof (cases "pus_PasswordSecret (pgu_Spec u)")
  case None
  then show ?thesis by (simp add: userPassword_def stored_password_def)
next
  case (Some s)
  show ?thesis
    by (rule get_as_kind [OF assms, of "(SecretKind, om_Namespace (pgu_meta u), s)" asSecret])
       (auto simp: Some userPassword_def stored_password_def kind_of_iff)
qed

lemma execSQL_look: "look (snd (execSQL env ns pod cn sql w)) = look w"
  using exec_law by (auto simp: execSQL_def case_prod_unfold split: option.split)

lemma reports_cong:
  "m w = m' w' \<Longrightarrow> look w' = look w \<Longrightarrow> reports m' w' k u a g s \<Longrightarrow> reports m w k u a g s"
  by (auto simp: reports_def)

lemma applyUser_reports:
  fixes c :: PostgresCluster
  assumes u: "look w k = Some (KUser u)" "key_of (KUser u) = k" and w: "keyed (look w)"
    and pw: "stored_password (look w) u = Some pw"
  defines "x \<equiv> execSQL env (om_Namespace (pgc_meta c)) (PodName c 0) ''postgres'' (buildUserSQL (env_uni env) u pw) w"
  shows "reports (applyUser env n u c) w k u (\<not> isl (fst x)) (om_Generation (pgu_meta u)) (if isl (fst x) then 30 else 60)"
proof -
  have run: "applyUser env n u c w = reportExec env n u (fst x) (snd x)"
    using userPassword_stored [OF w] pw by (simp add: applyUser_def x_def tryE_def run_bindE case_prod_unfold)
  have same: "look (snd x) = look w" by (simp add: x_def execSQL_look)
  with u have u': "look (snd x) k = Some (KUser u)" by simp
  note wait = reports_wait [OF u' u(2), of "\<lambda>x. observeGeneration (setApplied a x)" for a, simplified]
  show ?thesis
    by (rule reports_cong [where m = "applyUser env n u c" and m' = "reportExec env n u (fst x)", OF run same], cases "fst x") (use wait in \<open>simp_all add: reportExec_def\<close>)
qed

end

text \<open>
  C4. The applied flag. On a server nobody else writes to, a reconcile of an existing user either fails because the
  password Secret is missing and changes nothing, or stores the user once, metadata and spec
  untouched, with the applied flag, the observed generation and the time to the next run of \<open>user_outcome\<close>:
  the flag is set exactly when the cluster runs and the command in its primary pod succeeded.
\<close>

theorem Reconcile_user_outcome:
  assumes "quiet_env env look" "keyed (look w)" "look w (UserKind, ns, n) = Some (KUser u)"
  shows "case user_outcome env look u w of
      None \<Rightarrow> \<exists>e. Reconcile_user env ns n w = (Inl e, w)
    | Some (a, g, s) \<Rightarrow> \<exists>u' w'. Reconcile_user env ns n w = (Inr (res_after s), w') \<and>
        look w' = (look w)((UserKind, ns, n) \<mapsto> KUser u') \<and> pgu_meta u' = pgu_meta u \<and> pgu_Spec u' = pgu_Spec u \<and>
        put_Applied (pgu_Status u') = a \<and> put_ObservedGeneration (pgu_Status u') = g"
proof -
  note q = assms(1)
  note k = keyedD [OF assms(2,3)]
  note get = quiet_env.get_found [OF q, of w _ "KUser u" asUser u, OF assms(3)]
  note wait = quiet_env.reports_wait(1) [OF q assms(3) k, unfolded quiet_env.reports_def [OF q]]
  note run = quiet_env.applyUser_reports [OF q assms(3) k assms(2), unfolded quiet_env.reports_def [OF q]]
  note pass = quiet_env.userPassword_stored [OF q assms(2), of u]
  let ?ck = "(ClusterKind, om_Namespace (pgu_meta u), pus_ClusterName (pgu_Spec u))"
  show ?thesis
  proof (rule quiet_env.get_as_kind [OF q assms(2), of ?ck asCluster])
    assume "look w ?ck = None" "get_as asCluster env ?ck w = (Inl NotFound, w)"
    with wait [of "\<lambda>x. observeGeneration (setApplied False x)"] get show ?thesis
      by (simp add: user_outcome_def Reconcile_user_def)
  next
    fix ob c
    assume c: "look w ?ck = Some ob" "asCluster ob = Some c" "get_as asCluster env ?ck w = (Inr c, w)"
    show ?thesis
    proof (cases "IsClusterRunning c")
      case False
      with wait [of "setApplied False"] get c show ?thesis
        by (simp add: user_outcome_def Reconcile_user_def)
    next
      case True
      have r: "Reconcile_user env ns n w = applyUser env n u c w"
        using True get c by (simp add: Reconcile_user_def)
      show ?thesis
      proof (cases "stored_password (look w) u")
        case None
        with r pass c True show ?thesis by (simp add: user_outcome_def applyUser_def)
      next
        case (Some pw)
        with run [OF Some, of n c] c True show ?thesis
          by (auto simp: user_outcome_def r split: sum.split)
      qed
    qed
  qed (auto simp: kind_of_iff)
qed

definition demo_user_world :: mem where
  "demo_user_world = \<lparr>mem_objs =
     [((UserKind, ''prod'', ''app''), KUser (demo_user\<lparr>pgu_meta := meta_lit ''app'' ''prod'' [],
        pgu_Spec := (pgu_Spec demo_user)\<lparr>pus_ClusterName := ''db'', pus_PasswordSecret := Some ''app-pw''\<rparr>\<rparr>)),
      ((ClusterKind, ''prod'', ''db''),
        KCluster (demo_cluster\<lparr>pgc_Status := (pgc_Status demo_cluster)\<lparr>pst_Phase := PhaseRunning\<rparr>\<rparr>)),
      ((SecretKind, ''prod'', ''app-pw''),
        KSecret \<lparr>sec_meta = meta_lit ''app-pw'' ''prod'' [], sec_Type = ''Opaque'',
          sec_Data = [(''password'', ''s3cret'')], sec_StringData = []\<rparr>)],
     mem_events = [], mem_clock = 100\<rparr>"

lemma demo_user_world_keyed: "keyed (mem_look demo_user_world)"
  by (auto simp: keyed_def mem_look_def demo_user_world_def key_of_def demo_cluster_def
      PostgresCluster_zero_def ObjectMeta_zero_def)

lemma meta_lit_generation [simp]: "om_Generation (meta_lit n ns l) = 0"
  by (simp add: meta_lit_def ObjectMeta_zero_def)

lemma execSQL_mem [simp]: "execSQL mem_env ns pod cn sql w = (Inr (), w)"
  by (simp add: execSQL_def mem_env_def)

text \<open>C4 on a user with a password Secret whose cluster runs.\<close>

theorem Reconcile_user_outcome_witness:
  "\<exists>u' w'. Reconcile_user mem_env ''prod'' ''app'' demo_user_world = (Inr (res_after 60), w') \<and>
     mem_look w' (UserKind, ''prod'', ''app'') = Some (KUser u') \<and> put_Applied (pgu_Status u')"
proof -
  obtain u where u: "mem_look demo_user_world (UserKind, ''prod'', ''app'') = Some (KUser u)"
    "user_outcome mem_env mem_look u demo_user_world = Some (True, 0, 60)"
  proof
    let ?u = "demo_user\<lparr>pgu_meta := meta_lit ''app'' ''prod'' [],
        pgu_Spec := (pgu_Spec demo_user)\<lparr>pus_ClusterName := ''db'', pus_PasswordSecret := Some ''app-pw''\<rparr>\<rparr>"
    show "mem_look demo_user_world (UserKind, ''prod'', ''app'') = Some (KUser ?u)"
      by (simp add: mem_look_def demo_user_world_def)
    show "user_outcome mem_env mem_look ?u demo_user_world = Some (True, 0, 60)"
      by (simp add: user_outcome_def stored_password_def mem_look_def demo_user_world_def demo_user_def
          PostgresUser_zero_def IsClusterRunning_def)
  qed
  from Reconcile_user_outcome [OF mem.quiet_env_axioms, OF demo_user_world_keyed u(1), unfolded u(2) option.case prod.case]
  show ?thesis by auto
qed

text \<open>
  C40. A refused user is reported as applied. When the user's name is not a valid identifier or the password holds a
  NUL byte, \<open>buildUserSQL\<close> gives the empty string; the reconciler runs it all the same, and where psql
  accepts the empty command the user is stored as applied although no statement was run for it.
\<close>

theorem Reconcile_user_refused_applied:
  assumes "quiet_env env look" "keyed (look w)" "look w (UserKind, ns, n) = Some (KUser u)"
    and "look w (ClusterKind, om_Namespace (pgu_meta u), pus_ClusterName (pgu_Spec u)) = Some (KCluster c)"
      "IsClusterRunning c" "stored_password (look w) u = Some pw"
    and "\<not> IsValidIdentifier (env_uni env) (om_Name (pgu_meta u)) \<or> NUL \<in> set pw"
    and "env_exec env = Some x" "fst (x (om_Namespace (pgc_meta c)) (PodName c 0) ''postgres'' (psql []) w) = ExecOk"
  shows "buildUserSQL (env_uni env) u pw = [] \<and>
    (\<exists>u' w'. Reconcile_user env ns n w = (Inr (res_after 60), w') \<and>
       look w' (UserKind, ns, n) = Some (KUser u') \<and> put_Applied (pgu_Status u'))"
proof -
  have sql: "buildUserSQL (env_uni env) u pw = []"
    using assms(7) by (auto simp: buildUserSQL_def AssertSafePassword_def)
  note k = keyedD [OF assms(2,3)]
  have "Reconcile_user env ns n w = applyUser env n u c w"
    using quiet_env.get_found [OF assms(1), of w _ "KUser u" asUser u, OF assms(3)]
      quiet_env.get_found [OF assms(1,4), of asCluster c] assms(5)
    by (simp add: Reconcile_user_def)
  with quiet_env.applyUser_reports [OF assms(1,3) k assms(2,6), of n c, unfolded quiet_env.reports_def [OF assms(1)]]
  show ?thesis using assms(8,9) by (auto simp: sql execSQL_def case_prod_unfold)
qed

text \<open>C40 on a user whose name has 64 characters, one more than PostgreSQL keeps.\<close>

theorem Reconcile_user_refused_applied_witness:
  "\<exists>u' w'. Reconcile_user mem_env ''prod'' (replicate 64 CHR ''a'')
      (mem_put (KUser (demo_user\<lparr>pgu_meta := meta_lit (replicate 64 CHR ''a'') ''prod'' [],
        pgu_Spec := (pgu_Spec demo_user)\<lparr>pus_ClusterName := ''db''\<rparr>\<rparr>)) demo_user_world) = (Inr (res_after 60), w') \<and>
     mem_look w' (UserKind, ''prod'', replicate 64 CHR ''a'') = Some (KUser u') \<and> put_Applied (pgu_Status u')"
proof -
  define n where "n = replicate 64 CHR ''a''"
  let ?u = "demo_user\<lparr>pgu_meta := meta_lit n ''prod'' [], pgu_Spec := (pgu_Spec demo_user)\<lparr>pus_ClusterName := ''db''\<rparr>\<rparr>"
  let ?c = "demo_cluster\<lparr>pgc_Status := (pgc_Status demo_cluster)\<lparr>pst_Phase := PhaseRunning\<rparr>\<rparr>"
  let ?w = "mem_put (KUser ?u) demo_user_world"
  have k: "key_of (KUser ?u) = (UserKind, ''prod'', n)" by (simp add: key_of_def)
  have look: "mem_look ?w = (mem_look demo_user_world)((UserKind, ''prod'', n) \<mapsto> KUser ?u)"
    using k by (simp add: mem_look_def mem_put_def)
  have keyed: "keyed (mem_look ?w)" unfolding look using demo_user_world_keyed k by (rule keyed_upd)
  have user: "mem_look ?w (UserKind, ''prod'', n) = Some (KUser ?u)" by (simp add: look)
  have cluster: "mem_look ?w (ClusterKind, om_Namespace (pgu_meta ?u), pus_ClusterName (pgu_Spec ?u)) = Some (KCluster ?c)"
    by (simp add: look) (simp add: mem_look_def demo_user_world_def)
  have running: "IsClusterRunning ?c" by (simp add: IsClusterRunning_def)
  have pw: "stored_password (mem_look ?w) ?u = Some []"
    by (simp add: stored_password_def demo_user_def PostgresUser_zero_def)
  have bad: "\<not> IsValidIdentifier (env_uni mem_env) (om_Name (pgu_meta ?u)) \<or> NUL \<in> set []"
    by (simp add: IsValidIdentifier_def n_def)
  have exec: "env_exec mem_env = Some (\<lambda>ns pod cn cmd w. (ExecOk, w))" by (simp add: mem_env_def)
  from Reconcile_user_refused_applied [OF mem.quiet_env_axioms, OF keyed user cluster running pw bad exec]
  show ?thesis unfolding n_def by simp
qed

end
