(* ===== verification/Pgbouncer.thy ===== *)
theory Pgbouncer
  imports Postgres_Config
begin

section \<open>PgBouncer configuration\<close>

text \<open>
  The packages \<open>pgbouncer\<close>, \<open>poolerconfig\<close> and \<open>portmap\<close>: the rendered \<open>pgbouncer.ini\<close> and
  \<open>userlist.txt\<close> files, the names of the pooler's objects, and the table of named ports.
  \<open>ini_settings\<close> reads a rendered file back into its settings, section by section.
\<close>

abbreviation LF :: char where "LF \<equiv> CHR 0x0A"

subsection \<open>Named ports\<close>

record Port =
  port_Name :: string
  port_Port :: int

definition portmap_PostgresPort :: int where [simp]: "portmap_PostgresPort = 5432"
definition PgBouncerPort :: int where [simp]: "PgBouncerPort = 6432"
definition MetricsPort :: int where [simp]: "MetricsPort = 9187"
definition ManagerMetricsPort :: int where [simp]: "ManagerMetricsPort = 8443"
definition ManagerHealthPort :: int where [simp]: "ManagerHealthPort = 8081"

definition portmap_All :: "Port list" where
  "portmap_All =
     [\<lparr>port_Name = ''postgres'', port_Port = portmap_PostgresPort\<rparr>,
      \<lparr>port_Name = ''pgbouncer'', port_Port = PgBouncerPort\<rparr>,
      \<lparr>port_Name = ''metrics'', port_Port = MetricsPort\<rparr>,
      \<lparr>port_Name = ''manager-metrics'', port_Port = ManagerMetricsPort\<rparr>,
      \<lparr>port_Name = ''health'', port_Port = ManagerHealthPort\<rparr>]"

definition PostgresOnly :: "Port list" where
  "PostgresOnly = [\<lparr>port_Name = ''postgres'', port_Port = portmap_PostgresPort\<rparr>]"

definition portmap_Find :: "string \<Rightarrow> Port option" where
  "portmap_Find name = List.find (\<lambda>p. port_Name p = name) portmap_All"

definition IsWellKnown :: "int \<Rightarrow> bool" where
  "IsWellKnown port \<longleftrightarrow> list_ex (\<lambda>p. port_Port p = port) portmap_All"

definition SortedNames :: "string list" where
  "SortedNames = sort (map port_Name portmap_All)"

definition SafeInt32 :: "int \<Rightarrow> int" where
  "SafeInt32 port = (if port < 0 \<or> port > 65535 then 0 else i32 port)"

lemma SafeInt32_range: "0 \<le> SafeInt32 p \<and> SafeInt32 p \<le> 65535"
  by (simp add: SafeInt32_def is_int32_def)

subsection \<open>The settings of a pooler\<close>

record PgbConfig =
  pgb_ListenPort :: int
  pgb_PoolMode :: string
  pgb_MaxClientConn :: int
  pgb_DefaultPoolSize :: int
  pgb_MinPoolSize :: int
  pgb_ReservePoolSize :: int
  pgb_ReservePoolTimeout :: int
  pgb_ServerIdleTimeout :: int
  pgb_ServerLifetime :: int
  pgb_QueryTimeout :: int
  pgb_ClientIdleTimeout :: int

definition DefaultConfig :: PgbConfig where
  "DefaultConfig =
     \<lparr>pgb_ListenPort = 5432, pgb_PoolMode = ''transaction'', pgb_MaxClientConn = 1000,
      pgb_DefaultPoolSize = 20, pgb_MinPoolSize = 0, pgb_ReservePoolSize = 5,
      pgb_ReservePoolTimeout = 5, pgb_ServerIdleTimeout = 600, pgb_ServerLifetime = 3600,
      pgb_QueryTimeout = 0, pgb_ClientIdleTimeout = 0\<rparr>"

definition INI :: "PgbConfig \<Rightarrow> string \<Rightarrow> string \<Rightarrow> string \<Rightarrow> string" where
  "INI c clusterName primaryHost database =
     ''[databases]'' @ [LF] @
     database @ '' = host='' @ primaryHost @ '' port=5432 dbname='' @ database @ [LF] @
     ''* = host='' @ primaryHost @ '' port=5432'' @ [LF, LF] @
     ''[pgbouncer]'' @ [LF] @
     ''listen_port = '' @ dec (pgb_ListenPort c) @ [LF] @
     ''listen_addr = *'' @ [LF] @
     ''pool_mode = '' @ pgb_PoolMode c @ [LF] @
     ''max_client_conn = '' @ dec (pgb_MaxClientConn c) @ [LF] @
     ''default_pool_size = '' @ dec (pgb_DefaultPoolSize c) @ [LF] @
     ''min_pool_size = '' @ dec (pgb_MinPoolSize c) @ [LF] @
     ''reserve_pool_size = '' @ dec (pgb_ReservePoolSize c) @ [LF] @
     ''reserve_pool_timeout = '' @ dec (pgb_ReservePoolTimeout c) @ [LF] @
     ''server_idle_timeout = '' @ dec (pgb_ServerIdleTimeout c) @ [LF] @
     ''server_lifetime = '' @ dec (pgb_ServerLifetime c) @ [LF] @
     (if pgb_QueryTimeout c > 0 then ''query_timeout = '' @ dec (pgb_QueryTimeout c) @ [LF] else []) @
     (if pgb_ClientIdleTimeout c > 0 then ''client_idle_timeout = '' @ dec (pgb_ClientIdleTimeout c) @ [LF] else []) @
     ''auth_type = scram-sha-256'' @ [LF] @
     ''auth_file = /etc/pgbouncer/userlist.txt'' @ [LF] @
     ''admin_users = pgbouncer_admin'' @ [LF] @
     ''stats_users = '' @ clusterName @ ''_stats'' @ [LF] @
     ''server_tls_sslmode = prefer'' @ [LF] @
     ''log_connections = 0'' @ [LF] @
     ''log_disconnections = 0'' @ [LF] @
     ''log_pooler_errors = 1'' @ [LF] @
     ''ignore_startup_parameters = extra_float_digits'' @ [LF]"

definition UserList :: "unitab \<Rightarrow> smap \<Rightarrow> string" where
  "UserList u users = concat (map (\<lambda>(user, hash). Quote u user @ '' '' @ Quote u hash @ [LF]) users)"

definition pgbouncer_ServiceName :: "string \<Rightarrow> string" where
  "pgbouncer_ServiceName clusterName = clusterName @ ''-pooler''"

definition DeploymentName :: "string \<Rightarrow> string" where
  "DeploymentName clusterName = clusterName @ ''-pooler''"

definition pgbouncer_ConfigMapName :: "string \<Rightarrow> string" where
  "pgbouncer_ConfigMapName clusterName = clusterName @ ''-pgbouncer-config''"

definition pgbouncer_SecretName :: "string \<Rightarrow> string" where
  "pgbouncer_SecretName clusterName = clusterName @ ''-pgbouncer-users''"

definition ListenAddr :: "PgbConfig \<Rightarrow> string" where
  "ListenAddr c = '':'' @ dec (pgb_ListenPort c)"

definition pgbouncer_Image :: string where
  "pgbouncer_Image = ''pgbouncer/pgbouncer:1.22.1''"

subsection \<open>The renderer of \<open>poolerconfig\<close>\<close>

record PoolerSpec =
  pls_ListenPort :: int
  pls_PoolMode :: string
  pls_MaxClientConn :: int
  pls_DefaultPoolSize :: int
  pls_AuthType :: string
  pls_AuthUser :: string
  pls_AuthQuery :: string
  pls_Databases :: smap
  pls_IgnoreStartupParameters :: string

definition poolerDefaults :: "PoolerSpec \<Rightarrow> PoolerSpec" where
  "poolerDefaults s = s\<lparr>
     pls_ListenPort := (if pls_ListenPort s = 0 then 6432 else pls_ListenPort s),
     pls_PoolMode := (if pls_PoolMode s = [] then ''transaction'' else pls_PoolMode s),
     pls_AuthType := (if pls_AuthType s = [] then ''scram-sha-256'' else pls_AuthType s),
     pls_MaxClientConn := (if pls_MaxClientConn s = 0 then 100 else pls_MaxClientConn s),
     pls_DefaultPoolSize := (if pls_DefaultPoolSize s = 0 then 20 else pls_DefaultPoolSize s),
     pls_IgnoreStartupParameters :=
       (if pls_IgnoreStartupParameters s = [] then ''extra_float_digits'' else pls_IgnoreStartupParameters s)\<rparr>"

definition poolerconfig_Render :: "PoolerSpec \<Rightarrow> string" where
  "poolerconfig_Render s0 =
     (let s = poolerDefaults s0 in
      ''[databases]'' @ [LF] @
      concat (map (conf_line (pls_Databases s)) (sort (keys (pls_Databases s)))) @
      [LF] @ ''[pgbouncer]'' @ [LF] @
      ''listen_addr = 0.0.0.0'' @ [LF] @
      ''listen_port = '' @ dec (pls_ListenPort s) @ [LF] @
      ''auth_type = '' @ pls_AuthType s @ [LF] @
      (if pls_AuthUser s \<noteq> [] then ''auth_user = '' @ pls_AuthUser s @ [LF] else []) @
      (if pls_AuthQuery s \<noteq> [] then ''auth_query = '' @ pls_AuthQuery s @ [LF] else []) @
      ''auth_file = /etc/pgbouncer/userlist.txt'' @ [LF] @
      ''pool_mode = '' @ pls_PoolMode s @ [LF] @
      ''max_client_conn = '' @ dec (pls_MaxClientConn s) @ [LF] @
      ''default_pool_size = '' @ dec (pls_DefaultPoolSize s) @ [LF] @
      ''ignore_startup_parameters = '' @ pls_IgnoreStartupParameters s @ [LF])"

definition RenderUserList :: "smap \<Rightarrow> string" where
  "RenderUserList users = concat (map (\<lambda>u.
     [CHR 0x22] @ u @ [CHR 0x22] @ '' '' @ [CHR 0x22] @ mapidx users u @ [CHR 0x22] @ [LF]) (sort (keys users)))"

definition IsValidPoolMode :: "string \<Rightarrow> bool" where
  "IsValidPoolMode p \<longleftrightarrow> p = ''session'' \<or> p = ''transaction'' \<or> p = ''statement''"

subsection \<open>Reading a rendered file back\<close>

text \<open>A line that starts with a bracket opens a section; another line with a spaced equals sign is a setting.\<close>

fun cut_eq :: "string \<Rightarrow> (string \<times> string) option" where
  "cut_eq [] = None"
| "cut_eq (c # cs) =
     (if prefix '' = '' (c # cs) then Some ([], drop 3 (c # cs))
      else map_option (\<lambda>(k, v). (c # k, v)) (cut_eq cs))"

fun ini_parse :: "string \<Rightarrow> string list \<Rightarrow> (string \<times> string \<times> string) list" where
  "ini_parse sec [] = []"
| "ini_parse sec (l # ls) =
     (if l \<noteq> [] \<and> hd l = CHR ''['' then ini_parse l ls
      else case cut_eq l of None \<Rightarrow> ini_parse sec ls | Some (k, v) \<Rightarrow> (sec, k, v) # ini_parse sec ls)"

definition ini_settings :: "string \<Rightarrow> (string \<times> string \<times> string) list" where
  "ini_settings txt = ini_parse [] (splitc LF txt)"

definition setting :: "string \<times> string \<Rightarrow> string" where
  "setting kv = fst kv @ '' = '' @ snd kv"

abbreviation lines_text :: "string list \<Rightarrow> string" where
  "lines_text ls \<equiv> concat (map (\<lambda>l. l @ [LF]) ls)"

lemma cut_eq_setting: "CHR ''='' \<notin> set k \<Longrightarrow> cut_eq (k @ '' = '' @ v) = Some (k, v)"
proof (induction k)
  case (Cons c k)
  from Cons.prems have "\<not> prefix '' = '' (c # k @ '' = '' @ v)"
    by (cases k) (auto simp: prefix_def)
  with Cons show ?case by simp
qed simp

definition good_key :: "string \<Rightarrow> bool" where
  "good_key k \<longleftrightarrow> k \<noteq> [] \<and> hd k \<noteq> CHR ''['' \<and> CHR ''='' \<notin> set k"

lemma ini_parse_settings:
  "\<forall>kv \<in> set kvs. good_key (fst kv) \<Longrightarrow>
   ini_parse sec (map setting kvs @ ls) = map (\<lambda>(k, v). (sec, k, v)) kvs @ ini_parse sec ls"
proof (induction kvs)
  case (Cons kv kvs)
  then have k: "fst kv \<noteq> []" "hd (fst kv) \<noteq> CHR ''[''" "CHR ''='' \<notin> set (fst kv)"
    by (simp_all add: good_key_def)
  then have "cut_eq (setting kv) = Some (fst kv, snd kv)" "hd (setting kv) = hd (fst kv)"
    unfolding setting_def by (simp_all only: cut_eq_setting hd_append2 not_False_eq_True)
  moreover from k have "setting kv \<noteq> []" by (simp add: setting_def)
  ultimately show ?case using k Cons by (simp add: case_prod_beta)
qed simp

text \<open>Two sections with a blank line between them, as both renderers write them.\<close>

lemma ini_settings_sections:
  assumes "\<forall>kv \<in> set dbs \<union> set opts. good_key (fst kv) \<and> LF \<notin> set (fst kv) \<and> LF \<notin> set (snd kv)"
  shows "ini_settings (lines_text (''[databases]'' # map setting dbs @ [[]] @ ''[pgbouncer]'' # map setting opts)) =
    map (\<lambda>(k, v). (''[databases]'', k, v)) dbs @ map (\<lambda>(k, v). (''[pgbouncer]'', k, v)) opts"
proof -
  let ?ls = "''[databases]'' # map setting dbs @ [[]] @ ''[pgbouncer]'' # map setting opts"
  have kv: "LF \<notin> set (setting kv)" if "kv \<in> set dbs \<union> set opts" for kv
    using bspec [OF assms that] by (simp add: setting_def)
  have "\<forall>l \<in> set ?ls. LF \<notin> set l"
  proof
    fix l
    assume "l \<in> set ?ls"
    then consider "l \<in> {''[databases]'', [], ''[pgbouncer]''}" | x where "x \<in> set dbs \<union> set opts" "l = setting x"
      by auto
    then show "LF \<notin> set l"
    proof cases
      case 2
      then show ?thesis using kv [OF 2(1)] by (simp only: not_False_eq_True)
    qed auto
  qed
  then have split: "splitc LF (lines_text ?ls) = ?ls @ [[]]" by (rule splitc_lines)
  have good: "\<forall>kv \<in> set dbs. good_key (fst kv)" "\<forall>kv \<in> set opts. good_key (fst kv)"
    using assms by blast+
  show ?thesis
    unfolding ini_settings_def split by (simp add: ini_parse_settings [OF good(1)] ini_parse_settings [OF good(2)])
qed

definition ini_opts :: "PgbConfig \<Rightarrow> string \<Rightarrow> (string \<times> string) list" where
  "ini_opts c clusterName =
     [(''listen_port'', dec (pgb_ListenPort c)), (''listen_addr'', ''*''), (''pool_mode'', pgb_PoolMode c),
      (''max_client_conn'', dec (pgb_MaxClientConn c)), (''default_pool_size'', dec (pgb_DefaultPoolSize c)),
      (''min_pool_size'', dec (pgb_MinPoolSize c)), (''reserve_pool_size'', dec (pgb_ReservePoolSize c)),
      (''reserve_pool_timeout'', dec (pgb_ReservePoolTimeout c)),
      (''server_idle_timeout'', dec (pgb_ServerIdleTimeout c)), (''server_lifetime'', dec (pgb_ServerLifetime c))] @
     (if pgb_QueryTimeout c > 0 then [(''query_timeout'', dec (pgb_QueryTimeout c))] else []) @
     (if pgb_ClientIdleTimeout c > 0 then [(''client_idle_timeout'', dec (pgb_ClientIdleTimeout c))] else []) @
     [(''auth_type'', ''scram-sha-256''), (''auth_file'', ''/etc/pgbouncer/userlist.txt''),
      (''admin_users'', ''pgbouncer_admin''), (''stats_users'', clusterName @ ''_stats''),
      (''server_tls_sslmode'', ''prefer''), (''log_connections'', ''0''), (''log_disconnections'', ''0''),
      (''log_pooler_errors'', ''1''), (''ignore_startup_parameters'', ''extra_float_digits'')]"

definition ini_dbs :: "string \<Rightarrow> string \<Rightarrow> (string \<times> string) list" where
  "ini_dbs primaryHost database =
     [(database, ''host='' @ primaryHost @ '' port=5432 dbname='' @ database),
      (''*'', ''host='' @ primaryHost @ '' port=5432'')]"

definition ini_keys :: "string list" where
  "ini_keys = [''listen_port'', ''listen_addr'', ''pool_mode'', ''max_client_conn'', ''default_pool_size'', ''min_pool_size'',
     ''reserve_pool_size'', ''reserve_pool_timeout'', ''server_idle_timeout'', ''server_lifetime'', ''query_timeout'',
     ''client_idle_timeout'', ''auth_type'', ''auth_file'', ''admin_users'', ''stats_users'', ''server_tls_sslmode'',
     ''log_connections'', ''log_disconnections'', ''log_pooler_errors'', ''ignore_startup_parameters'']"

definition clean :: "string \<times> string \<Rightarrow> bool" where
  "clean kv \<longleftrightarrow> good_key (fst kv) \<and> LF \<notin> set (fst kv) \<and> LF \<notin> set (snd kv)"

lemma ini_keys_all: "list_all (\<lambda>k. good_key k \<and> LF \<notin> set k) ini_keys"
  by code_simp

lemmas ini_keys_clean = ini_keys_all [unfolded ini_keys_def list.pred_inject]

lemma INI_sections:
  "INI c n h db = lines_text (''[databases]'' # map setting (ini_dbs h db) @ [[]] @ ''[pgbouncer]'' # map setting (ini_opts c n))"
  by (simp add: INI_def ini_dbs_def ini_opts_def setting_def)

lemma dec_no_LF: "LF \<notin> set (dec n)"
proof -
  have "\<not> is_digit LF" by (simp add: is_digit_def)
  then have "LF \<notin> set (dec_nat k)" for k
    using dec_nat_digits [of k] unfolding list_all_iff by blast
  then show ?thesis by (simp add: dec_def)
qed

lemma INI_read:
  assumes "good_key db" "LF \<notin> set db" "LF \<notin> set host" "LF \<notin> set n" "LF \<notin> set (pgb_PoolMode c)"
  shows "ini_settings (INI c n host db) =
    map (\<lambda>(k, v). (''[databases]'', k, v)) (ini_dbs host db) @ map (\<lambda>(k, v). (''[pgbouncer]'', k, v)) (ini_opts c n)"
  unfolding INI_sections
proof (rule ini_settings_sections)
  have "list_all clean (ini_dbs host db)"
    using assms by (simp add: ini_dbs_def clean_def good_key_def)
  moreover have "list_all clean (ini_opts c n)"
    using assms by (simp add: ini_opts_def clean_def dec_no_LF ini_keys_clean)
  ultimately show "\<forall>kv \<in> set (ini_dbs host db) \<union> set (ini_opts c n).
      good_key (fst kv) \<and> LF \<notin> set (fst kv) \<and> LF \<notin> set (snd kv)"
    unfolding list_all_iff clean_def by blast
qed

text \<open>
  C26. The rendered \<open>pgbouncer.ini\<close>, read back section by section, has exactly the settings of the configuration
  in order, with one entry for the database and one for all others, for every host, cluster and database
  name and pool mode without a line feed, and a database name that is not empty, has no equals sign and does not start with a bracket.
\<close>

theorem INI_round_trip:
  assumes "good_key db" "LF \<notin> set db" "LF \<notin> set host" "LF \<notin> set n" "LF \<notin> set (pgb_PoolMode c)"
  shows "ini_settings (INI c n host db) =
    map (\<lambda>(k, v). (''[databases]'', k, v)) (ini_dbs host db) @ map (\<lambda>(k, v). (''[pgbouncer]'', k, v)) (ini_opts c n)"
  using assms by (rule INI_read)

text \<open>C26 for the default configuration of a cluster.\<close>

theorem INI_round_trip_witness:
  "ini_settings (INI DefaultConfig ''db'' ''db-primary'' ''db'') ! 2 = (''[pgbouncer]'', ''listen_port'', ''5432'')"
proof -
  have clean: "good_key ''db''" "LF \<notin> set ''db''" "LF \<notin> set ''db-primary''"
    by (simp_all add: good_key_def)
  have mode: "LF \<notin> set (pgb_PoolMode DefaultConfig)" by (simp add: DefaultConfig_def)
  have "dec (pgb_ListenPort DefaultConfig) = ''5432''" by (simp add: DefaultConfig_def dec_def dec_nat.simps)
  then show ?thesis
    unfolding INI_round_trip [OF clean(1,2,3,2) mode] by (simp add: ini_opts_def ini_dbs_def)
qed

end
