(* ===== verification/Pooler_Controller.thy ===== *)
theory Pooler_Controller
  imports Cluster_Controller Pgbouncer
begin

section \<open>The pooler reconciler\<close>

text \<open>
  \<open>internal/controller/postgrespooler_controller.go\<close>: for a cluster with the annotation
  \<open>pg.athos.io/enable-pooler\<close> set to true, a ConfigMap with \<open>pgbouncer.ini\<close>, a Deployment and a
  Service. The three steps have one shape, get or create and then overwrite, which \<open>leaves_ensure_wrapped\<close>
  covers.
\<close>

subsection \<open>Operations\<close>

definition poolerLabels :: "PostgresCluster \<Rightarrow> smap" where
  "poolerLabels cluster = [(''app.kubernetes.io/component'', ''pooler''), (''pg.athos.io/cluster'', cluster_name cluster)]"

definition poolerConfigMap :: "PostgresCluster \<Rightarrow> PgbConfig \<Rightarrow> string \<Rightarrow> ConfigMap" where
  "poolerConfigMap cluster cfg primarySvc =
     \<lparr>cm_meta = meta_lit (pgbouncer_ConfigMapName (cluster_name cluster)) (om_Namespace (pgc_meta cluster)) (CommonLabels cluster),
      cm_Data = [(''pgbouncer.ini'', INI cfg (cluster_name cluster) primarySvc (cluster_name cluster))]\<rparr>"

definition reconcilePoolerConfigMap :: "'w env \<Rightarrow> PostgresCluster \<Rightarrow> PgbConfig \<Rightarrow> string \<Rightarrow> ('w, unit) io" where
  "reconcilePoolerConfigMap env cluster cfg primarySvc =
     (let cm = poolerConfigMap cluster cfg primarySvc in
      bindE (wrapE ''setting controller reference on pooler ConfigMap'' (setRef env (KCluster cluster) (cm_meta cm))) (\<lambda>m.
      bindE (tryE (get_as asConfigMap env (key ConfigMapKind m))) (\<lambda>r.
      case r of
        Inl e \<Rightarrow> if \<not> IsNotFound e then failE (Wrap ''getting pooler ConfigMap'' e)
                 else Create env (KConfigMap (cm\<lparr>cm_meta := m\<rparr>))
      | Inr existing \<Rightarrow> Update env (KConfigMap (existing\<lparr>cm_Data := cm_Data cm\<rparr>)))))"

definition poolerContainer :: "PgbConfig \<Rightarrow> Container" where
  "poolerContainer cfg = Container_zero\<lparr>
     c_Name := ''pgbouncer'', c_Image := pgbouncer_Image,
     c_Ports := [\<lparr>cp_Name = ''pgbouncer'', cp_ContainerPort = SafeInt32 (pgb_ListenPort cfg), cp_Protocol = ''TCP''\<rparr>],
     c_VolumeMounts := [\<lparr>vm_Name = ''pgbouncer-config'', vm_MountPath = ''/etc/pgbouncer'', vm_ReadOnly = False\<rparr>],
     c_LivenessProbe := Some
       \<lparr>pr_Handler = TCPSocketAction (IntVal (SafeInt32 (pgb_ListenPort cfg))), pr_InitialDelaySeconds = 5,
        pr_PeriodSeconds = 10, pr_TimeoutSeconds = 0, pr_SuccessThreshold = 0, pr_FailureThreshold = 0\<rparr>\<rparr>"

definition poolerDeployment :: "PostgresCluster \<Rightarrow> PgbConfig \<Rightarrow> Deployment" where
  "poolerDeployment cluster cfg =
     \<lparr>dep_meta = meta_lit (DeploymentName (cluster_name cluster)) (om_Namespace (pgc_meta cluster)) (CommonLabels cluster),
      dep_Spec =
        \<lparr>ds_Replicas = Some 2,
         ds_Selector = \<lparr>ls_MatchLabels = poolerLabels cluster\<rparr>,
         ds_Template =
           \<lparr>pts_meta = meta_lit [] [] (poolerLabels cluster),
            pts_Spec = PodSpec_zero\<lparr>
              ps_Containers := [poolerContainer cfg],
              ps_Volumes := [\<lparr>v_Name = ''pgbouncer-config'',
                v_Source = ConfigMapVolume (pgbouncer_ConfigMapName (cluster_name cluster)) None\<rparr>]\<rparr>\<rparr>\<rparr>\<rparr>"

definition reconcilePoolerDeployment :: "'w env \<Rightarrow> PostgresCluster \<Rightarrow> PgbConfig \<Rightarrow> ('w, unit) io" where
  "reconcilePoolerDeployment env cluster cfg =
     (let deploy = poolerDeployment cluster cfg in
      bindE (wrapE ''setting controller reference on pooler Deployment'' (setRef env (KCluster cluster) (dep_meta deploy))) (\<lambda>m.
      bindE (tryE (get_as asDeployment env (key DeploymentKind m))) (\<lambda>r.
      case r of
        Inl e \<Rightarrow> if \<not> IsNotFound e then failE (Wrap ''getting pooler Deployment'' e)
                 else Create env (KDeployment (deploy\<lparr>dep_meta := m\<rparr>))
      | Inr existing \<Rightarrow> Update env (KDeployment (existing\<lparr>dep_Spec := dep_Spec deploy\<rparr>)))))"

definition poolerService :: "PostgresCluster \<Rightarrow> PgbConfig \<Rightarrow> Service" where
  "poolerService cluster cfg =
     \<lparr>svc_meta = meta_lit (pgbouncer_ServiceName (cluster_name cluster)) (om_Namespace (pgc_meta cluster)) (CommonLabels cluster),
      svc_Spec =
        \<lparr>svs_Type = ''ClusterIP'', svs_ClusterIP = [], svs_PublishNotReadyAddresses = False,
         svs_Selector = poolerLabels cluster,
         svs_Ports = [\<lparr>sp_Name = ''pgbouncer'', sp_Port = SafeInt32 (pgb_ListenPort cfg),
           sp_TargetPort = IntVal (SafeInt32 (pgb_ListenPort cfg)), sp_Protocol = ''TCP''\<rparr>]\<rparr>\<rparr>"

definition reconcilePoolerService :: "'w env \<Rightarrow> PostgresCluster \<Rightarrow> PgbConfig \<Rightarrow> ('w, unit) io" where
  "reconcilePoolerService env cluster cfg =
     (let svc = poolerService cluster cfg in
      bindE (wrapE ''setting controller reference on pooler Service'' (setRef env (KCluster cluster) (svc_meta svc))) (\<lambda>m.
      bindE (tryE (get_as asService env (key ServiceKind m))) (\<lambda>r.
      case r of
        Inl e \<Rightarrow> if \<not> IsNotFound e then failE (Wrap ''getting pooler Service'' e)
                 else Create env (KService (svc\<lparr>svc_meta := m\<rparr>))
      | Inr existing \<Rightarrow>
          Update env (KService (existing\<lparr>svc_Spec := (svc_Spec existing)\<lparr>svs_Ports := svs_Ports (svc_Spec svc)\<rparr>\<rparr>)))))"

definition poolerEnabled :: "PostgresCluster \<Rightarrow> bool" where
  "poolerEnabled cluster \<longleftrightarrow>
     om_DeletionTimestamp (pgc_meta cluster) = None \<and> \<not> pcs_Paused (pgc_Spec cluster) \<and>
     mapidx (om_Annotations (pgc_meta cluster)) ''pg.athos.io/enable-pooler'' = ''true''"

definition Reconcile_pooler :: "'w env \<Rightarrow> string \<Rightarrow> string \<Rightarrow> ('w, Result) io" where
  "Reconcile_pooler env ns name =
     bindE (tryE (get_as asCluster env (ClusterKind, ns, name))) (\<lambda>r.
     case r of
       Inl e \<Rightarrow> if IsNotFound e then retE res_done else failE (Wrap ''getting PostgresCluster'' e)
     | Inr cluster \<Rightarrow>
         if \<not> poolerEnabled cluster then retE res_done
         else
          let cfg = DefaultConfig; primarySvc = PrimaryServiceName cluster in
          thenE (reconcilePoolerConfigMap env cluster cfg primarySvc)
           (thenE (reconcilePoolerDeployment env cluster cfg)
             (thenE (reconcilePoolerService env cluster cfg) (retE res_done))))"

subsection \<open>Steps on a quiet server\<close>

context quiet_env
begin

lemma leaves_ensure_wrapped:
  assumes "keyed (look w)" "k = (kd, om_Namespace m0, om_Name m0)" "ref_ok ow m0"
    "\<And>ob. kind_of ob = kd \<Longrightarrow> \<exists>x. proj ob = Some x"
    "\<And>refs. look w k = None \<Longrightarrow> leaves (onmissing (m0\<lparr>om_OwnerReferences := refs\<rparr>)) w k good"
    "\<And>refs ob x. look w k = Some ob \<Longrightarrow> key_of ob = k \<Longrightarrow> proj ob = Some x \<Longrightarrow>
       leaves (onfound (m0\<lparr>om_OwnerReferences := refs\<rparr>) x) w k good"
  shows "leaves (bindE (wrapE msg (setRef env ow m0)) (\<lambda>m. bindE (tryE (get_as proj env (key kd m))) (\<lambda>r.
           case r of Inl e \<Rightarrow> if \<not> IsNotFound e then failE (Wrap msg' e) else onmissing m
           | Inr x \<Rightarrow> onfound m x))) w k good"
proof -
  obtain refs where refs: "setRef env ow m0 w = (Inr (m0\<lparr>om_OwnerReferences := refs\<rparr>), w)"
    by (rule setRef_ok [OF assms(3)])
  have "leaves (bindE (setRef env ow m0) (\<lambda>m. bindE (tryE (get_as proj env (key kd m))) (\<lambda>r.
           case r of Inl e \<Rightarrow> if IsNotFound e then onmissing m else failE e | Inr x \<Rightarrow> onfound m x))) w k good"
    by (rule leaves_ensure) (use assms in auto)
  moreover obtain r where "get_as proj env (key kd (m0\<lparr>om_OwnerReferences := refs\<rparr>)) w = (r, w)"
    "\<And>e. r = Inl e \<Longrightarrow> IsNotFound e"
  proof (rule get_as_kind [OF assms(1), of "key kd (m0\<lparr>om_OwnerReferences := refs\<rparr>)" proj])
    show "\<And>ob. kind_of ob = fst (key kd (m0\<lparr>om_OwnerReferences := refs\<rparr>)) \<Longrightarrow> proj ob \<noteq> None"
      using assms(4) by (fastforce simp: key_def)
  qed auto
  ultimately show ?thesis using refs by (auto simp: leaves_def split: sum.splits)
qed

lemma PoolerConfigMap_step:
  assumes "keyed (look w)"
  shows "leaves (reconcilePoolerConfigMap env c cfg svc) w
    (ConfigMapKind, om_Namespace (pgc_meta c), pgbouncer_ConfigMapName (cluster_name c))
    (\<lambda>old ob. \<exists>m. ob = KConfigMap m \<and> cm_Data m = cm_Data (poolerConfigMap c cfg svc))"
  unfolding reconcilePoolerConfigMap_def Let_def using assms
  by (intro leaves_ensure_wrapped)
     (auto simp: kind_of_iff poolerConfigMap_def key_of_def intro!: leaves_Create leaves_Update)

lemma PoolerDeployment_step:
  assumes "keyed (look w)"
  shows "leaves (reconcilePoolerDeployment env c cfg) w
    (DeploymentKind, om_Namespace (pgc_meta c), DeploymentName (cluster_name c))
    (\<lambda>old ob. \<exists>d. ob = KDeployment d \<and> dep_Spec d = dep_Spec (poolerDeployment c cfg))"
  unfolding reconcilePoolerDeployment_def Let_def using assms
  by (intro leaves_ensure_wrapped)
     (auto simp: kind_of_iff poolerDeployment_def key_of_def intro!: leaves_Create leaves_Update)

lemma PoolerService_step:
  assumes "keyed (look w)"
  shows "leaves (reconcilePoolerService env c cfg) w
    (ServiceKind, om_Namespace (pgc_meta c), pgbouncer_ServiceName (cluster_name c))
    (\<lambda>old ob. \<exists>s. ob = KService s \<and> svs_Ports (svc_Spec s) = svs_Ports (svc_Spec (poolerService c cfg)))"
  unfolding reconcilePoolerService_def Let_def using assms
  by (intro leaves_ensure_wrapped)
     (auto simp: kind_of_iff poolerService_def key_of_def intro!: leaves_Create leaves_Update)

lemma leaves_keyed:
  assumes "leaves m w k good" "keyed (look w)"
  obtains w' ob where "m w = (Inr (), w')" "look w' = (look w)(k \<mapsto> ob)" "good (look w k) ob" "keyed (look w')"
  using assms by (auto simp: leaves_def)

lemma Reconcile_pooler_run:
  assumes w: "keyed (look w)" "look w (ClusterKind, ns, n) = Some (KCluster c)" and on: "poolerEnabled c"
  obtains w' m d s where "Reconcile_pooler env ns n w = (Inr res_done, w')"
    "look w' = (look w)((ConfigMapKind, om_Namespace (pgc_meta c), pgbouncer_ConfigMapName (cluster_name c)) \<mapsto> KConfigMap m,
      (DeploymentKind, om_Namespace (pgc_meta c), DeploymentName (cluster_name c)) \<mapsto> KDeployment d,
      (ServiceKind, om_Namespace (pgc_meta c), pgbouncer_ServiceName (cluster_name c)) \<mapsto> KService s)"
    "cm_Data m = cm_Data (poolerConfigMap c DefaultConfig (PrimaryServiceName c))"
    "dep_Spec d = dep_Spec (poolerDeployment c DefaultConfig)"
    "svs_Ports (svc_Spec s) = svs_Ports (svc_Spec (poolerService c DefaultConfig))"
proof -
  obtain w1 m where w1: "reconcilePoolerConfigMap env c DefaultConfig (PrimaryServiceName c) w = (Inr (), w1)"
    "look w1 = (look w)((ConfigMapKind, om_Namespace (pgc_meta c), pgbouncer_ConfigMapName (cluster_name c)) \<mapsto> KConfigMap m)"
    "cm_Data m = cm_Data (poolerConfigMap c DefaultConfig (PrimaryServiceName c))" "keyed (look w1)"
    by (rule leaves_keyed [OF PoolerConfigMap_step [OF w(1), of c DefaultConfig "PrimaryServiceName c"] w(1)]) auto
  obtain w2 d where w2: "reconcilePoolerDeployment env c DefaultConfig w1 = (Inr (), w2)"
    "look w2 = (look w1)((DeploymentKind, om_Namespace (pgc_meta c), DeploymentName (cluster_name c)) \<mapsto> KDeployment d)"
    "dep_Spec d = dep_Spec (poolerDeployment c DefaultConfig)" "keyed (look w2)"
    by (rule leaves_keyed [OF PoolerDeployment_step [OF w1(4), of c DefaultConfig] w1(4)]) auto
  obtain w3 s where w3: "reconcilePoolerService env c DefaultConfig w2 = (Inr (), w3)"
    "look w3 = (look w2)((ServiceKind, om_Namespace (pgc_meta c), pgbouncer_ServiceName (cluster_name c)) \<mapsto> KService s)"
    "svs_Ports (svc_Spec s) = svs_Ports (svc_Spec (poolerService c DefaultConfig))"
    by (rule leaves_keyed [OF PoolerService_step [OF w2(4), of c DefaultConfig] w2(4)]) auto
  have "Reconcile_pooler env ns n w = (Inr res_done, w3)"
    using get_found [OF w(2), of asCluster c] on w1(1) w2(1) w3(1) by (simp add: Reconcile_pooler_def Let_def)
  then show ?thesis by (rule that [of w3 m d s]) (simp_all add: w1 w2 w3)
qed

end

subsection \<open>Properties\<close>

text \<open>
  C6. On a server nobody else writes to, one reconcile of a cluster with the pooler turned on succeeds and leaves the
  pooler's ConfigMap, Deployment and Service in the state the cluster asks for, and every other object as it
  was; with the pooler turned off, the cluster paused or being deleted, it changes nothing.
\<close>

theorem Reconcile_pooler_converges:
  assumes "quiet_env env look" "keyed (look w)" "look w (ClusterKind, ns, n) = Some (KCluster c)"
  shows "\<exists>w'. Reconcile_pooler env ns n w = (Inr res_done, w') \<and>
    (if poolerEnabled c then
       \<exists>m d s. look w' = (look w)(
          (ConfigMapKind, om_Namespace (pgc_meta c), pgbouncer_ConfigMapName (cluster_name c)) \<mapsto> KConfigMap m,
          (DeploymentKind, om_Namespace (pgc_meta c), DeploymentName (cluster_name c)) \<mapsto> KDeployment d,
          (ServiceKind, om_Namespace (pgc_meta c), pgbouncer_ServiceName (cluster_name c)) \<mapsto> KService s) \<and>
        cm_Data m = cm_Data (poolerConfigMap c DefaultConfig (PrimaryServiceName c)) \<and>
        dep_Spec d = dep_Spec (poolerDeployment c DefaultConfig) \<and>
        svs_Ports (svc_Spec s) = svs_Ports (svc_Spec (poolerService c DefaultConfig))
     else w' = w)"
proof (cases "poolerEnabled c")
  case True
  then show ?thesis using quiet_env.Reconcile_pooler_run [OF assms True] by metis
next
  case False
  then show ?thesis
    using quiet_env.get_found [OF assms(1,3), of asCluster c] by (simp add: Reconcile_pooler_def)
qed

text \<open>C6 on the demonstration cluster with the annotation.\<close>

theorem Reconcile_pooler_converges_witness:
  "\<exists>w' d. Reconcile_pooler mem_env ''prod'' ''db''
      \<lparr>mem_objs = [((ClusterKind, ''prod'', ''db''), KCluster (demo_cluster\<lparr>pgc_meta := (pgc_meta demo_cluster)\<lparr>
         om_Annotations := [(''pg.athos.io/enable-pooler'', ''true'')]\<rparr>\<rparr>))], mem_events = [], mem_clock = 100\<rparr> = (Inr res_done, w') \<and>
     mem_look w' (DeploymentKind, ''prod'', ''db-pooler'') = Some (KDeployment d) \<and> ds_Replicas (dep_Spec d) = Some 2"
proof -
  let ?c = "demo_cluster\<lparr>pgc_meta := (pgc_meta demo_cluster)\<lparr>om_Annotations := [(''pg.athos.io/enable-pooler'', ''true'')]\<rparr>\<rparr>"
  let ?w = "\<lparr>mem_objs = [((ClusterKind, ''prod'', ''db''), KCluster ?c)], mem_events = [], mem_clock = 100\<rparr>"
  have sel: "om_Name (pgc_meta ?c) = ''db''" "om_Namespace (pgc_meta ?c) = ''prod''" "poolerEnabled ?c"
    by (simp_all add: demo_cluster_def PostgresCluster_zero_def ObjectMeta_zero_def poolerEnabled_def)
  have look: "mem_look ?w (ClusterKind, ''prod'', ''db'') = Some (KCluster ?c)" by (simp add: mem_look_def)
  have keyed: "keyed (mem_look ?w)"
    using sel by (simp add: keyed_def mem_look_def key_of_def)
  from Reconcile_pooler_converges [OF mem.quiet_env_axioms, OF keyed look] sel
  obtain w' m d s where "Reconcile_pooler mem_env ''prod'' ''db'' ?w = (Inr res_done, w')"
    "mem_look w' = (mem_look ?w)((ConfigMapKind, ''prod'', pgbouncer_ConfigMapName ''db'') \<mapsto> KConfigMap m,
        (DeploymentKind, ''prod'', DeploymentName ''db'') \<mapsto> KDeployment d,
        (ServiceKind, ''prod'', pgbouncer_ServiceName ''db'') \<mapsto> KService s)"
    "dep_Spec d = dep_Spec (poolerDeployment ?c DefaultConfig)"
    by auto
  then show ?thesis by (intro exI [of _ w'] exI [of _ d]) (simp add: DeploymentName_def poolerDeployment_def)
qed



text \<open>
  Two clusters can claim one ConfigMap: the pooler's ConfigMap of one cluster is the configuration
  ConfigMap of another exactly when the other is named after it with the suffix \<open>-pgbouncer\<close>, and then each
  controller replaces the data the other wrote.
\<close>

theorem pooler_configmap_collision:
  "(pgbouncer_ConfigMapName (cluster_name c) = ConfigMapName d \<longleftrightarrow> cluster_name d = cluster_name c @ ''-pgbouncer'') \<and>
   map fst (cm_Data (poolerConfigMap c cfg svc)) \<noteq> map fst (cm_Data (BuildConfigMap d))"
proof -
  have "pgbouncer_ConfigMapName (cluster_name c) = (cluster_name c @ ''-pgbouncer'') @ ''-config''"
    "ConfigMapName d = cluster_name d @ ''-config''"
    by (simp_all add: pgbouncer_ConfigMapName_def ConfigMapName_def)
  then have "pgbouncer_ConfigMapName (cluster_name c) = ConfigMapName d \<longleftrightarrow> cluster_name d = cluster_name c @ ''-pgbouncer''"
    by (simp only: append_same_eq) (rule eq_commute)
  then show ?thesis by (simp add: poolerConfigMap_def BuildConfigMap_def Let_def)
qed

end
