(* ===== verification/Decisions.thy ===== *)
theory Decisions
  imports Api_Types
begin

section \<open>Decision functions of the reconcilers\<close>

text \<open>
  The packages \<open>clusterstate\<close> and \<open>poolerstate\<close>: each maps an observed state to the next action. Nothing in the
  repository carries the actions out; the lemmas say in which states each of them is decided.
\<close>

subsection \<open>\<open>clusterstate\<close>\<close>

datatype ClusterAction =
    ActionNothing | ActionScaleUp | ActionScaleDown | ActionUpdateImage | ActionFailover
  | ActionAwaitReady | ActionRecover

record ClusterObserved =
  co_DesiredReplicas :: int
  co_CurrentReplicas :: int
  co_ReadyReplicas :: int
  co_DesiredImage :: string
  co_CurrentImage :: string
  co_PrimaryHealthy :: bool
  co_HasPersistedData :: bool

fun cluster_action_text :: "ClusterAction \<Rightarrow> string" where
  "cluster_action_text ActionNothing = ''Nothing''"
| "cluster_action_text ActionScaleUp = ''ScaleUp''"
| "cluster_action_text ActionScaleDown = ''ScaleDown''"
| "cluster_action_text ActionUpdateImage = ''UpdateImage''"
| "cluster_action_text ActionFailover = ''Failover''"
| "cluster_action_text ActionAwaitReady = ''AwaitReady''"
| "cluster_action_text ActionRecover = ''Recover''"

definition clusterstate_Evaluate :: "unitab \<Rightarrow> ClusterObserved \<Rightarrow> ClusterAction \<times> string" where
  "clusterstate_Evaluate u o1 =
     (if \<not> co_HasPersistedData o1 \<and> co_CurrentReplicas o1 > 0 then
        (ActionRecover, ''PVCs exist but contain no PostgreSQL data; restore from backup'')
      else if \<not> co_PrimaryHealthy o1 \<and> co_ReadyReplicas o1 > 0 then
        (ActionFailover, ''primary is unhealthy and at least one replica is ready'')
      else if co_CurrentImage o1 \<noteq> [] \<and> co_DesiredImage o1 \<noteq> [] \<and> co_CurrentImage o1 \<noteq> co_DesiredImage o1 then
        (ActionUpdateImage, ''image change from '' @ Quote u (co_CurrentImage o1) @ '' to '' @ Quote u (co_DesiredImage o1))
      else if co_DesiredReplicas o1 > co_CurrentReplicas o1 then
        (ActionScaleUp, dec (co_CurrentReplicas o1) @ ''/'' @ dec (co_DesiredReplicas o1) @ '' replicas present'')
      else if co_DesiredReplicas o1 < co_CurrentReplicas o1 then
        (ActionScaleDown, ''scale from '' @ dec (co_CurrentReplicas o1) @ '' to '' @ dec (co_DesiredReplicas o1) @ '' replicas'')
      else if co_ReadyReplicas o1 < co_DesiredReplicas o1 then
        (ActionAwaitReady, ''waiting for '' @ dec (i32 (co_DesiredReplicas o1 - co_ReadyReplicas o1)) @
           '' more replicas to become ready'')
      else (ActionNothing, ''cluster is in the desired state''))"

definition clusterstate_String :: "ClusterAction \<times> string \<Rightarrow> string" where
  "clusterstate_String d = cluster_action_text (fst d) @ '': '' @ snd d"

definition clusterstate_IsTerminal :: "ClusterAction \<Rightarrow> bool" where
  "clusterstate_IsTerminal a \<longleftrightarrow> a = ActionNothing \<or> a = ActionAwaitReady"

text \<open>The state a destructive or scaling action is decided in.\<close>

lemma cluster_action_direction:
  "fst (clusterstate_Evaluate u s) = ActionScaleUp \<Longrightarrow>
     co_CurrentReplicas s < co_DesiredReplicas s \<and> (co_HasPersistedData s \<or> co_CurrentReplicas s \<le> 0)"
  "fst (clusterstate_Evaluate u s) = ActionScaleDown \<Longrightarrow>
     co_DesiredReplicas s < co_CurrentReplicas s \<and> (co_PrimaryHealthy s \<or> co_ReadyReplicas s \<le> 0)"
  "fst (clusterstate_Evaluate u s) = ActionFailover \<Longrightarrow> \<not> co_PrimaryHealthy s \<and> 0 < co_ReadyReplicas s"
  unfolding clusterstate_Evaluate_def by (auto split: if_split_asm)

text \<open>A terminal decision means that nothing but readiness is missing.\<close>

lemma cluster_terminalD:
  assumes "clusterstate_IsTerminal (fst (clusterstate_Evaluate u s))"
  shows "co_CurrentReplicas s = co_DesiredReplicas s"
    "co_HasPersistedData s \<or> co_CurrentReplicas s \<le> 0"
    "co_PrimaryHealthy s \<or> co_ReadyReplicas s \<le> 0"
    "co_CurrentImage s = co_DesiredImage s \<or> co_CurrentImage s = [] \<or> co_DesiredImage s = []"
    "fst (clusterstate_Evaluate u s) = ActionNothing \<longleftrightarrow> co_DesiredReplicas s \<le> co_ReadyReplicas s"
  using assms unfolding clusterstate_Evaluate_def clusterstate_IsTerminal_def
  by (simp_all split: if_split_asm) (auto simp: not_less)

subsection \<open>\<open>poolerstate\<close>\<close>

datatype PoolerAction = PoolerNothing | PoolerCreate | PoolerScale | PoolerUpdateConfig | PoolerAwaitReady

record PoolerObserved =
  po_DesiredReplicas :: int
  po_CurrentReplicas :: int
  po_ReadyReplicas :: int
  po_DesiredConfig :: string
  po_CurrentConfig :: string
  po_DeploymentReady :: bool
  po_ConfigMapExists :: bool
  po_ServiceExists :: bool

fun pooler_action_text :: "PoolerAction \<Rightarrow> string" where
  "pooler_action_text PoolerNothing = ''Nothing''"
| "pooler_action_text PoolerCreate = ''Create''"
| "pooler_action_text PoolerScale = ''Scale''"
| "pooler_action_text PoolerUpdateConfig = ''UpdateConfig''"
| "pooler_action_text PoolerAwaitReady = ''AwaitReady''"

definition poolerstate_Evaluate :: "PoolerObserved \<Rightarrow> PoolerAction \<times> string" where
  "poolerstate_Evaluate o1 =
     (if \<not> po_ConfigMapExists o1 \<or> \<not> po_ServiceExists o1 then (PoolerCreate, ''missing config map or service'')
      else if po_DesiredConfig o1 \<noteq> [] \<and> po_DesiredConfig o1 \<noteq> po_CurrentConfig o1 then
        (PoolerUpdateConfig, ''config drift detected'')
      else if po_DesiredReplicas o1 \<noteq> po_CurrentReplicas o1 then
        (PoolerScale, ''scale from '' @ dec (po_CurrentReplicas o1) @ '' to '' @ dec (po_DesiredReplicas o1) @ '' replicas'')
      else if \<not> po_DeploymentReady o1 \<or> po_ReadyReplicas o1 < po_DesiredReplicas o1 then
        (PoolerAwaitReady, dec (po_ReadyReplicas o1) @ ''/'' @ dec (po_DesiredReplicas o1) @ '' replicas ready'')
      else (PoolerNothing, ''pooler is in the desired state''))"

definition poolerstate_String :: "PoolerAction \<times> string \<Rightarrow> string" where
  "poolerstate_String d = pooler_action_text (fst d) @ '': '' @ snd d"

definition poolerstate_IsTerminal :: "PoolerAction \<Rightarrow> bool" where
  "poolerstate_IsTerminal a \<longleftrightarrow> a = PoolerNothing \<or> a = PoolerAwaitReady"

lemma pooler_terminalD:
  assumes "poolerstate_IsTerminal (fst (poolerstate_Evaluate s))"
  shows "po_ConfigMapExists s" "po_ServiceExists s" "po_DesiredConfig s = [] \<or> po_CurrentConfig s = po_DesiredConfig s"
    "po_CurrentReplicas s = po_DesiredReplicas s"
  using assms unfolding poolerstate_Evaluate_def poolerstate_IsTerminal_def by (auto split: if_split_asm)

end
