(* ===== verification/Rollout.thy ===== *)
theory Rollout
  imports Api_Types
begin

section \<open>Rolling updates and version upgrades\<close>

text \<open>
  The packages \<open>rolerollout\<close> (which pod to update next), \<open>upgrade\<close> and \<open>upgradepolicy\<close> (which version
  changes are allowed). The rollout itself is the step relation \<open>rstep\<close>: the planner's pod is replaced
  by one on the desired image, which is not healthy yet, and pods become healthy at any time.
\<close>

subsection \<open>The rollout planner\<close>

record RPod =
  rp_Name :: string
  rp_Ordinal :: int
  rp_IsPrimary :: bool
  rp_HealthyOK :: bool
  rp_OnDesiredImage :: bool

text \<open>The loop collects the pending replicas in order and keeps the last pending primary.\<close>

fun plan_loop :: "RPod list \<Rightarrow> RPod list \<Rightarrow> RPod option \<Rightarrow> RPod list \<times> RPod option" where
  "plan_loop [] pending primary = (pending, primary)"
| "plan_loop (p # pods) pending primary =
     (if rp_OnDesiredImage p then plan_loop pods pending primary
      else if rp_IsPrimary p then plan_loop pods pending (Some p)
      else plan_loop pods (pending @ [p]) primary)"

text \<open>\<open>sort.Slice\<close> by descending ordinal; pods of one StatefulSet have different ordinals, so the order
  is unique (\<open>sort_desc_unique\<close> below) although \<open>sort.Slice\<close> promises no stability.\<close>

definition rolerollout_Plan :: "RPod list \<Rightarrow> RPod list" where
  "rolerollout_Plan pods =
     (case plan_loop pods [] None of (pending, primary) \<Rightarrow>
        sort_key (\<lambda>p. - rp_Ordinal p) pending @ (case primary of None \<Rightarrow> [] | Some p \<Rightarrow> [p]))"

definition CanProceed :: "RPod list \<Rightarrow> bool" where
  "CanProceed pods \<longleftrightarrow> \<not> list_ex (\<lambda>p. rp_OnDesiredImage p \<and> \<not> rp_HealthyOK p) pods"

definition IsComplete :: "RPod list \<Rightarrow> bool" where
  "IsComplete pods \<longleftrightarrow> pods \<noteq> [] \<and> \<not> list_ex (\<lambda>p. \<not> rp_OnDesiredImage p \<or> \<not> rp_HealthyOK p) pods"

definition PendingCount :: "RPod list \<Rightarrow> nat" where
  "PendingCount pods = length (filter (\<lambda>p. \<not> rp_OnDesiredImage p) pods)"

definition rolerollout_Next :: "RPod list \<Rightarrow> RPod option" where
  "rolerollout_Next pods =
     (case rolerollout_Plan pods of
        [] \<Rightarrow> None
      | first # _ \<Rightarrow> if \<not> CanProceed pods then None else Some first)"

lemma plan_loop_eq:
  "plan_loop pods pending primary =
     (pending @ filter (\<lambda>p. \<not> rp_OnDesiredImage p \<and> \<not> rp_IsPrimary p) pods,
      case rev (filter (\<lambda>p. \<not> rp_OnDesiredImage p \<and> rp_IsPrimary p) pods) of [] \<Rightarrow> primary | p # _ \<Rightarrow> Some p)"
  by (induction pods pending primary rule: plan_loop.induct) (auto split: list.split)

lemma filter_key_distinct:
  "distinct (map f zs) \<Longrightarrow> k \<in> set zs \<Longrightarrow> filter (\<lambda>x. f k = f x) zs = [k]"
proof (induction zs)
  case (Cons z zs)
  show ?case
  proof (cases "k = z")
    case True
    with Cons.prems(1) have "\<forall>x \<in> set zs. f k \<noteq> f x" by auto
    with True show ?thesis by (simp add: filter_False)
  next
    case False
    with Cons.prems have "k \<in> set zs" by simp
    moreover from this have "f k \<in> f ` set zs" by simp
    with Cons.prems(1) have "f k \<noteq> f z" by auto
    ultimately show ?thesis using Cons by simp
  qed
qed simp

lemma sort_desc_unique:
  fixes xs ys :: "RPod list"
  assumes "mset ys = mset xs" "sorted_wrt (\<lambda>p q. rp_Ordinal p \<ge> rp_Ordinal q) ys" "distinct (map rp_Ordinal xs)"
  shows "sort_key (\<lambda>p. - rp_Ordinal p) xs = ys"
proof (rule properties_for_sort_key)
  show "mset ys = mset xs" by (rule assms(1))
  from assms(2) show "sorted (map (\<lambda>p. - rp_Ordinal p) ys)" by (simp add: sorted_map)
  fix k
  assume k: "k \<in> set ys"
  have ys: "distinct (map rp_Ordinal ys)"
    using assms(1,3) by (metis mset_map mset_eq_imp_distinct_iff)
  from k assms(1) have "k \<in> set xs" by (metis set_mset_mset)
  with filter_key_distinct [OF ys k] filter_key_distinct [OF assms(3), of k]
  show "filter (\<lambda>x. - rp_Ordinal k = - rp_Ordinal x) ys = filter (\<lambda>x. - rp_Ordinal k = - rp_Ordinal x) xs"
    by simp
qed

subsection \<open>The rollout as a step relation\<close>

definition at_ordinal :: "int \<Rightarrow> (RPod \<Rightarrow> RPod) \<Rightarrow> RPod list \<Rightarrow> RPod list" where
  "at_ordinal i f pods = map (\<lambda>p. if rp_Ordinal p = i then f p else p) pods"

definition touch :: "RPod \<Rightarrow> RPod" where
  "touch p = p\<lparr>rp_OnDesiredImage := True, rp_HealthyOK := False\<rparr>"

definition heal :: "RPod \<Rightarrow> RPod" where
  "heal p = p\<lparr>rp_HealthyOK := True\<rparr>"

inductive rstep :: "RPod list \<Rightarrow> RPod list \<Rightarrow> bool" where
  updated: "rolerollout_Next pods = Some p \<Longrightarrow> rstep pods (at_ordinal (rp_Ordinal p) touch pods)"
| healed: "p \<in> set pods \<Longrightarrow> \<not> rp_HealthyOK p \<Longrightarrow> rstep pods (at_ordinal (rp_Ordinal p) heal pods)"

inductive_cases rstepE [elim]: "rstep pods pods'"

definition in_flight :: "RPod list \<Rightarrow> nat" where
  "in_flight pods = length (filter (\<lambda>p. rp_OnDesiredImage p \<and> \<not> rp_HealthyOK p) pods)"

definition unhealthy :: "RPod list \<Rightarrow> nat" where
  "unhealthy pods = length (filter (\<lambda>p. \<not> rp_HealthyOK p) pods)"

abbreviation one_each :: "RPod list \<Rightarrow> bool" where
  "one_each pods \<equiv> distinct (map rp_Ordinal pods)"

lemma ordinals_at_ordinal [simp]:
  "(\<And>p. rp_Ordinal (f p) = rp_Ordinal p) \<Longrightarrow> map rp_Ordinal (at_ordinal i f pods) = map rp_Ordinal pods"
  by (induction pods) (auto simp: at_ordinal_def)

lemma touch_sel [simp]:
  "rp_Ordinal (touch p) = rp_Ordinal p" "rp_IsPrimary (touch p) = rp_IsPrimary p"
  "rp_OnDesiredImage (touch p)" "\<not> rp_HealthyOK (touch p)"
  by (simp_all add: touch_def)

lemma heal_sel [simp]:
  "rp_Ordinal (heal p) = rp_Ordinal p" "rp_IsPrimary (heal p) = rp_IsPrimary p"
  "rp_OnDesiredImage (heal p) = rp_OnDesiredImage p" "rp_HealthyOK (heal p)"
  by (simp_all add: heal_def)

text \<open>With one pod per ordinal, changing the pod at an ordinal changes one element.\<close>

lemma at_ordinal_absent: "i \<notin> set (map rp_Ordinal pods) \<Longrightarrow> at_ordinal i f pods = pods"
  by (induction pods) (simp_all add: at_ordinal_def)

lemma at_ordinal_split:
  assumes "one_each pods" "p \<in> set pods"
  obtains xs ys where "pods = xs @ p # ys" "at_ordinal (rp_Ordinal p) f pods = xs @ f p # ys"
proof -
  from assms(2) obtain xs ys where pods: "pods = xs @ p # ys" by (meson split_list)
  with assms(1) have "at_ordinal (rp_Ordinal p) f xs = xs" "at_ordinal (rp_Ordinal p) f ys = ys"
    by (simp_all add: at_ordinal_absent)
  then have "at_ordinal (rp_Ordinal p) f pods = xs @ f p # ys"
    by (simp add: pods at_ordinal_def)
  with pods show ?thesis by (rule that)
qed

abbreviation pending_replicas :: "RPod list \<Rightarrow> RPod list" where
  "pending_replicas pods \<equiv> filter (\<lambda>p. \<not> rp_OnDesiredImage p \<and> \<not> rp_IsPrimary p) pods"

abbreviation pending_primaries :: "RPod list \<Rightarrow> RPod list" where
  "pending_primaries pods \<equiv> filter (\<lambda>p. \<not> rp_OnDesiredImage p \<and> rp_IsPrimary p) pods"

lemma Plan_eq:
  "rolerollout_Plan pods = sort_key (\<lambda>p. - rp_Ordinal p) (pending_replicas pods) @ take 1 (rev (pending_primaries pods))"
  by (cases "rev (pending_primaries pods)") (simp_all add: rolerollout_Plan_def plan_loop_eq)

lemma sort_key_Nil_iff: "sort_key f xs = [] \<longleftrightarrow> xs = []"
  by (simp only: length_0_conv [symmetric] length_sort)

lemma Plan_empty: "rolerollout_Plan pods = [] \<longleftrightarrow> PendingCount pods = 0"
proof -
  have "rolerollout_Plan pods = [] \<longleftrightarrow> pending_replicas pods = [] \<and> pending_primaries pods = []"
    unfolding Plan_eq append_is_Nil_conv sort_key_Nil_iff take_eq_Nil by simp
  also have "\<dots> \<longleftrightarrow> PendingCount pods = 0"
    by (auto simp: PendingCount_def filter_empty_conv)
  finally show ?thesis .
qed

lemma Plan_first:
  assumes "rolerollout_Plan pods = p # rest"
  shows "p \<in> set (pending_replicas pods) \<or> pending_replicas pods = [] \<and> p \<in> set (pending_primaries pods)"
proof (cases "sort_key (\<lambda>p. - rp_Ordinal p) (pending_replicas pods)")
  case Nil
  then have "pending_replicas pods = []" by (simp only: sort_key_Nil_iff)
  moreover from Nil assms have "p \<in> set (rev (pending_primaries pods))"
    by (cases "rev (pending_primaries pods)") (simp_all add: Plan_eq)
  ultimately show ?thesis by simp
next
  case (Cons r rs)
  with assms have "p = r" unfolding Plan_eq by simp
  moreover have "r \<in> set (sort_key (\<lambda>p. - rp_Ordinal p) (pending_replicas pods))" unfolding Cons by simp
  then have "r \<in> set (pending_replicas pods)" by (simp only: set_sort)
  ultimately show ?thesis by blast
qed

lemma NextD:
  assumes "rolerollout_Next pods = Some p"
  shows "p \<in> set pods" "\<not> rp_OnDesiredImage p" "CanProceed pods"
    "rp_IsPrimary p \<Longrightarrow> q \<in> set pods \<Longrightarrow> \<not> rp_IsPrimary q \<Longrightarrow> rp_OnDesiredImage q"
proof -
  from assms obtain rest where "rolerollout_Plan pods = p # rest" and can: "CanProceed pods"
    by (auto simp: rolerollout_Next_def split: list.splits if_splits)
  then have p: "p \<in> set (pending_replicas pods) \<or> pending_replicas pods = [] \<and> p \<in> set (pending_primaries pods)"
    by (intro Plan_first)
  from p show "p \<in> set pods" "\<not> rp_OnDesiredImage p" by auto
  show "CanProceed pods" by (rule can)
  from p show "rp_OnDesiredImage q" if "rp_IsPrimary p" "q \<in> set pods" "\<not> rp_IsPrimary q"
    using that by (auto simp: filter_empty_conv)
qed

lemma CanProceed_in_flight: "CanProceed pods \<longleftrightarrow> in_flight pods = 0"
  by (auto simp: CanProceed_def in_flight_def filter_empty_conv list_ex_iff)

lemma rstep_cases:
  assumes "rstep pods pods'" "one_each pods"
  obtains p xs ys where "rolerollout_Next pods = Some p" "pods = xs @ p # ys" "pods' = xs @ touch p # ys"
  | p xs ys where "\<not> rp_HealthyOK p" "pods = xs @ p # ys" "pods' = xs @ heal p # ys"
  using assms(1)
proof cases
  case (updated p)
  then show ?thesis using at_ordinal_split [OF assms(2) NextD(1) [OF updated(2)]] that(1) by metis
next
  case (healed p)
  then show ?thesis using at_ordinal_split [OF assms(2) healed(2)] that(2) by metis
qed

lemma rstep_one_each: "rstep pods pods' \<Longrightarrow> one_each pods \<Longrightarrow> one_each pods'"
  by (erule rstepE) simp_all

lemma rstep_in_flight:
  assumes "rstep pods pods'" "one_each pods" "in_flight pods \<le> 1"
  shows "in_flight pods' \<le> 1"
  using assms(1,2)
proof (cases rule: rstep_cases)
  case (1 p xs ys)
  then have "in_flight pods = 0" "\<not> rp_OnDesiredImage p" using NextD [OF 1(1)] by (simp_all add: CanProceed_in_flight)
  with 1 show ?thesis by (simp add: in_flight_def)
next
  case (2 p xs ys)
  with assms(3) show ?thesis by (simp add: in_flight_def split: if_splits)
qed

definition rollout_rank :: "RPod list \<Rightarrow> nat" where
  "rollout_rank pods = 2 * PendingCount pods + unhealthy pods"

lemma rstep_rank:
  assumes "rstep pods pods'" "one_each pods"
  shows "rollout_rank pods' < rollout_rank pods"
  using assms
proof (cases rule: rstep_cases)
  case (1 p xs ys)
  then have "\<not> rp_OnDesiredImage p" using NextD(2) by blast
  with 1 show ?thesis by (simp add: rollout_rank_def PendingCount_def unhealthy_def)
next
  case (2 p xs ys)
  then show ?thesis by (simp add: rollout_rank_def PendingCount_def unhealthy_def)
qed

lemma rstep_exists:
  assumes "pods \<noteq> []" "\<not> IsComplete pods"
  shows "\<exists>pods'. rstep pods pods'"
proof (cases "\<exists>p \<in> set pods. \<not> rp_HealthyOK p")
  case True
  then show ?thesis by (blast intro: rstep.healed)
next
  case False
  then have "CanProceed pods" by (auto simp: CanProceed_def list_ex_iff)
  moreover have "PendingCount pods \<noteq> 0"
    using assms False by (auto simp: IsComplete_def PendingCount_def list_ex_iff filter_empty_conv)
  then obtain p rest where "rolerollout_Plan pods = p # rest"
    using Plan_empty [of pods] by (cases "rolerollout_Plan pods") auto
  ultimately have "rolerollout_Next pods = Some p" by (simp add: rolerollout_Next_def)
  then show ?thesis by (blast intro: rstep.updated)
qed

lemma rollout_run:
  assumes "(rstep ^^ k) pods0 pods" "one_each pods0"
  shows "one_each pods \<and> rollout_rank pods + k \<le> rollout_rank pods0 \<and> (pods0 \<noteq> [] \<longrightarrow> pods \<noteq> [])"
  using assms
proof (induction k arbitrary: pods)
  case (Suc k)
  then obtain mid where mid: "(rstep ^^ k) pods0 mid" "rstep mid pods" by auto
  with Suc have ih: "one_each mid" "rollout_rank mid + k \<le> rollout_rank pods0" "pods0 \<noteq> [] \<longrightarrow> mid \<noteq> []" by blast+
  have "length pods = length mid" using mid(2) by (auto simp: at_ordinal_def)
  then have "pods \<noteq> [] \<longleftrightarrow> mid \<noteq> []" by auto
  with ih rstep_rank [OF mid(2) ih(1)] rstep_one_each [OF mid(2) ih(1)] show ?case by simp
qed simp

subsection \<open>Properties\<close>

text \<open>
  C10. A rolling update disturbs one pod at a time. From pods with different ordinals whose updated pods are healthy, after
  any interleaving of planned updates and recoveries at most one updated pod is not healthy; the next pod
  planned is a pod not yet on the desired image, all updated pods are healthy at that moment, and the
  primary is planned only when every other pod is updated and healthy.
\<close>

theorem rollout_one_at_a_time:
  assumes "one_each pods0" "CanProceed pods0" "rstep\<^sup>*\<^sup>* pods0 pods"
  shows "in_flight pods \<le> 1 \<and>
    (\<forall>p. rolerollout_Next pods = Some p \<longrightarrow> p \<in> set pods \<and> \<not> rp_OnDesiredImage p \<and> in_flight pods = 0 \<and>
      (rp_IsPrimary p \<longrightarrow> (\<forall>q \<in> set pods. \<not> rp_IsPrimary q \<longrightarrow> rp_OnDesiredImage q \<and> rp_HealthyOK q)))"
proof -
  from assms(3) have "in_flight pods \<le> 1 \<and> one_each pods"
  proof (induction rule: rtranclp_induct)
    case base
    with assms(1,2) show ?case by (simp add: CanProceed_in_flight)
  next
    case (step mid pods)
    then show ?case using rstep_in_flight rstep_one_each by blast
  qed
  moreover have "rp_HealthyOK q" if "rolerollout_Next pods = Some p" "q \<in> set pods" "rp_OnDesiredImage q" for p q
    using NextD(3) [OF that(1)] that(2,3) by (auto simp: CanProceed_def list_ex_iff)
  moreover have "in_flight pods = 0" if "rolerollout_Next pods = Some p" for p
    using NextD(3) [OF that] by (simp add: CanProceed_in_flight)
  ultimately show ?thesis using NextD(1,2,4) [of pods] by blast
qed

definition demo_pods :: "RPod list" where
  "demo_pods = map (\<lambda>i. \<lparr>rp_Name = ''db-'' @ dec i, rp_Ordinal = i, rp_IsPrimary = (i = 0), rp_HealthyOK = True,
     rp_OnDesiredImage = False\<rparr>) [0, 1, 2]"

lemma demo_first: "rstep demo_pods (at_ordinal 2 touch demo_pods)"
proof -
  have "map_option rp_Ordinal (rolerollout_Next demo_pods) = Some 2" by code_simp
  then obtain p where "rolerollout_Next demo_pods = Some p" "rp_Ordinal p = 2" by auto
  then show ?thesis using rstep.updated by metis
qed

text \<open>C10 after the first update of a cluster of three: the replica with the highest ordinal is in flight.\<close>

theorem rollout_one_at_a_time_witness:
  "in_flight (at_ordinal 2 touch demo_pods) \<le> 1 \<and> in_flight (at_ordinal 2 touch demo_pods) = 1"
proof -
  have "one_each demo_pods" "CanProceed demo_pods" by code_simp+
  moreover have "rstep\<^sup>*\<^sup>* demo_pods (at_ordinal 2 touch demo_pods)" using demo_first by blast
  ultimately have "in_flight (at_ordinal 2 touch demo_pods) \<le> 1" using rollout_one_at_a_time by blast
  moreover have "in_flight (at_ordinal 2 touch demo_pods) = 1" by code_simp
  ultimately show ?thesis by simp
qed

text \<open>
  C11. A rolling update ends. A run of updates and recoveries from n pods that need the update and m unhealthy pods has at
  most 2n + m steps, and one that cannot go on has every pod on the desired image and healthy.
\<close>

theorem rollout_completes:
  assumes "one_each pods0" "pods0 \<noteq> []" "(rstep ^^ k) pods0 pods"
  shows "k \<le> 2 * PendingCount pods0 + unhealthy pods0 \<and> (IsComplete pods \<or> (\<exists>pods'. rstep pods pods'))"
  using rollout_run [OF assms(3,1)] assms(2) rstep_exists [of pods] by (auto simp: rollout_rank_def)

text \<open>C11 for the cluster of three after its first step.\<close>

theorem rollout_completes_witness:
  "1 \<le> 2 * PendingCount demo_pods + unhealthy demo_pods \<and> (\<exists>pods'. rstep (at_ordinal 2 touch demo_pods) pods')"
proof -
  have "one_each demo_pods" by code_simp
  moreover have "demo_pods \<noteq> []" by (simp add: demo_pods_def)
  moreover have "(rstep ^^ 1) demo_pods (at_ordinal 2 touch demo_pods)" using demo_first by (simp only: relpowp_1)
  ultimately have "1 \<le> 2 * PendingCount demo_pods + unhealthy demo_pods \<and>
      (IsComplete (at_ordinal 2 touch demo_pods) \<or> (\<exists>pods'. rstep (at_ordinal 2 touch demo_pods) pods'))"
    by (rule rollout_completes)
  moreover have "\<not> IsComplete (at_ordinal 2 touch demo_pods)" by code_simp
  ultimately show ?thesis by simp
qed

end
