(* ===== verification/Upgrades.thy ===== *)
theory Upgrades
  imports Api_Types
begin

section \<open>Version upgrades\<close>

text \<open>
  The packages \<open>upgrade\<close> and \<open>upgradepolicy\<close>: which change of the PostgreSQL major version is
  allowed, and which can be done in place. \<open>SupportedTargets\<close> is a loop over machine integers that does
  not end when its upper bound is the largest int, so it is a \<open>partial_function\<close>.
\<close>

subsection \<open>\<open>upgrade\<close>\<close>

definition MinSupportedVersion :: int where [simp]: "MinSupportedVersion = 14"
definition MaxSupportedVersion :: int where [simp]: "MaxSupportedVersion = 17"
definition AnnotationUpgradeApproved :: string where "AnnotationUpgradeApproved = ''pg.athos.io/upgrade-approved''"
definition LabelUpgradeInProgress :: string where "LabelUpgradeInProgress = ''pg.athos.io/upgrade-in-progress''"

datatype UpgradeKind = KindNone | KindMinor | KindMajor

fun upgrade_String :: "UpgradeKind \<Rightarrow> string" where
  "upgrade_String KindMinor = ''minor''"
| "upgrade_String KindMajor = ''major''"
| "upgrade_String KindNone = ''none''"

record UpgradePlan =
  up_Kind :: UpgradeKind
  up_FromVersion :: int
  up_ToVersion :: int

datatype upgrade_error = UnsupportedVersion int | DowngradeFromTo int int

definition ValidateVersion :: "int \<Rightarrow> upgrade_error option" where
  "ValidateVersion version =
     (if version < MinSupportedVersion \<or> version > MaxSupportedVersion then Some (UnsupportedVersion version) else None)"

definition upgrade_Classify :: "PostgresCluster \<Rightarrow> int \<Rightarrow> upgrade_error + UpgradePlan" where
  "upgrade_Classify cluster currentVersion =
     (let target = pcs_PostgresVersion (pgc_Spec cluster);
          plan = (\<lambda>k. \<lparr>up_Kind = k, up_FromVersion = currentVersion, up_ToVersion = target\<rparr>) in
      case ValidateVersion target of
        Some e \<Rightarrow> Inl e
      | None \<Rightarrow>
          if target = currentVersion then Inr (plan KindNone)
          else if target < currentVersion then Inl (DowngradeFromTo currentVersion target)
          else if i32 (target - currentVersion) = 0 then Inr (plan KindNone)
          else if gquot currentVersion 1 = gquot target 1 then Inr (plan KindMinor)
          else Inr (plan KindMajor))"

definition MajorUpgradeApproved :: "PostgresCluster \<Rightarrow> bool" where
  "MajorUpgradeApproved cluster \<longleftrightarrow> mapidx (om_Annotations (pgc_meta cluster)) AnnotationUpgradeApproved = ''true''"

definition UpgradeInProgress :: "PostgresCluster \<Rightarrow> bool" where
  "UpgradeInProgress cluster \<longleftrightarrow> mapidx (om_Labels (pgc_meta cluster)) LabelUpgradeInProgress = ''true''"

definition ImageTag :: "int \<Rightarrow> string" where
  "ImageTag majorVersion = ''postgres:'' @ dec majorVersion"

definition ImageTagAlpine :: "int \<Rightarrow> string" where
  "ImageTagAlpine majorVersion = ''postgres:'' @ dec majorVersion @ ''-alpine''"

definition UpgradeJobName :: "string \<Rightarrow> int \<Rightarrow> int \<Rightarrow> string" where
  "UpgradeJobName clusterName fromVersion toVersion =
     clusterName @ ''-upgrade-'' @ dec fromVersion @ ''-to-'' @ dec toVersion"

definition SupportedVersions :: "int list" where
  "SupportedVersions = [MinSupportedVersion..MaxSupportedVersion]"

subsection \<open>\<open>upgradepolicy\<close>\<close>

datatype UpgradeClass = ClassNoChange | ClassMinor | ClassMajorInPlace | ClassMajorLogical | ClassDowngrade

datatype policy_error = VersionsMustBePositive | RequiresLogical int int | CannotDowngrade int int

definition policy_Classify :: "int \<Rightarrow> int \<Rightarrow> policy_error + UpgradeClass" where
  "policy_Classify current target =
     (if current \<le> 0 \<or> target \<le> 0 then Inl VersionsMustBePositive
      else if current = target then Inr ClassNoChange
      else if target < current then Inr ClassDowngrade
      else let step = i64 (target - current) in
        if step = 0 then Inr ClassNoChange
        else if step \<le> 1 then Inr ClassMajorInPlace
        else if step \<le> 3 then Inr ClassMajorInPlace
        else Inr ClassMajorLogical)"

partial_function (option) targets_loop :: "int \<Rightarrow> int \<Rightarrow> int list \<Rightarrow> int list option" where
  "targets_loop v hi out = (if v \<le> hi then targets_loop (i64 (v + 1)) hi (out @ [v]) else Some out)"

declare targets_loop.simps [code]

definition SupportedTargets :: "int \<Rightarrow> int list option" where
  "SupportedTargets current = (if current \<le> 0 then Some [] else targets_loop current (i64 (current + 3)) [])"

definition IsSafe :: "int \<Rightarrow> int \<Rightarrow> policy_error option" where
  "IsSafe current target =
     (case policy_Classify current target of
        Inl e \<Rightarrow> Some e
      | Inr c \<Rightarrow>
          (case c of
             ClassNoChange \<Rightarrow> None
           | ClassMinor \<Rightarrow> None
           | ClassMajorInPlace \<Rightarrow> None
           | ClassMajorLogical \<Rightarrow> Some (RequiresLogical current target)
           | ClassDowngrade \<Rightarrow> Some (CannotDowngrade current target)))"

lemma targets_loop_run:
  assumes "is_int64 (hi + 1)" "v \<le> hi + 1" "- (2 ^ 63) \<le> v"
  shows "targets_loop v hi out = Some (out @ [v..hi])"
  using assms
proof (induction "nat (hi + 1 - v)" arbitrary: v out)
  case 0
  then have "v = hi + 1" by simp
  then show ?case by (subst targets_loop.simps) simp
next
  case (Suc k)
  then have "v \<le> hi" "k = nat (hi + 1 - (v + 1))" by simp_all
  moreover from this Suc.prems have "i64 (v + 1) = v + 1" by (intro i64_id) (auto simp: is_int64_def)
  ultimately have "targets_loop v hi out = Some ((out @ [v]) @ [v + 1..hi])"
    using Suc.hyps(1) [of "v + 1" "out @ [v]"] Suc.prems by (subst targets_loop.simps) simp
  also have "(out @ [v]) @ [v + 1..hi] = out @ [v..hi]" using \<open>v \<le> hi\<close> by (simp add: upto_rec1)
  finally show ?case .
qed

subsection \<open>Properties\<close>

text \<open>
  C27. The two packages agree on what can be upgraded. For every cluster and every running major version that \<open>upgrade\<close> itself supports, an accepted plan is either
  no change or a major upgrade (\<open>KindMinor\<close> is never returned, whatever the versions), its target is
  supported and not older, and \<open>upgradepolicy\<close> finds the same step safe, lists it among the targets, and
  finishes listing them.
\<close>

theorem upgrade_plan_safe:
  assumes "MinSupportedVersion \<le> v" "v \<le> MaxSupportedVersion" "upgrade_Classify c v = Inr plan"
  shows "up_Kind plan = (if up_ToVersion plan = v then KindNone else KindMajor) \<and>
    up_FromVersion plan = v \<and> up_ToVersion plan = pcs_PostgresVersion (pgc_Spec c) \<and>
    up_ToVersion plan \<in> set SupportedVersions \<and> v \<le> up_ToVersion plan \<and>
    IsSafe v (up_ToVersion plan) = None \<and>
    (\<exists>ts. SupportedTargets v = Some ts \<and> up_ToVersion plan \<in> set ts)"
proof -
  let ?t = "pcs_PostgresVersion (pgc_Spec c)"
  from assms have t: "14 \<le> ?t" "?t \<le> 17" "v \<le> ?t"
    and plan: "plan = \<lparr>up_Kind = (if ?t = v then KindNone else KindMajor), up_FromVersion = v, up_ToVersion = ?t\<rparr>"
    by (auto simp: upgrade_Classify_def ValidateVersion_def Let_def gquot_def is_int32_def split: if_splits)
  have v3: "i64 (v + 3) = v + 3" "i64 (?t - v) = ?t - v"
    using assms t by (auto intro!: i64_id simp: is_int64_def)
  have "SupportedTargets v = Some [v..v + 3]"
    using assms targets_loop_run [of "v + 3" v "[]"] by (simp add: SupportedTargets_def v3 is_int64_def)
  moreover have "IsSafe v ?t = None"
    using assms t by (auto simp: IsSafe_def policy_Classify_def v3 Let_def)
  ultimately show ?thesis using assms t by (auto simp: plan SupportedVersions_def)
qed

text \<open>C27 for an upgrade from version 14 to version 16.\<close>

theorem upgrade_plan_safe_witness:
  "IsSafe 14 16 = None \<and> upgrade_Classify (PostgresCluster_zero\<lparr>pgc_Spec :=
     (pgc_Spec PostgresCluster_zero)\<lparr>pcs_PostgresVersion := 16\<rparr>\<rparr>) 14 =
     Inr \<lparr>up_Kind = KindMajor, up_FromVersion = 14, up_ToVersion = 16\<rparr>"
proof -
  let ?c = "PostgresCluster_zero\<lparr>pgc_Spec := (pgc_Spec PostgresCluster_zero)\<lparr>pcs_PostgresVersion := 16\<rparr>\<rparr>"
  have "upgrade_Classify ?c 14 = Inr \<lparr>up_Kind = KindMajor, up_FromVersion = 14, up_ToVersion = 16\<rparr>"
    by code_simp
  from upgrade_plan_safe [OF _ _ this] this show ?thesis by simp
qed

end
