(* ===== verification/Go_Time.thy ===== *)
theory Go_Time
  imports Kube_Types
begin

section \<open>Times and durations\<close>

text \<open>
  The part of Go's \<open>time\<close> package that the sources use. A \<open>time.Time\<close> is the number of nanoseconds
  since its zero value (1 January of year 1, a Monday, UTC); a \<open>time.Duration\<close> is an int64 of nanoseconds,
  whose arithmetic wraps. Wall-clock fields are those of UTC.
\<close>

type_synonym duration = int

definition Second :: int where "Second = 1000000000"
definition Minute :: int where "Minute = 60 * Second"
definition Hour :: int where "Hour = 60 * Minute"
definition Day :: int where "Day = 24 * Hour"

lemmas time_units = Second_def Minute_def Hour_def Day_def

text \<open>Multiplication and addition of durations.\<close>

abbreviation dmul :: "duration \<Rightarrow> duration \<Rightarrow> duration" where
  "dmul a b \<equiv> i64 (a * b)"

abbreviation dadd :: "duration \<Rightarrow> duration \<Rightarrow> duration" where
  "dadd a b \<equiv> i64 (a + b)"

abbreviation dsub :: "duration \<Rightarrow> duration \<Rightarrow> duration" where
  "dsub a b \<equiv> i64 (a - b)"

definition time_Add :: "gotime \<Rightarrow> duration \<Rightarrow> gotime" where
  "time_Add t d = t + d"

definition time_After :: "gotime \<Rightarrow> gotime \<Rightarrow> bool" where
  "time_After t u \<longleftrightarrow> u < t"

definition time_Before :: "gotime \<Rightarrow> gotime \<Rightarrow> bool" where
  "time_Before t u \<longleftrightarrow> t < u"

text \<open>\<open>t.Sub(u)\<close> saturates at the ends of int64.\<close>

definition time_Sub :: "gotime \<Rightarrow> gotime \<Rightarrow> duration" where
  "time_Sub t u = max (- (2 ^ 63)) (min (2 ^ 63 - 1) (t - u))"

subsection \<open>The calendar\<close>

definition day_of :: "gotime \<Rightarrow> int" where
  "day_of t = t div Day"

definition time_Minute :: "gotime \<Rightarrow> int" where
  "time_Minute t = t div Minute mod 60"

definition time_Hour :: "gotime \<Rightarrow> int" where
  "time_Hour t = t div Hour mod 24"

definition time_Weekday :: "gotime \<Rightarrow> int" where
  "time_Weekday t = (day_of t + 1) mod 7"

definition leap :: "int \<Rightarrow> bool" where
  "leap y \<longleftrightarrow> y mod 4 = 0 \<and> (y mod 100 \<noteq> 0 \<or> y mod 400 = 0)"

definition month_days :: "bool \<Rightarrow> int list" where
  "month_days l = [31, if l then 29 else 28, 31, 30, 31, 30, 31, 31, 30, 31, 30, 31]"

fun month_day :: "int list \<Rightarrow> int \<Rightarrow> int \<times> int" where
  "month_day [] n = (1, n + 1)"
| "month_day (d # ds) n = (if n < d \<or> ds = [] then (1, n + 1) else (case month_day ds (n - d) of (m, k) \<Rightarrow> (m + 1, k)))"

definition year_start :: "int \<Rightarrow> int" where
  "year_start y = 365 * (y - 1) + (y - 1) div 4 - (y - 1) div 100 + (y - 1) div 400"

text \<open>Year and day of the year of a day number: cycles of 400, 100, 4 and single years.\<close>

definition year_yday :: "int \<Rightarrow> int \<times> int" where
  "year_yday d =
     (let a = d div 146097; d1 = d mod 146097;
          b = min 3 (d1 div 36524); d2 = d1 - 36524 * b;
          c = d2 div 1461; d3 = d2 mod 1461;
          e = min 3 (d3 div 365)
      in (1 + 400 * a + 100 * b + 4 * c + e, d3 - 365 * e))"

definition time_Year :: "gotime \<Rightarrow> int" where
  "time_Year t = fst (year_yday (day_of t))"

definition time_Month :: "gotime \<Rightarrow> int" where
  "time_Month t = (case year_yday (day_of t) of (y, n) \<Rightarrow> fst (month_day (month_days (leap y)) n))"

definition time_Day :: "gotime \<Rightarrow> int" where
  "time_Day t = (case year_yday (day_of t) of (y, n) \<Rightarrow> snd (month_day (month_days (leap y)) n))"

text \<open>\<open>time.Date\<close> for a month in its range; hours and minutes outside theirs carry over.\<close>

definition time_Date :: "int \<Rightarrow> int \<Rightarrow> int \<Rightarrow> int \<Rightarrow> int \<Rightarrow> gotime" where
  "time_Date y m d h mi =
     (year_start y + sum_list (take (nat (m - 1)) (month_days (leap y))) + (d - 1)) * Day + h * Hour + mi * Minute"

lemma div_by_parts: "0 \<le> r \<Longrightarrow> r < k \<Longrightarrow> (k * q + r) div k = q" for q r k :: int
  by simp

lemma year_yday_start:
  assumes "year_yday d = (y, n)"
  shows "year_start y + n = d \<and> 0 \<le> n"
proof -
  define a d1 where "a = d div 146097" and "d1 = d mod 146097"
  define b where "b = min 3 (d1 div 36524)"
  define d2 where "d2 = d1 - 36524 * b"
  define c d3 where "c = d2 div 1461" and "d3 = d2 mod 1461"
  define e where "e = min 3 (d3 div 365)"
  have d: "d = 146097 * a + d1" "0 \<le> d1" "d1 < 146097"
    unfolding a_def d1_def by (rule mult_div_mod_eq [symmetric]) simp_all
  have b: "0 \<le> b" "b \<le> 3" "0 \<le> d2" "d2 \<le> 36524" using d by (auto simp: b_def d2_def min_def)
  have c: "d2 = 1461 * c + d3" "0 \<le> d3" "d3 < 1461"
    unfolding c_def d3_def by (rule mult_div_mod_eq [symmetric]) simp_all
  have e: "0 \<le> e" "e \<le> 3" "0 \<le> d3 - 365 * e" using c by (auto simp: e_def min_def)
  have c24: "0 \<le> c" "c \<le> 24" using b by (auto simp: c_def)
  have y: "y = 1 + 400 * a + 100 * b + 4 * c + e" "n = d3 - 365 * e"
    using assms unfolding year_yday_def Let_def a_def d1_def b_def d2_def c_def d3_def e_def prod.inject by metis+
  have y1: "y - 1 = 4 * (100 * a + 25 * b + c) + e" "y - 1 = 100 * (4 * a + b) + (4 * c + e)"
    "y - 1 = 400 * a + (100 * b + 4 * c + e)"
    using y(1) by simp_all
  have "(y - 1) div 4 = 100 * a + 25 * b + c" unfolding y1(1) using e by (intro div_by_parts) linarith+
  moreover have "(y - 1) div 100 = 4 * a + b" unfolding y1(2) using e c24 by (intro div_by_parts) linarith+
  moreover have "(y - 1) div 400 = a" unfolding y1(3) using e c24 b by (intro div_by_parts) linarith+
  ultimately have "year_start y = 365 * (y - 1) + (100 * a + 25 * b + c) - (4 * a + b) + a"
    by (simp only: year_start_def)
  then have "year_start y + n = 146097 * a + (36524 * b + (1461 * c + d3))" by (simp only: y) simp
  also have "\<dots> = d" using d(1) c(1) d2_def by simp
  finally show ?thesis using e(3) y(2) by simp
qed

lemma month_day_sum:
  "ds \<noteq> [] \<Longrightarrow> month_day ds n = (m, k) \<Longrightarrow> 1 \<le> m \<and> sum_list (take (nat (m - 1)) ds) + (k - 1) = n"
proof (induction ds arbitrary: n m k)
  case (Cons d ds)
  show ?case
  proof (cases "n < d \<or> ds = []")
    case False
    obtain m' k' where r: "month_day ds (n - d) = (m', k')" by fastforce
    with False Cons.IH have "1 \<le> m' \<and> sum_list (take (nat (m' - 1)) ds) + (k' - 1) = n - d" by simp
    moreover from this False Cons.prems r have "m = m' + 1" "k = k'" "nat m' = Suc (nat (m' - 1))" by auto
    ultimately show ?thesis by simp
  qed (use Cons.prems in auto)
qed simp

text \<open>Putting the fields of a time together again gives the time up to the fields left out.\<close>

lemma Date_of_fields:
  "time_Date (time_Year t) (time_Month t) (time_Day t) h mi = (t div Day) * Day + h * Hour + mi * Minute"
proof -
  obtain y n where yn: "year_yday (day_of t) = (y, n)" by fastforce
  obtain m k where mk: "month_day (month_days (leap y)) n = (m, k)" by fastforce
  have "month_days (leap y) \<noteq> []" by (simp add: month_days_def)
  then have "sum_list (take (nat (m - 1)) (month_days (leap y))) + (k - 1) = n" using month_day_sum mk by blast
  then have "year_start y + sum_list (take (nat (m - 1)) (month_days (leap y))) + (k - 1) = day_of t"
    using year_yday_start [OF yn] by simp
  then have "time_Date (time_Year t) (time_Month t) (time_Day t) h mi = day_of t * Day + h * Hour + mi * Minute"
    by (simp add: time_Date_def time_Year_def time_Month_def time_Day_def yn mk)
  then show ?thesis by (simp add: day_of_def)
qed

text \<open>Hour and minute of a time given by its day and clock.\<close>

lemma clock_of_parts:
  assumes "0 \<le> h" "h < 24" "0 \<le> mi" "mi < 60" "0 \<le> s" "s < Minute"
  shows "time_Hour (q * Day + h * Hour + mi * Minute + s) = h"
    "time_Minute (q * Day + h * Hour + mi * Minute + s) = mi"
    "day_of (q * Day + h * Hour + mi * Minute + s) = q"
proof -
  let ?t = "q * Day + h * Hour + mi * Minute + s"
  have t: "?t = Hour * (q * 24 + h) + (mi * Minute + s)" "?t = Minute * ((q * 24 + h) * 60 + mi) + s"
    "?t = Day * q + (h * Hour + mi * Minute + s)"
    by (simp_all add: Day_def Hour_def algebra_simps)
  have r: "mi * Minute + s < Hour" "h * Hour + mi * Minute + s < Day" "0 \<le> mi * Minute + s" "0 \<le> h * Hour + mi * Minute + s"
    using assms by (simp_all add: time_units)
  have "?t div Hour = q * 24 + h" unfolding t(1) by (rule div_by_parts [OF r(3,1)])
  moreover have "?t div Minute = (q * 24 + h) * 60 + mi" unfolding t(2) by (rule div_by_parts [OF assms(5,6)])
  moreover have "?t div Day = q" unfolding t(3) by (rule div_by_parts [OF r(4,2)])
  moreover have "((q * 24 + h) * 60 + mi) mod 60 = mi" using assms(3,4) by (simp only: mod_mult_self3) simp
  moreover have "(q * 24 + h) mod 24 = h" using assms(1,2) by simp
  ultimately show "time_Hour ?t = h" "time_Minute ?t = mi" "day_of ?t = q"
    by (simp_all only: time_Hour_def time_Minute_def day_of_def)
qed

end
