(* ===== verification/Cron.thy ===== *)
theory Cron
  imports Go_Time
begin

section \<open>Cron expressions and retention\<close>

text \<open>
  The packages \<open>cronexpr\<close> (validation of \<open>spec.backup.schedule\<close> at admission) and \<open>scheduler\<close> (the schedule the
  operator runs by, and the retention policy). They read the same expressions with two parsers; the
  lemmas relate the two, give the meaning of a schedule written out field by field, and the
  range in which the retention arithmetic is exact.
\<close>

subsection \<open>\<open>cronexpr\<close>\<close>

definition aliases :: smap where
  "aliases =
     [(''@yearly'', ''0 0 1 1 *''), (''@annually'', ''0 0 1 1 *''), (''@monthly'', ''0 0 1 * *''),
      (''@weekly'', ''0 0 * * 0''), (''@daily'', ''0 0 * * *''), (''@midnight'', ''0 0 * * *''), (''@hourly'', ''0 * * * *'')]"

datatype cron_error =
    EmptyExpression
  | FieldCount nat
  | InField nat cron_error
  | InvalidStep string
  | InvalidBound string
  | RangeOutside int int int int
  | InvalidValue string
  | ValueOutside int int int

fun cron_error_text :: "unitab \<Rightarrow> cron_error \<Rightarrow> string" where
  "cron_error_text u EmptyExpression = ''cronexpr: empty expression''"
| "cron_error_text u (FieldCount n) = ''cronexpr: expected 5 fields, got '' @ dec (int n)"
| "cron_error_text u (InField i e) = ''cronexpr: field '' @ dec (int i) @ '': '' @ cron_error_text u e"
| "cron_error_text u (InvalidStep p) = ''invalid step '' @ Quote u p"
| "cron_error_text u (InvalidBound p) = ''invalid range bound '' @ Quote u p"
| "cron_error_text u (RangeOutside a b lo hi) =
     ''range '' @ dec a @ ''-'' @ dec b @ '' outside ['' @ dec lo @ '','' @ dec hi @ '']''"
| "cron_error_text u (InvalidValue p) = ''invalid value '' @ Quote u p"
| "cron_error_text u (ValueOutside n lo hi) = ''value '' @ dec n @ '' outside ['' @ dec lo @ '','' @ dec hi @ '']''"

definition Expand :: "string \<Rightarrow> cron_error + string" where
  "Expand s0 =
     (let s = TrimSpace s0 in
      if s = [] then Inl EmptyExpression
      else (case map_of aliases s of Some v \<Rightarrow> Inr v | None \<Rightarrow> Inr s))"

definition validateRangeAtom :: "string \<Rightarrow> int \<Rightarrow> int \<Rightarrow> cron_error option" where
  "validateRangeAtom p lo hi =
     (case IndexByte p (CHR ''-'') of
        None \<Rightarrow> None
      | Some i \<Rightarrow>
          (case Atoi (take i p) of
             None \<Rightarrow> Some (InvalidBound (take i p))
           | Some a \<Rightarrow>
               (case Atoi (drop (Suc i) p) of
                  None \<Rightarrow> Some (InvalidBound (drop (Suc i) p))
                | Some b \<Rightarrow> if a < lo \<or> b > hi \<or> a > b then Some (RangeOutside a b lo hi) else None)))"

definition validateSingleValue :: "string \<Rightarrow> int \<Rightarrow> int \<Rightarrow> cron_error option" where
  "validateSingleValue p lo hi =
     (case Atoi p of
        None \<Rightarrow> Some (InvalidValue p)
      | Some n \<Rightarrow> if n < lo \<or> n > hi then Some (ValueOutside n lo hi) else None)"

text \<open>
  \<open>validateAtom\<close> and \<open>validateStepAtom\<close> call each other; the text left of the slash is shorter.
\<close>

function validateAtom :: "string \<Rightarrow> int \<Rightarrow> int \<Rightarrow> cron_error option"
  and validateStepAtom :: "string \<Rightarrow> int \<Rightarrow> int \<Rightarrow> cron_error option" where
  "validateAtom p lo hi =
     (if p = ''*'' then None
      else if CHR ''/'' \<in> set p then validateStepAtom p lo hi
      else if CHR ''-'' \<in> set p then validateRangeAtom p lo hi
      else validateSingleValue p lo hi)"
| "validateStepAtom p lo hi =
     (case IndexByte p (CHR ''/'') of
        None \<Rightarrow> None
      | Some i \<Rightarrow>
          (let left = take i p; right = drop (Suc i) p in
           if left = [] \<or> right = [] then Some (InvalidStep p)
           else (case (if left \<noteq> ''*'' then validateAtom left lo hi else None) of
                   Some e \<Rightarrow> Some e
                 | None \<Rightarrow>
                     (case Atoi right of
                        None \<Rightarrow> Some (InvalidStep p)
                      | Some n \<Rightarrow> if n \<le> 0 then Some (InvalidStep p) else None))))"
  by pat_completeness auto
termination
  by (relation "measure (\<lambda>x. case x of Inl (p, _) \<Rightarrow> 2 * length p + 1 | Inr (p, _) \<Rightarrow> 2 * length p)")
    (auto dest: IndexByte_SomeD)

declare validateAtom.simps [simp del] validateStepAtom.simps [simp del]

fun first_error :: "('a \<Rightarrow> 'e option) \<Rightarrow> 'a list \<Rightarrow> 'e option" where
  "first_error f [] = None"
| "first_error f (x # xs) = (case f x of Some e \<Rightarrow> Some e | None \<Rightarrow> first_error f xs)"

definition cron_validateField :: "string \<Rightarrow> int \<Rightarrow> int \<Rightarrow> cron_error option" where
  "cron_validateField f lo hi =
     (if f = ''*'' then None else first_error (\<lambda>part. validateAtom part lo hi) (splitc (CHR '','') f))"

definition cron_ranges :: "(int \<times> int) list" where
  "cron_ranges = [(0, 59), (0, 23), (1, 31), (1, 12), (0, 7)]"

definition cron_Validate :: "string \<Rightarrow> cron_error option" where
  "cron_Validate s =
     (case Expand s of
        Inl e \<Rightarrow> Some e
      | Inr expr \<Rightarrow>
          (let fields = Fields expr in
           if length fields \<noteq> 5 then Some (FieldCount (length fields))
           else first_error (\<lambda>i. map_option (InField (i + 1))
                  (cron_validateField (fields ! i) (fst (cron_ranges ! i)) (snd (cron_ranges ! i)))) [0..<5]))"

definition IsAlias :: "string \<Rightarrow> bool" where
  "IsAlias s \<longleftrightarrow> map_of aliases (TrimSpace s) \<noteq> None"

subsection \<open>\<open>scheduler\<close>: retention\<close>

record RetentionPolicy =
  rp_Days :: int
  rp_Count :: int

datatype retention_error = EmptyRetention | InvalidDays string | InvalidCount string | NoFixedExpiry

definition ParseRetentionPolicy :: "string \<Rightarrow> retention_error + RetentionPolicy" where
  "ParseRetentionPolicy s0 =
     (let s = TrimSpace s0 in
      if s = [] then Inl EmptyRetention
      else if suffix ''d'' s then
        (case Atoi (TrimSuffix s ''d'') of
           None \<Rightarrow> Inl (InvalidDays s)
         | Some days \<Rightarrow> if days \<le> 0 then Inl (InvalidDays s) else Inr \<lparr>rp_Days = days, rp_Count = 0\<rparr>)
      else
        (case Atoi s of
           None \<Rightarrow> Inl (InvalidCount s)
         | Some n \<Rightarrow> if n \<le> 0 then Inl (InvalidCount s) else Inr \<lparr>rp_Days = 0, rp_Count = n\<rparr>))"

definition ExpiresAt :: "RetentionPolicy \<Rightarrow> gotime \<Rightarrow> retention_error + gotime" where
  "ExpiresAt r startTime =
     (if rp_Days r > 0 then Inr (time_Add startTime (dmul (dmul (rp_Days r) 24) Hour)) else Inl NoFixedExpiry)"

definition IsExpired :: "RetentionPolicy \<Rightarrow> gotime \<Rightarrow> gotime \<Rightarrow> bool" where
  "IsExpired r startTime now =
     (if rp_Days r > 0 then time_After now (time_Add startTime (dmul (dmul (rp_Days r) 24) Hour)) else False)"

subsection \<open>\<open>scheduler\<close>: schedules\<close>

definition ScheduleHourly :: string where "ScheduleHourly = ''0 * * * *''"
definition ScheduleDaily :: string where "ScheduleDaily = ''0 0 * * *''"
definition ScheduleWeekly :: string where "ScheduleWeekly = ''0 0 * * 0''"
definition ScheduleMonthly :: string where "ScheduleMonthly = ''0 0 1 * *''"

record Schedule =
  sch_raw :: string
  sch_minute :: string
  sch_hour :: string
  sch_dom :: string
  sch_month :: string
  sch_dow :: string

datatype sched_error = MustHaveFive string | BadValue string string | OutOfRange string int int int

definition sched_validateField :: "string \<Rightarrow> int \<Rightarrow> int \<Rightarrow> string \<Rightarrow> sched_error option" where
  "sched_validateField field lo hi name =
     (if field = ''*'' then None
      else first_error
        (\<lambda>part. case Atoi (TrimSpace part) of
           None \<Rightarrow> Some (BadValue name part)
         | Some v \<Rightarrow> if v < lo \<or> v > hi then Some (OutOfRange name v lo hi) else None) (splitc (CHR '','') field))"

definition sched_Parse :: "string \<Rightarrow> sched_error + Schedule" where
  "sched_Parse expr =
     (let fields = Fields expr in
      if length fields \<noteq> 5 then Inl (MustHaveFive expr)
      else (case sched_validateField (fields ! 0) 0 59 ''minute'' of Some e \<Rightarrow> Inl e | None \<Rightarrow>
           (case sched_validateField (fields ! 1) 0 23 ''hour'' of Some e \<Rightarrow> Inl e | None \<Rightarrow>
           (case sched_validateField (fields ! 2) 1 31 ''day-of-month'' of Some e \<Rightarrow> Inl e | None \<Rightarrow>
           (case sched_validateField (fields ! 3) 1 12 ''month'' of Some e \<Rightarrow> Inl e | None \<Rightarrow>
           (case sched_validateField (fields ! 4) 0 7 ''day-of-week'' of Some e \<Rightarrow> Inl e | None \<Rightarrow>
              Inr \<lparr>sch_raw = expr, sch_minute = fields ! 0, sch_hour = fields ! 1, sch_dom = fields ! 2,
                   sch_month = fields ! 3, sch_dow = fields ! 4\<rparr>))))))"

definition matchField :: "string \<Rightarrow> int \<Rightarrow> bool" where
  "matchField field x \<longleftrightarrow>
     (if field = ''*'' then True
      else list_ex (\<lambda>part. Atoi (TrimSpace part) = Some x) (splitc (CHR '','') field))"

definition DueAt :: "Schedule \<Rightarrow> gotime \<Rightarrow> bool" where
  "DueAt s t =
     (if \<not> matchField (sch_minute s) (time_Minute t) then False
      else if \<not> matchField (sch_hour s) (time_Hour t) then False
      else if \<not> matchField (sch_dom s) (time_Day t) then False
      else if \<not> matchField (sch_month s) (time_Month t) then False
      else let dow = time_Weekday t in
        if \<not> matchField (sch_dow s) dow then (if sch_dow s = ''7'' \<and> dow = 0 then True else False)
        else True)"

subsection \<open>Lemmas\<close>

lemma first_error_None [simp]: "first_error f xs = None \<longleftrightarrow> (\<forall>x \<in> set xs. f x = None)"
  by (induction xs) (auto split: option.splits)

text \<open>A field of a schedule as a value: anything, or one of a list of numbers; and its text.\<close>

type_synonym cfield = "int list option"

definition cron_field :: "cfield \<Rightarrow> string" where
  "cron_field f = (case f of None \<Rightarrow> ''*'' | Some vs \<Rightarrow> Join (map dec vs) '','')"

definition field_in :: "int \<Rightarrow> int \<Rightarrow> cfield \<Rightarrow> bool" where
  "field_in lo hi f \<longleftrightarrow> (case f of None \<Rightarrow> True | Some vs \<Rightarrow> vs \<noteq> [] \<and> list_all (\<lambda>v. lo \<le> v \<and> v \<le> hi) vs)"

definition hit :: "cfield \<Rightarrow> int \<Rightarrow> bool" where
  "hit f v \<longleftrightarrow> (case f of None \<Rightarrow> True | Some vs \<Rightarrow> v \<in> set vs)"

definition cron_text :: "cfield \<Rightarrow> cfield \<Rightarrow> cfield \<Rightarrow> cfield \<Rightarrow> cfield \<Rightarrow> string" where
  "cron_text mi h dm mon dow = Join (map cron_field [mi, h, dm, mon, dow]) '' ''"

lemma split_field: "vs \<noteq> [] \<Longrightarrow> splitc (CHR '','') (Join (map dec vs) '','') = map dec vs"
  by (rule splitc_Join) (auto dest: dec_bytes)

lemma set_Join: "set (Join ps sep) \<subseteq> \<Union> (set ` set ps) \<union> set sep"
  by (induction ps sep rule: Join.induct) auto

lemma Join_eq_Nil: "Join ps sep = [] \<Longrightarrow> ps = [] \<or> hd ps = []"
  by (cases ps) (simp_all add: Join_Cons)

lemma numbers_not_star: "Join (map dec vs) '','' \<noteq> ''*''"
proof
  assume "Join (map dec vs) '','' = ''*''"
  then have "CHR ''*'' \<in> set (Join (map dec vs) '','')" by simp
  then show False using set_Join [of "map dec vs" "'',''"] dec_bytes by auto
qed

lemma cron_field_word:
  assumes "field_in lo hi f" shows "cron_field f \<noteq> [] \<and> list_all no_space_byte (cron_field f)"
proof (cases f)
  case None
  then show ?thesis by (simp add: cron_field_def no_space_byte_def)
next
  case (Some vs)
  have "no_space_byte c" if "c \<in> set (Join (map dec vs) '','')" for c
  proof -
    from that consider v where "c \<in> set (dec v)" | "c = CHR '',''"
      using set_Join [of "map dec vs" "'',''"] by auto
    then show ?thesis by cases (simp add: dec_bytes, simp add: no_space_byte_def)
  qed
  moreover have "Join (map dec vs) '','' \<noteq> []"
    using Some assms Join_eq_Nil [of "map dec vs" "'',''"] by (cases vs) (auto simp: field_in_def)
  ultimately show ?thesis using Some by (simp add: cron_field_def list_all_iff)
qed

lemma Fields_cron_text:
  assumes "field_in 0 59 mi" "field_in 0 23 h" "field_in 1 31 dm" "field_in 1 12 mon" "field_in 0 7 dow"
  shows "Fields (cron_text mi h dm mon dow) = map cron_field [mi, h, dm, mon, dow]"
  unfolding cron_text_def
  using assms [THEN cron_field_word] by (intro Fields_Join) simp

lemma validate_cron_field:
  assumes "field_in lo hi f" "0 \<le> lo" "hi < 100"
  shows "sched_validateField (cron_field f) lo hi name = None"
proof (cases f)
  case (Some vs)
  with assms have "\<forall>v \<in> set vs. lo \<le> v \<and> v \<le> hi \<and> is_int64 v" "vs \<noteq> []"
    by (auto simp: field_in_def list_all_iff is_int64_def)
  with Some show ?thesis by (auto simp: sched_validateField_def cron_field_def split_field Atoi_dec)
qed (simp add: sched_validateField_def cron_field_def)

lemma match_cron_field:
  assumes "field_in lo hi f" "0 \<le> lo" "hi < 100"
  shows "matchField (cron_field f) x \<longleftrightarrow> hit f x"
proof (cases f)
  case (Some vs)
  with assms have v: "\<forall>v \<in> set vs. is_int64 v" "vs \<noteq> []"
    by (auto simp: field_in_def list_all_iff is_int64_def)
  with Some show ?thesis
    by (auto simp: matchField_def cron_field_def split_field list_ex_iff numbers_not_star hit_def Atoi_dec)
qed (simp add: matchField_def cron_field_def hit_def)

lemma cron_field_seven:
  assumes "field_in 0 7 f" shows "cron_field f = ''7'' \<longleftrightarrow> f = Some [7]"
proof (cases f)
  case (Some vs)
  have "dec 7 = ''7''" by (simp add: dec_def dec_nat.simps)
  moreover have "vs = [7]" if "Join (map dec vs) '','' = dec 7"
  proof -
    have "vs \<noteq> []" using Some assms by (simp add: field_in_def)
    then have "map dec vs = splitc (CHR '','') (dec 7)" using split_field [of vs] that by simp
    also have "\<dots> = [dec 7]" using dec_bytes by (intro splitc_no_sep) blast
    finally obtain v where "vs = [v]" "dec v = dec 7" by auto
    moreover have "is_int64 v" using Some assms \<open>vs = [v]\<close> by (simp add: field_in_def is_int64_def)
    ultimately have "Some v = Some 7" using Atoi_dec [of v] Atoi_dec [of 7] by (simp add: is_int64_def)
    with \<open>vs = [v]\<close> show ?thesis by simp
  qed
  ultimately show ?thesis using Some by (auto simp: cron_field_def)
qed (simp add: cron_field_def)

subsection \<open>Properties\<close>

text \<open>
  C17. What a schedule means. A schedule written field by field (each field \<open>*\<close> or a list of numbers in its range) is
  parsed, and it is due exactly at the minutes whose minute, hour, day, month and weekday are in the fields.
  Sunday written as 7 counts only when 7 is the whole field: in a list such as \<open>1,7\<close> it never matches.
\<close>

theorem DueAt_rendered:
  assumes "field_in 0 59 mi" "field_in 0 23 h" "field_in 1 31 dm" "field_in 1 12 mon" "field_in 0 7 dow"
  shows "\<exists>s. sched_Parse (cron_text mi h dm mon dow) = Inr s \<and>
    (\<forall>t. DueAt s t \<longleftrightarrow> hit mi (time_Minute t) \<and> hit h (time_Hour t) \<and> hit dm (time_Day t) \<and> hit mon (time_Month t) \<and>
      (hit dow (time_Weekday t) \<or> dow = Some [7] \<and> time_Weekday t = 0))"
  using validate_cron_field [OF assms(1)] validate_cron_field [OF assms(2)] validate_cron_field [OF assms(3)]
    validate_cron_field [OF assms(4)] validate_cron_field [OF assms(5)] match_cron_field [OF assms(1)]
    match_cron_field [OF assms(2)] match_cron_field [OF assms(3)] match_cron_field [OF assms(4)]
    match_cron_field [OF assms(5)] cron_field_seven [OF assms(5)]
  by (simp add: sched_Parse_def Fields_cron_text [OF assms] DueAt_def Let_def eval_nat_numeral)

text \<open>C17 for the schedule \<open>0 3 * * 1,7\<close>: it is due at three o'clock on a Monday and not on a Sunday.\<close>

theorem DueAt_rendered_witness:
  "\<exists>s. sched_Parse (cron_text (Some [0]) (Some [3]) None None (Some [1, 7])) = Inr s \<and>
     DueAt s (3 * Hour) \<and> \<not> DueAt s (6 * Day + 3 * Hour)"
proof -
  have f: "field_in 0 59 (Some [0])" "field_in 0 23 (Some [3])" "field_in 1 31 None" "field_in 1 12 None" "field_in 0 7 (Some [1, 7])"
    by (simp_all add: field_in_def)
  have "time_Minute (3 * Hour) = 0" "time_Hour (3 * Hour) = 3" "time_Weekday (3 * Hour) = 1"
    "time_Weekday (6 * Day + 3 * Hour) = 0" by code_simp+
  with DueAt_rendered [OF f] show ?thesis by (auto simp: hit_def)
qed

lemma plain_field_agree:
  assumes "list_all no_space_byte f" "CHR ''-'' \<notin> set f" "CHR ''/'' \<notin> set f" "CHR ''*'' \<in> set f \<longrightarrow> f = ''*''"
  shows "cron_validateField f lo hi = None \<longleftrightarrow> sched_validateField f lo hi name = None"
proof (cases "f = ''*''")
  case False
  have "validateAtom p lo hi = None \<longleftrightarrow> (\<exists>v. Atoi (TrimSpace p) = Some v \<and> \<not> (v < lo \<or> v > hi))"
    if "p \<in> set (splitc (CHR '','') f)" for p
  proof -
    from set_splitc [OF that] assms False
    have "CHR ''-'' \<notin> set p" "CHR ''/'' \<notin> set p" "p \<noteq> ''*''" "list_all no_space_byte p"
      by (auto simp: list_all_iff)
    then show ?thesis
      by (auto simp: validateAtom.simps [of p] validateSingleValue_def split: option.splits)
  qed
  moreover have "(case r of None \<Rightarrow> Some (BadValue name p) | Some v \<Rightarrow>
      if v < lo \<or> v > hi then Some (OutOfRange name v lo hi) else None) = None \<longleftrightarrow> (\<exists>v. r = Some v \<and> \<not> (v < lo \<or> v > hi))" for r p
    by (cases r) auto
  ultimately show ?thesis
    using False by (simp add: cron_validateField_def sched_validateField_def)
qed (simp add: cron_validateField_def sched_validateField_def)

lemma all_less_5: "(\<forall>i < (5::nat). P i) \<longleftrightarrow> P 0 \<and> P 1 \<and> P 2 \<and> P 3 \<and> P 4"
  by (simp add: eval_nat_numeral All_less_Suc) blast

lemma sched_Parse_ok:
  "(\<exists>s. sched_Parse expr = Inr s) \<longleftrightarrow> length (Fields expr) = 5 \<and>
     (\<forall>i < 5. sched_validateField (Fields expr ! i) (fst (cron_ranges ! i)) (snd (cron_ranges ! i))
        ([''minute'', ''hour'', ''day-of-month'', ''month'', ''day-of-week''] ! i) = None)"
  by (simp add: sched_Parse_def Let_def cron_ranges_def all_less_5 split: option.splits)

lemma cron_Validate_ok:
  assumes "ascii expr" "map_of aliases (TrimSpace expr) = None"
  shows "cron_Validate expr = None \<longleftrightarrow> length (Fields expr) = 5 \<and>
     (\<forall>i < 5. cron_validateField (Fields expr ! i) (fst (cron_ranges ! i)) (snd (cron_ranges ! i)) = None)"
proof (cases "TrimSpace expr = []")
  case True
  then have "Fields expr = []" using Fields_TrimSpace [OF assms(1)] by (simp add: Fields_def fields_loop.simps)
  with True show ?thesis by (simp add: cron_Validate_def Expand_def)
next
  case False
  with assms(2) have "Expand expr = Inr (TrimSpace expr)" by (simp add: Expand_def)
  then show ?thesis using Fields_TrimSpace [OF assms(1)] by (auto simp: cron_Validate_def Let_def)
qed

text \<open>
  C21. The two cron parsers agree on plain expressions: an expression of ASCII characters that is no alias, has no range and
  no step, and whose fields use \<open>*\<close> only alone, is accepted at admission exactly when the scheduler can
  parse it. (Outside these the validator accepts more: \<open>@daily\<close>, \<open>*/5\<close>, \<open>1-5\<close> and \<open>*,3\<close> pass it and
  the scheduler refuses them.)
\<close>

theorem cron_parsers_agree:
  assumes "ascii expr" "\<not> IsAlias expr" "CHR ''-'' \<notin> set expr" "CHR ''/'' \<notin> set expr"
    "\<forall>f \<in> set (Fields expr). CHR ''*'' \<in> set f \<longrightarrow> f = ''*''"
  shows "cron_Validate expr = None \<longleftrightarrow> (\<exists>s. sched_Parse expr = Inr s)"
proof -
  have "cron_validateField (Fields expr ! i) lo hi = None \<longleftrightarrow> sched_validateField (Fields expr ! i) lo hi n = None"
    if "i < length (Fields expr)" for i lo hi n
  proof (rule plain_field_agree)
    have f: "Fields expr ! i \<in> set (Fields expr)" using that by simp
    show "list_all no_space_byte (Fields expr ! i)" using Fields_words [OF assms(1) f] by simp
    show "CHR ''-'' \<notin> set (Fields expr ! i)" "CHR ''/'' \<notin> set (Fields expr ! i)"
      using Fields_subset [OF f] assms(3,4) by blast+
    show "CHR ''*'' \<in> set (Fields expr ! i) \<longrightarrow> Fields expr ! i = ''*''" using assms(5) f by blast
  qed
  moreover have "map_of aliases (TrimSpace expr) = None" using assms(2) by (simp add: IsAlias_def)
  ultimately show ?thesis
    using cron_Validate_ok [OF assms(1)] sched_Parse_ok [of expr] by auto
qed

text \<open>C21 for a nightly schedule, and a step that only the validator knows.\<close>

theorem cron_parsers_agree_witness:
  "cron_Validate ''30 2 * * 1,4'' = None \<and> (\<exists>s. sched_Parse ''30 2 * * 1,4'' = Inr s) \<and>
   cron_Validate ''*/5 * * * *'' = None \<and> sched_Parse ''*/5 * * * *'' = Inl (BadValue ''minute'' ''*/5'')"
proof -
  have "ascii ''30 2 * * 1,4''" "\<not> IsAlias ''30 2 * * 1,4''" "CHR ''-'' \<notin> set ''30 2 * * 1,4''" "CHR ''/'' \<notin> set ''30 2 * * 1,4''"
    "\<forall>f \<in> set (Fields ''30 2 * * 1,4''). CHR ''*'' \<in> set f \<longrightarrow> f = ''*''" by code_simp+
  from cron_parsers_agree [OF this] have "cron_Validate ''30 2 * * 1,4'' = None \<longleftrightarrow> (\<exists>s. sched_Parse ''30 2 * * 1,4'' = Inr s)" .
  moreover have "cron_Validate ''30 2 * * 1,4'' = None" "cron_Validate ''*/5 * * * *'' = None"
    "sched_Parse ''*/5 * * * *'' = Inl (BadValue ''minute'' ''*/5'')" by code_simp+
  ultimately show ?thesis by blast
qed

lemma retention_span:
  assumes "0 < n" "n \<le> 213503"
  shows "dmul (dmul n 24) Hour = (if n \<le> 106751 then n * Day else n * Day - 2 ^ 64)"
proof -
  have "dmul n 24 = n * 24" using assms by (intro i64_id) (simp add: is_int64_def)
  then have "dmul (dmul n 24) Hour = i64 (n * 86400000000000)" by (simp add: time_units mult.commute)
  also have "\<dots> = (if n \<le> 106751 then n * 86400000000000 else n * 86400000000000 - 2 ^ 64)"
  proof (cases "n \<le> 106751")
    case True
    with assms show ?thesis by (simp add: is_int64_def)
  next
    case False
    then have "(n * 86400000000000 + 2 ^ 63) mod 2 ^ 64 = (n * 86400000000000 + 2 ^ 63 - 2 ^ 64) mod 2 ^ 64"
      by (metis minus_mod_self2)
    also have "\<dots> = n * 86400000000000 + 2 ^ 63 - 2 ^ 64" using assms False by (intro mod_pos_pos_trivial) simp_all
    finally show ?thesis using False by (simp add: i64_def)
  qed
  finally show ?thesis by (simp add: time_units)
qed

text \<open>
  C22. The retention period. A policy \<open>Nd\<close> with N up to 106751 is parsed as N days, and a backup is expired
  exactly when more than N times 24 hours have passed since it was taken; from 106752 to 213503 days the
  multiplication wraps around and a backup is expired the moment it is taken.
\<close>

theorem retention_days:
  assumes "0 < n" "n \<le> 213503"
  shows "\<exists>r. ParseRetentionPolicy (dec n @ ''d'') = Inr r \<and>
    (if n \<le> 106751 then \<forall>start now. IsExpired r start now \<longleftrightarrow> now > start + n * Day
     else \<forall>start. IsExpired r start start)"
proof -
  have "list_all no_space_byte (dec n @ ''d'')" by (simp add: no_space_byte_def)
  then have "TrimSpace (dec n @ ''d'') = dec n @ ''d''" by (rule TrimSpace_word)
  moreover have "Atoi (dec n) = Some n" using assms by (intro Atoi_dec) (simp add: is_int64_def)
  ultimately have "ParseRetentionPolicy (dec n @ ''d'') = Inr \<lparr>rp_Days = n, rp_Count = 0\<rparr>"
    using assms by (simp add: ParseRetentionPolicy_def Let_def suffix_def)
  moreover have "n * Day < 2 ^ 64" using assms by (simp add: time_units)
  ultimately show ?thesis
    using assms retention_span [OF assms] by (auto simp: IsExpired_def time_After_def time_Add_def)
qed

text \<open>C22 for a policy of 200000 days: a backup taken now counts as expired.\<close>

theorem retention_days_witness:
  "\<exists>r. ParseRetentionPolicy ''200000d'' = Inr r \<and> IsExpired r 5 5"
proof -
  have "dec 200000 = ''200000''" by (simp add: dec_def dec_nat.simps)
  with retention_days [of 200000] show ?thesis by auto
qed

end
