(* ===== verification/Webhook.thy ===== *)
theory Webhook
  imports Cron Upgrades
begin

section \<open>Admission: defaulting and validation\<close>

text \<open>
  The admission webhook of \<open>PostgresCluster\<close> (\<open>api/v1alpha1/postgrescluster_webhook.go\<close>) and the field checks of the
  package \<open>validation\<close>. A \<open>field.Error\<close> of the API machinery is kept as its path, bad value and detail; how
  a list of them is printed, and how a quantity is printed, is code outside the repository.
\<close>

subsection \<open>The webhook\<close>

definition quantity_10Gi :: Quantity where "quantity_10Gi = 10 * 2 ^ 30"

definition default_version :: "PostgresClusterSpec \<Rightarrow> PostgresClusterSpec" where
  "default_version s = (if pcs_PostgresVersion s = 0 then s\<lparr>pcs_PostgresVersion := 16\<rparr> else s)"

definition default_instances :: "PostgresClusterSpec \<Rightarrow> PostgresClusterSpec" where
  "default_instances s = (if pcs_Instances s = 0 then s\<lparr>pcs_Instances := 1\<rparr> else s)"

definition default_size :: "PostgresClusterSpec \<Rightarrow> PostgresClusterSpec" where
  "default_size s =
     (if sto_Size (pcs_Storage s) = 0 then s\<lparr>pcs_Storage := (pcs_Storage s)\<lparr>sto_Size := quantity_10Gi\<rparr>\<rparr> else s)"

definition default_access :: "PostgresClusterSpec \<Rightarrow> PostgresClusterSpec" where
  "default_access s =
     (if sto_AccessModes (pcs_Storage s) = []
      then s\<lparr>pcs_Storage := (pcs_Storage s)\<lparr>sto_AccessModes := [''ReadWriteOnce'']\<rparr>\<rparr> else s)"

definition default_retention :: "PostgresClusterSpec \<Rightarrow> PostgresClusterSpec" where
  "default_retention s =
     (case pcs_Backup s of
        None \<Rightarrow> s
      | Some b \<Rightarrow> if bs_RetentionPolicy b = [] then s\<lparr>pcs_Backup := Some (b\<lparr>bs_RetentionPolicy := ''7d''\<rparr>)\<rparr> else s)"

definition default_monitoring :: "PostgresClusterSpec \<Rightarrow> PostgresClusterSpec" where
  "default_monitoring s =
     (let m = (case pcs_Monitoring s of None \<Rightarrow> \<lparr>mon_Enabled = True, mon_Port = 9187\<rparr> | Some m \<Rightarrow> m);
          m' = (if mon_Port m = 0 then m\<lparr>mon_Port := 9187\<rparr> else m)
      in s\<lparr>pcs_Monitoring := Some m'\<rparr>)"

definition default_tls :: "PostgresClusterSpec \<Rightarrow> PostgresClusterSpec" where
  "default_tls s =
     (if pcs_TLS s = None
      then s\<lparr>pcs_TLS := Some \<lparr>tls_Enabled = True, tls_CertificateSecret = None, tls_CASecret = None\<rparr>\<rparr> else s)"

definition Default :: "PostgresCluster \<Rightarrow> PostgresCluster" where
  "Default r = r\<lparr>pgc_Spec := default_tls (default_monitoring (default_retention (default_access
     (default_size (default_instances (default_version (pgc_Spec r)))))))\<rparr>"

datatype bad_value = BadInt int | BadString string

record FieldInvalid =
  fi_Path :: string
  fi_Value :: bad_value
  fi_Detail :: string

abbreviation invalid :: "string \<Rightarrow> bad_value \<Rightarrow> string \<Rightarrow> FieldInvalid" where
  "invalid p v d \<equiv> \<lparr>fi_Path = p, fi_Value = v, fi_Detail = d\<rparr>"

definition validateVersion :: "PostgresCluster \<Rightarrow> FieldInvalid list" where
  "validateVersion r =
     (let v = pcs_PostgresVersion (pgc_Spec r) in
      if v < 14 \<or> v > 17 then [invalid ''spec.postgresVersion'' (BadInt v) ''must be between 14 and 17 inclusive''] else [])"

definition validateInstances :: "PostgresCluster \<Rightarrow> FieldInvalid list" where
  "validateInstances r =
     (let n = pcs_Instances (pgc_Spec r) in
      if n < 1 \<or> n > 10 then [invalid ''spec.instances'' (BadInt n) ''must be between 1 and 10'']
      else if n > 1 \<and> grem n 2 = 0
      then [invalid ''spec.instances'' (BadInt n) ''must be 1 or an odd number greater than 1 to ensure proper quorum'']
      else [])"

definition validateStorage :: "(Quantity \<Rightarrow> string) \<Rightarrow> PostgresCluster \<Rightarrow> FieldInvalid list" where
  "validateStorage show_quantity r =
     (if sto_Size (pcs_Storage (pgc_Spec r)) \<le> 0
      then [invalid ''spec.storage.size'' (BadString (show_quantity (sto_Size (pcs_Storage (pgc_Spec r))))) ''must be a positive quantity'']
      else [])"

definition validateBackup :: "unitab \<Rightarrow> PostgresCluster \<Rightarrow> FieldInvalid list" where
  "validateBackup u r =
     (case pcs_Backup (pgc_Spec r) of
        None \<Rightarrow> []
      | Some b \<Rightarrow>
          if \<not> bs_Enabled b then []
          else if bs_Schedule b \<noteq> [] then
            (case cron_Validate (bs_Schedule b) of
               Some e \<Rightarrow> [invalid ''spec.backup.schedule'' (BadString (bs_Schedule b)) (cron_error_text u e)]
             | None \<Rightarrow> [])
          else [])"

text \<open>The error is the list of field errors that \<open>ToAggregate\<close> prints; None is admission.\<close>

definition cluster_validate :: "unitab \<Rightarrow> (Quantity \<Rightarrow> string) \<Rightarrow> PostgresCluster \<Rightarrow> FieldInvalid list option" where
  "cluster_validate u sq r =
     (let allErrs = validateVersion r @ validateInstances r @ validateStorage sq r @ validateBackup u r in
      if allErrs = [] then None else Some allErrs)"

definition ValidateCreate :: "unitab \<Rightarrow> (Quantity \<Rightarrow> string) \<Rightarrow> PostgresCluster \<Rightarrow> FieldInvalid list option" where
  "ValidateCreate u sq r = cluster_validate u sq r"

definition ValidateUpdate :: "unitab \<Rightarrow> (Quantity \<Rightarrow> string) \<Rightarrow> PostgresCluster \<Rightarrow> PostgresCluster \<Rightarrow> FieldInvalid list option" where
  "ValidateUpdate u sq r old = cluster_validate u sq r"

definition ValidateDelete :: "PostgresCluster \<Rightarrow> FieldInvalid list option" where
  "ValidateDelete r = None"

subsection \<open>The package \<open>validation\<close>\<close>

record FieldError =
  fe_Field :: string
  fe_Detail :: string
  fe_Bad :: bad_value

fun show_bad :: "bad_value \<Rightarrow> string" where
  "show_bad (BadInt n) = dec n"
| "show_bad (BadString s) = s"

definition FieldError_Error :: "FieldError \<Rightarrow> string" where
  "FieldError_Error f = fe_Field f @ '': '' @ fe_Detail f @ '' (got '' @ show_bad (fe_Bad f) @ '')''"

type_synonym Errors = "FieldError list"

definition Errors_Add :: "Errors \<Rightarrow> string \<Rightarrow> string \<Rightarrow> bad_value \<Rightarrow> Errors" where
  "Errors_Add e field detail bad = e @ [\<lparr>fe_Field = field, fe_Detail = detail, fe_Bad = bad\<rparr>]"

definition Errors_Err :: "Errors \<Rightarrow> string option" where
  "Errors_Err e = (if e = [] then None else Some (Join (map FieldError_Error e) ''; ''))"

definition Errors_Has :: "Errors \<Rightarrow> string \<Rightarrow> bool" where
  "Errors_Has e field \<longleftrightarrow> list_ex (\<lambda>fe. fe_Field fe = field) e"

definition IntInRange :: "string \<Rightarrow> int \<Rightarrow> int \<Rightarrow> int \<Rightarrow> FieldError option" where
  "IntInRange field v lo hi =
     (if v < lo \<or> v > hi
      then Some \<lparr>fe_Field = field, fe_Detail = ''must be between '' @ dec lo @ '' and '' @ dec hi, fe_Bad = BadInt v\<rparr>
      else None)"

definition OneOf :: "string \<Rightarrow> string \<Rightarrow> string list \<Rightarrow> FieldError option" where
  "OneOf field v allowed =
     (if list_ex (\<lambda>a. v = a) allowed then None
      else Some \<lparr>fe_Field = field, fe_Detail = ''must be one of '' @ Join allowed '', '', fe_Bad = BadString v\<rparr>)"

definition NonEmpty :: "string \<Rightarrow> string \<Rightarrow> FieldError option" where
  "NonEmpty field v =
     (if v = [] then Some \<lparr>fe_Field = field, fe_Detail = ''must not be empty'', fe_Bad = BadString v\<rparr> else None)"

definition MaxLength :: "string \<Rightarrow> string \<Rightarrow> int \<Rightarrow> FieldError option" where
  "MaxLength field v n =
     (if int (length v) > n
      then Some \<lparr>fe_Field = field, fe_Detail = ''must be at most '' @ dec n @ '' characters'', fe_Bad = BadInt (int (length v))\<rparr>
      else None)"

definition MinLength :: "string \<Rightarrow> string \<Rightarrow> int \<Rightarrow> FieldError option" where
  "MinLength field v n =
     (if int (length v) < n
      then Some \<lparr>fe_Field = field, fe_Detail = ''must be at least '' @ dec n @ '' characters'', fe_Bad = BadInt (int (length v))\<rparr>
      else None)"

definition isLowerAlnum :: "nat \<Rightarrow> bool" where
  "isLowerAlnum r \<longleftrightarrow> (97 \<le> r \<and> r \<le> 122) \<or> (48 \<le> r \<and> r \<le> 57)"

text \<open>The loop \<open>for i, r := range s\<close> over the runes with their byte offsets.\<close>

function label_loop :: "nat \<Rightarrow> nat \<Rightarrow> nat list \<Rightarrow> bool" where
  "label_loop n i bs =
     (if bs = [] then True
      else (case DecodeRune bs of (r, w) \<Rightarrow>
        if i = 0 \<or> int i = int n - 1 then (if \<not> isLowerAlnum r then False else label_loop n (i + w) (drop w bs))
        else if \<not> isLowerAlnum r \<and> r \<noteq> 45 then False
        else label_loop n (i + w) (drop w bs)))"
  by pat_completeness auto
termination
proof (relation "measure (\<lambda>(n, i, bs). length bs)")
  fix n i r w and bs :: "nat list"
  assume "bs \<noteq> []" "(r, w) = DecodeRune bs"
  then have "0 < w" using DecodeRune_width [of bs] by (metis snd_conv)
  with \<open>bs \<noteq> []\<close> show "((n, i + w, drop w bs), n, i, bs) \<in> measure (\<lambda>(n, i, bs). length bs)"
    "((n, i + w, drop w bs), n, i, bs) \<in> measure (\<lambda>(n, i, bs). length bs)" by simp_all
qed simp

declare label_loop.simps [simp del]

definition IsDNSLabel :: "string \<Rightarrow> bool" where
  "IsDNSLabel s \<longleftrightarrow> (if s = [] \<or> length s > 63 then False else label_loop (length s) 0 (map of_char s))"

definition DNSLabel :: "string \<Rightarrow> string \<Rightarrow> FieldError option" where
  "DNSLabel field s =
     (if IsDNSLabel s then None
      else Some \<lparr>fe_Field = field, fe_Detail = ''must be a valid RFC1035 DNS label (lowercase, alphanumeric, hyphens, 1-63 chars)'',
        fe_Bad = BadString s\<rparr>)"

definition Errors_Append :: "Errors \<Rightarrow> FieldError option list \<Rightarrow> Errors" where
  "Errors_Append errs e = errs @ concat (map (\<lambda>x. case x of None \<Rightarrow> [] | Some f \<Rightarrow> [f]) e)"

subsection \<open>Lemmas\<close>

lemma DecodeRune_small:
  assumes "DecodeRune (b # bs) = (r, w)" "r < 128"
  shows "r = b \<and> w = 1"
proof (cases "b < 128")
  case False
  have "RuneError \<ge> 128" by (simp add: RuneError_def)
  moreover have "r \<ge> 128" if "194 \<le> b" "b < 224" "r = (b - 192) * 64 + x" for x using that by simp
  moreover have "r \<ge> 128" if "224 \<le> b" "b < 240" "second_ok b b1" "r = (b - 224) * 4096 + (b1 - 128) * 64 + x" for b1 x
    using that by (cases "b = 224") (auto simp: second_ok_def)
  moreover have "r \<ge> 128" if "240 \<le> b" "b < 245" "second_ok b b1" "r = (b - 240) * 262144 + (b1 - 128) * 4096 + x * 64 + y" for b1 x y
    using that by (cases "b = 240") (auto simp: second_ok_def)
  ultimately show ?thesis using assms False by (auto split: if_splits list.splits)
qed (use assms in simp)

lemma isLowerAlnum_small: "isLowerAlnum r \<or> r = 45 \<Longrightarrow> r < 128"
  by (auto simp: isLowerAlnum_def)

definition label_byte :: "nat \<Rightarrow> nat \<Rightarrow> nat \<Rightarrow> bool" where
  "label_byte n i r \<longleftrightarrow> (if i = 0 \<or> i = n - 1 then isLowerAlnum r else isLowerAlnum r \<or> r = 45)"

lemma label_loop_iff:
  "n = i + length bs \<Longrightarrow> label_loop n i bs \<longleftrightarrow>
     (\<forall>j < length bs. label_byte n (i + j) (bs ! j))"
proof (induction bs arbitrary: i)
  case Nil
  then show ?case by (simp add: label_loop.simps)
next
  case (Cons b bs)
  let ?ok = "label_byte n i"
  obtain r w where rw: "DecodeRune (b # bs) = (r, w)" by fastforce
  have step: "label_loop n i (b # bs) \<longleftrightarrow> ?ok r \<and> label_loop n (i + w) (drop w (b # bs))"
  proof -
    have "int i = int n - 1 \<longleftrightarrow> i = n - 1" using Cons.prems by auto
    then show ?thesis by (simp only: label_loop.simps [of n i "b # bs"] rw prod.case list.distinct if_False) (simp add: label_byte_def)
  qed
  have "label_loop n i (b # bs) \<longleftrightarrow> ?ok b \<and> label_loop n (i + 1) bs"
  proof (cases "b < 128")
    case True
    with rw step show ?thesis by auto
  next
    case False
    then have "\<not> r < 128" using DecodeRune_small [OF rw] by auto
    then have "\<not> ?ok r" "\<not> ?ok b" using isLowerAlnum_small [of r] isLowerAlnum_small [of b] False by (auto simp: label_byte_def split: if_splits)
    with step show ?thesis by simp
  qed
  also have "\<dots> \<longleftrightarrow> ?ok b \<and> (\<forall>j < length bs. label_byte n (i + 1 + j) (bs ! j))"
    using Cons.IH [of "i + 1"] Cons.prems by simp
  finally show ?case by (simp add: All_less_Suc2)
qed

lemma IsDNSLabel_iff:
  "IsDNSLabel s \<longleftrightarrow> s \<noteq> [] \<and> length s \<le> 63 \<and> isLowerAlnum (byte (hd s)) \<and> isLowerAlnum (byte (last s)) \<and>
     list_all (\<lambda>c. isLowerAlnum (byte c) \<or> c = CHR ''-'') s"
proof (cases "s = []")
  case False
  have "byte (CHR ''-'') = 45" by simp
  then have eq: "byte c = 45 \<longleftrightarrow> c = CHR ''-''" for c by (metis byte_inject)
  have "label_loop (length s) 0 (map of_char s) \<longleftrightarrow> (\<forall>j < length s. label_byte (length s) j (byte (s ! j)))"
    using label_loop_iff [of "length s" 0 "map of_char s"] by auto
  also have "\<dots> \<longleftrightarrow> label_byte (length s) 0 (byte (hd s)) \<and> label_byte (length s) (length s - 1) (byte (last s)) \<and>
      (\<forall>j < length s. label_byte (length s) j (byte (s ! j)))"
    using False by (auto simp: hd_conv_nth last_conv_nth)
  also have "\<dots> \<longleftrightarrow> isLowerAlnum (byte (hd s)) \<and> isLowerAlnum (byte (last s)) \<and>
      list_all (\<lambda>c. isLowerAlnum (byte c) \<or> c = CHR ''-'') s"
  proof (intro iffI conjI)
    assume all: "isLowerAlnum (byte (hd s)) \<and> isLowerAlnum (byte (last s)) \<and> list_all (\<lambda>c. isLowerAlnum (byte c) \<or> c = CHR ''-'') s"
    show "\<forall>j < length s. label_byte (length s) j (byte (s ! j))"
    proof (intro allI impI)
      fix j assume "j < length s"
      then have "isLowerAlnum (byte (s ! j)) \<or> s ! j = CHR ''-''" using all by (simp add: list_all_length)
      moreover have "s ! 0 = hd s" "s ! (length s - 1) = last s" using False by (simp_all add: hd_conv_nth last_conv_nth)
      ultimately show "label_byte (length s) j (byte (s ! j))" using all unfolding label_byte_def eq by metis
    qed
  qed (simp_all add: label_byte_def list_all_length flip: eq, metis)
  finally have "label_loop (length s) 0 (map of_char s) \<longleftrightarrow> isLowerAlnum (byte (hd s)) \<and> isLowerAlnum (byte (last s)) \<and>
      list_all (\<lambda>c. isLowerAlnum (byte c) \<or> c = CHR ''-'') s" .
  with False show ?thesis by (auto simp: IsDNSLabel_def)
qed (simp add: IsDNSLabel_def)

lemmas default_defs = default_version_def default_instances_def default_size_def default_access_def
  default_retention_def default_monitoring_def default_tls_def

lemma default_version_fields:
  "pcs_PostgresVersion (default_instances s) = pcs_PostgresVersion s" "pcs_PostgresVersion (default_size s) = pcs_PostgresVersion s"
  "pcs_PostgresVersion (default_access s) = pcs_PostgresVersion s" "pcs_PostgresVersion (default_retention s) = pcs_PostgresVersion s"
  "pcs_PostgresVersion (default_monitoring s) = pcs_PostgresVersion s" "pcs_PostgresVersion (default_tls s) = pcs_PostgresVersion s"
  by (simp_all add: default_defs Let_def split: option.splits)

lemma default_instances_fields:
  "pcs_Instances (default_version s) = pcs_Instances s" "pcs_Instances (default_size s) = pcs_Instances s"
  "pcs_Instances (default_access s) = pcs_Instances s" "pcs_Instances (default_retention s) = pcs_Instances s"
  "pcs_Instances (default_monitoring s) = pcs_Instances s" "pcs_Instances (default_tls s) = pcs_Instances s"
  by (simp_all add: default_defs Let_def split: option.splits)

lemma default_storage_fields:
  "pcs_Storage (default_version s) = pcs_Storage s" "pcs_Storage (default_instances s) = pcs_Storage s"
  "pcs_Storage (default_retention s) = pcs_Storage s" "pcs_Storage (default_monitoring s) = pcs_Storage s"
  "pcs_Storage (default_tls s) = pcs_Storage s" "sto_Size (pcs_Storage (default_access s)) = sto_Size (pcs_Storage s)"
  "sto_AccessModes (pcs_Storage (default_size s)) = sto_AccessModes (pcs_Storage s)"
  by (simp_all add: default_defs Let_def split: option.splits)

lemma default_backup_fields:
  "pcs_Backup (default_version s) = pcs_Backup s" "pcs_Backup (default_instances s) = pcs_Backup s"
  "pcs_Backup (default_size s) = pcs_Backup s" "pcs_Backup (default_access s) = pcs_Backup s"
  "pcs_Backup (default_monitoring s) = pcs_Backup s" "pcs_Backup (default_tls s) = pcs_Backup s"
  by (simp_all add: default_defs Let_def)

lemma default_other_fields:
  "pcs_Monitoring (default_version s) = pcs_Monitoring s" "pcs_Monitoring (default_instances s) = pcs_Monitoring s"
  "pcs_Monitoring (default_size s) = pcs_Monitoring s" "pcs_Monitoring (default_access s) = pcs_Monitoring s"
  "pcs_Monitoring (default_retention s) = pcs_Monitoring s" "pcs_Monitoring (default_tls s) = pcs_Monitoring s"
  "pcs_TLS (default_version s) = pcs_TLS s" "pcs_TLS (default_instances s) = pcs_TLS s" "pcs_TLS (default_size s) = pcs_TLS s"
  "pcs_TLS (default_access s) = pcs_TLS s" "pcs_TLS (default_retention s) = pcs_TLS s" "pcs_TLS (default_monitoring s) = pcs_TLS s"
  by (simp_all add: default_defs Let_def split: option.splits)

lemmas default_fields =
  default_version_fields default_instances_fields default_storage_fields default_backup_fields default_other_fields

lemma Default_spec:
  "pcs_PostgresVersion (pgc_Spec (Default r)) = (let v = pcs_PostgresVersion (pgc_Spec r) in if v = 0 then 16 else v)"
  "pcs_Instances (pgc_Spec (Default r)) = (let n = pcs_Instances (pgc_Spec r) in if n = 0 then 1 else n)"
  "sto_Size (pcs_Storage (pgc_Spec (Default r))) =
     (let q = sto_Size (pcs_Storage (pgc_Spec r)) in if q = 0 then quantity_10Gi else q)"
  by (simp_all add: Default_def default_fields Let_def) (simp_all add: default_defs)

lemma Default_backup:
  "map_option (\<lambda>b. (bs_Enabled b, bs_Schedule b)) (pcs_Backup (pgc_Spec (Default r))) =
     map_option (\<lambda>b. (bs_Enabled b, bs_Schedule b)) (pcs_Backup (pgc_Spec r))"
  by (simp add: Default_def default_fields) (simp add: default_retention_def default_fields split: option.split)

text \<open>A specification with every default filled in is left alone, and \<open>Default\<close> fills them all in.\<close>

definition defaulted :: "PostgresClusterSpec \<Rightarrow> bool" where
  "defaulted s \<longleftrightarrow> pcs_PostgresVersion s \<noteq> 0 \<and> pcs_Instances s \<noteq> 0 \<and> sto_Size (pcs_Storage s) \<noteq> 0 \<and>
     sto_AccessModes (pcs_Storage s) \<noteq> [] \<and> (\<forall>b. pcs_Backup s = Some b \<longrightarrow> bs_RetentionPolicy b \<noteq> []) \<and>
     (\<exists>m. pcs_Monitoring s = Some m \<and> mon_Port m \<noteq> 0) \<and> pcs_TLS s \<noteq> None"

lemma monitoring_fixed:
  assumes "pcs_Monitoring s = Some m" "mon_Port m \<noteq> 0" shows "default_monitoring s = s"
proof -
  have "s\<lparr>pcs_Monitoring := pcs_Monitoring s\<rparr> = s" by simp
  with assms show ?thesis by (simp add: default_monitoring_def)
qed

lemma defaulted_steps:
  assumes "defaulted s"
  shows "default_version s = s" "default_instances s = s" "default_size s = s" "default_access s = s"
    "default_retention s = s" "default_monitoring s = s" "default_tls s = s"
proof -
  note d = assms [unfolded defaulted_def]
  show "default_version s = s" "default_instances s = s" "default_size s = s" "default_access s = s" "default_tls s = s"
    using d by (simp_all add: default_version_def default_instances_def default_size_def default_access_def default_tls_def)
  show "default_retention s = s" using d by (auto simp: default_retention_def split: option.split)
  show "default_monitoring s = s" using d monitoring_fixed by blast
qed

lemma defaulted_fixed: "defaulted (pgc_Spec r) \<Longrightarrow> Default r = r"
  by (simp add: Default_def defaulted_steps)

lemma Default_defaulted: "defaulted (pgc_Spec (Default r))"
proof -
  let ?s = "pgc_Spec (Default r)"
  have "quantity_10Gi \<noteq> 0" by (simp add: quantity_10Gi_def)
  then have "pcs_PostgresVersion ?s \<noteq> 0 \<and> pcs_Instances ?s \<noteq> 0 \<and> sto_Size (pcs_Storage ?s) \<noteq> 0"
    by (simp add: Default_spec Let_def)
  moreover have "sto_AccessModes (pcs_Storage ?s) \<noteq> []"
    by (simp add: Default_def default_fields) (simp add: default_access_def)
  moreover have "bs_RetentionPolicy b \<noteq> []" if "pcs_Backup ?s = Some b" for b
    using that by (simp add: Default_def default_fields) (auto simp: default_retention_def split: option.splits if_splits)
  moreover have "\<exists>m. pcs_Monitoring ?s = Some m \<and> mon_Port m \<noteq> 0"
    by (simp add: Default_def default_fields) (simp add: default_monitoring_def Let_def split: option.splits)
  moreover have "pcs_TLS ?s \<noteq> None" by (simp add: Default_def default_tls_def)
  ultimately show ?thesis unfolding defaulted_def by blast
qed

lemma instances_ok:
  "validateInstances r = [] \<longleftrightarrow> pcs_Instances (pgc_Spec r) \<in> {1, 3, 5, 7, 9}"
proof -
  define n where "n = pcs_Instances (pgc_Spec r)"
  have "(n = 1 \<or> n = 3 \<or> n = 5 \<or> n = 7 \<or> n = 9) \<longleftrightarrow> \<not> (n < 1 \<or> n > 10) \<and> \<not> (n > 1 \<and> n mod 2 = 0)" by presburger
  moreover have "validateInstances r = [] \<longleftrightarrow> \<not> (n < 1 \<or> n > 10) \<and> \<not> (n > 1 \<and> grem n 2 = 0)"
    by (simp add: validateInstances_def n_def Let_def)
  moreover have "n > 1 \<Longrightarrow> grem n 2 = n mod 2" by simp
  ultimately show ?thesis unfolding insert_iff empty_iff n_def [symmetric] by metis
qed

lemma backup_ok:
  "validateBackup u r = [] \<longleftrightarrow> (\<forall>b. pcs_Backup (pgc_Spec r) = Some b \<and> bs_Enabled b \<and> bs_Schedule b \<noteq> [] \<longrightarrow> cron_Validate (bs_Schedule b) = None)"
  by (auto simp: validateBackup_def split: option.splits)

lemma validate_None:
  "cluster_validate u sq r = None \<longleftrightarrow>
     validateVersion r = [] \<and> validateInstances r = [] \<and> validateStorage sq r = [] \<and> validateBackup u r = []"
  by (simp add: cluster_validate_def Let_def)

subsection \<open>Properties\<close>

text \<open>
  C5. What admission lets through. Defaulting fills in every default, so doing it again changes nothing; and a cluster is
  admitted after it exactly when the version it was sent with is absent or supported (14 to 17, the range
  of the upgrade package), the number of instances is absent or one of 1, 3, 5, 7, 9, the storage size is not
  negative, and the schedule of an enabled backup is empty or a valid cron expression. So an even number of instances
  above one is refused, and an enabled backup without a schedule is admitted.
\<close>

theorem admission:
  "Default (Default r) = Default r \<and>
   (ValidateCreate u sq (Default r) = None \<longleftrightarrow>
      (pcs_PostgresVersion (pgc_Spec r) = 0 \<or> ValidateVersion (pcs_PostgresVersion (pgc_Spec r)) = None) \<and>
      pcs_Instances (pgc_Spec r) \<in> {0, 1, 3, 5, 7, 9} \<and> sto_Size (pcs_Storage (pgc_Spec r)) \<ge> 0 \<and>
      (\<forall>b. pcs_Backup (pgc_Spec r) = Some b \<and> bs_Enabled b \<and> bs_Schedule b \<noteq> [] \<longrightarrow> cron_Validate (bs_Schedule b) = None))"
proof -
  let ?d = "Default r"
  have "validateVersion ?d = [] \<longleftrightarrow> pcs_PostgresVersion (pgc_Spec r) = 0 \<or> ValidateVersion (pcs_PostgresVersion (pgc_Spec r)) = None"
    by (auto simp: validateVersion_def ValidateVersion_def Default_spec Let_def)
  moreover have "validateInstances ?d = [] \<longleftrightarrow> pcs_Instances (pgc_Spec r) \<in> {0, 1, 3, 5, 7, 9}"
    by (simp add: instances_ok Default_spec Let_def)
  moreover have "quantity_10Gi > 0" by (simp add: quantity_10Gi_def)
  then have "validateStorage sq ?d = [] \<longleftrightarrow> sto_Size (pcs_Storage (pgc_Spec r)) \<ge> 0"
    by (auto simp: validateStorage_def Default_spec Let_def)
  moreover have "validateBackup u ?d = [] \<longleftrightarrow>
      (\<forall>b. pcs_Backup (pgc_Spec r) = Some b \<and> bs_Enabled b \<and> bs_Schedule b \<noteq> [] \<longrightarrow> cron_Validate (bs_Schedule b) = None)"
    using Default_backup [of r] by (cases "pcs_Backup (pgc_Spec r)") (auto simp: backup_ok)
  ultimately show ?thesis
    using defaulted_fixed [OF Default_defaulted] by (simp add: ValidateCreate_def validate_None)
qed

text \<open>C5 for the object with nothing set, which is admitted, and for a version out of range, which is not.\<close>

theorem admission_witness:
  "ValidateCreate ascii_tab (\<lambda>_. []) (Default PostgresCluster_zero) = None \<and>
   ValidateCreate ascii_tab (\<lambda>_. []) (Default (PostgresCluster_zero\<lparr>pgc_Spec :=
     (pgc_Spec PostgresCluster_zero)\<lparr>pcs_PostgresVersion := 13\<rparr>\<rparr>)) \<noteq> None"
  using admission [of PostgresCluster_zero ascii_tab "\<lambda>_. []"]
    admission [of "PostgresCluster_zero\<lparr>pgc_Spec := (pgc_Spec PostgresCluster_zero)\<lparr>pcs_PostgresVersion := 13\<rparr>\<rparr>" ascii_tab "\<lambda>_. []"]
  by (simp add: PostgresCluster_zero_def ValidateVersion_def)

end
