(* ===== verification/Pods.thy ===== *)
theory Pods
  imports Postgres_Naming Go_Time "HOL-Library.Product_Lexorder"
begin

section \<open>Pods: failover, classification and DNS names\<close>

text \<open>
  The packages \<open>ha\<close> (failover annotations, the ordinal in a pod name), \<open>podmanager\<close> (pods sorted into health
  groups, the oldest healthy one) and \<open>dnsname\<close> (the in-cluster names). An index out of range is a panic,
  which is the value None of \<open>PodOrdinal\<close>; the package variable \<open>clusterDomain\<close> of \<open>dnsname\<close> is an argument.
\<close>

subsection \<open>\<open>ha\<close>\<close>

definition AnnotationFailoverTarget :: string where "AnnotationFailoverTarget = ''pg.athos.io/failover-target''"
definition AnnotationSwitchoverTarget :: string where "AnnotationSwitchoverTarget = ''pg.athos.io/switchover-target''"
definition MinInstancesForHA :: int where "MinInstancesForHA = 3"

record TopologyInfo =
  ti_PrimaryPod :: string
  ti_ReplicaPods :: "string list"
  ti_Instances :: int

definition IsHA :: "TopologyInfo \<Rightarrow> bool" where
  "IsHA t \<longleftrightarrow> ti_Instances t \<ge> MinInstancesForHA"

definition HasReplicas :: "TopologyInfo \<Rightarrow> bool" where
  "HasReplicas t \<longleftrightarrow> length (ti_ReplicaPods t) > 0"

definition CanFailover :: "TopologyInfo \<Rightarrow> bool" where
  "CanFailover t \<longleftrightarrow> ti_PrimaryPod t \<noteq> [] \<and> length (ti_ReplicaPods t) > 0"

datatype ha_error = NoFailoverCandidate string "string list"

definition FailoverCandidate :: "TopologyInfo \<Rightarrow> ha_error + string" where
  "FailoverCandidate t =
     (if \<not> CanFailover t then Inl (NoFailoverCandidate (ti_PrimaryPod t) (ti_ReplicaPods t))
      else Inr (hd (ti_ReplicaPods t)))"

abbreviation annotations :: "PostgresCluster \<Rightarrow> smap" where
  "annotations c \<equiv> om_Annotations (pgc_meta c)"

definition FailoverRequested :: "PostgresCluster \<Rightarrow> bool" where
  "FailoverRequested cluster \<longleftrightarrow>
     map_of (annotations cluster) AnnotationFailoverTarget \<noteq> None \<or> map_of (annotations cluster) AnnotationSwitchoverTarget \<noteq> None"

definition FailoverTarget :: "PostgresCluster \<Rightarrow> string" where
  "FailoverTarget cluster = mapidx (annotations cluster) AnnotationFailoverTarget"

definition SwitchoverTarget :: "PostgresCluster \<Rightarrow> string" where
  "SwitchoverTarget cluster = mapidx (annotations cluster) AnnotationSwitchoverTarget"

definition ClearFailoverAnnotations :: "smap \<Rightarrow> smap" where
  "ClearFailoverAnnotations as = mapdel (mapdel (range_set [] as) AnnotationFailoverTarget) AnnotationSwitchoverTarget"

text \<open>
  The first loop of \<open>PodOrdinal\<close> runs over the digits from the right; \<open>ordinal_index\<close> is where it stops, -1
  past the start. The second adds the digits up with wrapping multiplications.
\<close>

definition ordinal_index :: "string \<Rightarrow> int" where
  "ordinal_index s = int (length (dropWhile is_digit (rev s))) - 1"

fun ordinal_loop :: "string \<Rightarrow> int \<Rightarrow> int \<Rightarrow> int" where
  "ordinal_loop [] ordinal mul = ordinal"
| "ordinal_loop (c # cs) ordinal mul = ordinal_loop cs (i64 (ordinal + i64 ((int (byte c) - 48) * mul))) (i64 (mul * 10))"

definition PodOrdinal :: "string \<Rightarrow> int option" where
  "PodOrdinal podName =
     (let n = int (length podName); i = ordinal_index podName in
      if n = 0 then Some (- 1)
      else if i = n - 1 then Some (- 1)
      else if i < 0 then None
      else if podName ! nat i \<noteq> CHR ''-'' then Some (- 1)
      else Some (ordinal_loop (rev (drop (nat (i + 1)) podName)) 0 1))"

subsection \<open>\<open>podmanager\<close>\<close>

record PodCondition =
  pc_Type :: string
  pc_Status :: string

record Pod =
  pod_meta :: ObjectMeta
  pod_Phase :: string
  pod_Conditions :: "PodCondition list"
  pod_Running :: "bool list"

text \<open>\<open>pod_Running\<close> tells of each container status whether \<open>State.Running\<close> is set. A nil pod is None.\<close>

datatype PodPhase = PhasePending | PhaseStarting | PhaseHealthy | PhaseUnhealthy | PhaseTerminating | PodPhaseFailed

definition isReady :: "Pod \<Rightarrow> bool" where
  "isReady p \<longleftrightarrow> list_ex (\<lambda>c. pc_Type c = ''Ready'' \<and> pc_Status c = ConditionTrue) (pod_Conditions p)"

definition hasRunningContainer :: "Pod \<Rightarrow> bool" where
  "hasRunningContainer p \<longleftrightarrow> list_ex (\<lambda>r. r) (pod_Running p)"

definition podmanager_Classify :: "Pod option \<Rightarrow> PodPhase" where
  "podmanager_Classify po =
     (case po of
        None \<Rightarrow> PhasePending
      | Some p \<Rightarrow>
          if om_DeletionTimestamp (pod_meta p) \<noteq> None then PhaseTerminating
          else if pod_Phase p = ''Pending'' then PhasePending
          else if pod_Phase p = ''Failed'' then PodPhaseFailed
          else if \<not> isReady p then (if hasRunningContainer p then PhaseUnhealthy else PhaseStarting)
          else PhaseHealthy)"

record Group =
  g_Healthy :: "Pod option list"
  g_Unhealthy :: "Pod option list"
  g_Starting :: "Pod option list"
  g_Terminating :: "Pod option list"
  g_Pending :: "Pod option list"
  g_Failed :: "Pod option list"

definition Group_zero :: Group where
  "Group_zero = \<lparr>g_Healthy = [], g_Unhealthy = [], g_Starting = [], g_Terminating = [], g_Pending = [], g_Failed = []\<rparr>"

definition Total :: "Group \<Rightarrow> nat" where
  "Total g = length (g_Healthy g) + length (g_Unhealthy g) + length (g_Starting g) +
     length (g_Terminating g) + length (g_Pending g) + length (g_Failed g)"

definition IsAllHealthy :: "Group \<Rightarrow> bool" where
  "IsAllHealthy g \<longleftrightarrow> (if Total g = 0 then False else length (g_Healthy g) = Total g)"

definition HealthyCount :: "Group \<Rightarrow> nat" where
  "HealthyCount g = length (g_Healthy g)"

definition split_step :: "Group \<Rightarrow> Pod option \<Rightarrow> Group" where
  "split_step g p =
     (case podmanager_Classify p of
        PhaseHealthy \<Rightarrow> g\<lparr>g_Healthy := g_Healthy g @ [p]\<rparr>
      | PhaseUnhealthy \<Rightarrow> g\<lparr>g_Unhealthy := g_Unhealthy g @ [p]\<rparr>
      | PhaseStarting \<Rightarrow> g\<lparr>g_Starting := g_Starting g @ [p]\<rparr>
      | PhaseTerminating \<Rightarrow> g\<lparr>g_Terminating := g_Terminating g @ [p]\<rparr>
      | PodPhaseFailed \<Rightarrow> g\<lparr>g_Failed := g_Failed g @ [p]\<rparr>
      | PhasePending \<Rightarrow> g\<lparr>g_Pending := g_Pending g @ [p]\<rparr>)"

definition SplitByPhase :: "Pod option list \<Rightarrow> Group" where
  "SplitByPhase pods = foldl split_step Group_zero pods"

text \<open>
  \<open>sort.Slice\<close> by creation time, then name. Pods of one cluster have different names, so every sorting
  algorithm gives this list.
\<close>

abbreviation creation_key :: "Pod \<Rightarrow> gotime \<times> string" where
  "creation_key p \<equiv> (om_CreationTimestamp (pod_meta p), om_Name (pod_meta p))"

definition SortByCreation :: "Pod list \<Rightarrow> Pod list" where
  "SortByCreation pods = sort_key creation_key pods"

definition OldestHealthy :: "Pod option list \<Rightarrow> Pod option" where
  "OldestHealthy pods =
     (let healthy = map the (filter (\<lambda>p. podmanager_Classify p = PhaseHealthy) pods) in
      if healthy = [] then None else Some (hd (SortByCreation healthy)))"

definition AgeOf :: "Pod option \<Rightarrow> gotime \<Rightarrow> duration" where
  "AgeOf po now =
     (case po of
        None \<Rightarrow> 0
      | Some p \<Rightarrow> if om_CreationTimestamp (pod_meta p) = 0 then 0 else time_Sub now (om_CreationTimestamp (pod_meta p)))"

subsection \<open>\<open>dnsname\<close>\<close>

definition clusterDomain :: string where "clusterDomain = ''cluster.local''"

definition SetClusterDomain :: "string \<Rightarrow> string" where
  "SetClusterDomain d = (if d = [] then ''cluster.local'' else TrimSuffix d ''.'')"

definition ServiceFQDN :: "string \<Rightarrow> string \<Rightarrow> string \<Rightarrow> string" where
  "ServiceFQDN d svc namespace = svc @ ''.'' @ namespace @ ''.svc.'' @ d"

definition dnsname_PodFQDN :: "string \<Rightarrow> string \<Rightarrow> string \<Rightarrow> string \<Rightarrow> string" where
  "dnsname_PodFQDN d pod headlessSvc namespace = pod @ ''.'' @ headlessSvc @ ''.'' @ namespace @ ''.svc.'' @ d"

definition PrimaryFQDN :: "string \<Rightarrow> string \<Rightarrow> string \<Rightarrow> string" where
  "PrimaryFQDN d cluster namespace = ServiceFQDN d (cluster @ ''-rw'') namespace"

definition ReplicaFQDN :: "string \<Rightarrow> string \<Rightarrow> string \<Rightarrow> string" where
  "ReplicaFQDN d cluster namespace = ServiceFQDN d (cluster @ ''-ro'') namespace"

definition AnyFQDN :: "string \<Rightarrow> string \<Rightarrow> string \<Rightarrow> string" where
  "AnyFQDN d cluster namespace = ServiceFQDN d (cluster @ ''-any'') namespace"

definition HeadlessFQDN :: "string \<Rightarrow> string \<Rightarrow> string \<Rightarrow> string" where
  "HeadlessFQDN d cluster namespace = ServiceFQDN d (cluster @ ''-headless'') namespace"

definition SearchPath :: "string \<Rightarrow> string \<Rightarrow> string list" where
  "SearchPath d namespace = [namespace @ ''.svc.'' @ d, ''svc.'' @ d, d]"

subsection \<open>Lemmas\<close>

lemma ordinal_loop_val:
  "ordinal_loop cs (i64 a) (i64 m) = i64 (a + m * (\<Sum>i<length cs. (int (byte (cs ! i)) - 48) * 10 ^ i))"
proof (induction cs arbitrary: a m)
  case (Cons c cs)
  have "ordinal_loop (c # cs) (i64 a) (i64 m) = ordinal_loop cs (i64 (a + (int (byte c) - 48) * m)) (i64 (m * 10))"
    by simp
  also have "\<dots> = i64 (a + (int (byte c) - 48) * m + m * 10 * (\<Sum>i<length cs. (int (byte (cs ! i)) - 48) * 10 ^ i))"
    by (rule Cons.IH)
  also have "\<dots> = i64 (a + m * (\<Sum>i<length (c # cs). (int (byte ((c # cs) ! i)) - 48) * 10 ^ i))"
    by (rule arg_cong [of _ _ i64]) (simp add: sum.lessThan_Suc_shift sum_distrib_left algebra_simps del: sum.lessThan_Suc)
  finally show ?case .
qed simp

lemma digits_val_sum:
  "list_all is_digit ds \<Longrightarrow> int (digits_val ds) = (\<Sum>i<length ds. (int (byte (rev ds ! i)) - 48) * 10 ^ i)"
proof (induction ds rule: rev_induct)
  case (snoc c ds)
  then show ?case
    by (simp add: is_digit_def sum.lessThan_Suc_shift sum_distrib_left of_nat_diff algebra_simps del: sum.lessThan_Suc)
qed simp

lemma ordinal_index_split:
  assumes "list_all is_digit ds" "\<not> is_digit c"
  shows "ordinal_index (p @ c # ds) = int (length p)"
  using assms by (simp add: ordinal_index_def list_all_iff dropWhile_append2 dropWhile_append3)

lemma PodOrdinal_digits:
  assumes "list_all is_digit ds" "ds \<noteq> []"
  shows "PodOrdinal (p @ CHR ''-'' # ds) = Some (i64 (int (digits_val ds)))"
proof -
  have "\<not> is_digit (CHR ''-'')" by (simp add: is_digit_def)
  from ordinal_index_split [OF assms(1) this, of p]
  have "PodOrdinal (p @ CHR ''-'' # ds) = Some (ordinal_loop (rev ds) 0 1)"
    using assms(2) by (simp add: PodOrdinal_def Let_def nat_add_distrib)
  also have "ordinal_loop (rev ds) 0 1 = i64 (0 + 1 * (\<Sum>i<length (rev ds). (int (byte (rev ds ! i)) - 48) * 10 ^ i))"
    using ordinal_loop_val [of "rev ds" 0 1] by (simp add: i64_def)
  finally show ?thesis using digits_val_sum [OF assms(1)] by simp
qed

lemma PodOrdinal_panics: "PodOrdinal s = None \<longleftrightarrow> s \<noteq> [] \<and> list_all is_digit s"
proof -
  have "ordinal_index s < 0 \<longleftrightarrow> list_all is_digit s" by (simp add: ordinal_index_def dropWhile_eq_Nil_conv list_all_iff)
  then show ?thesis by (cases "s = []") (auto simp: PodOrdinal_def Let_def)
qed

lemma split_step_groups:
  "g_Healthy (foldl split_step g pods) = g_Healthy g @ filter (\<lambda>p. podmanager_Classify p = PhaseHealthy) pods"
  "g_Unhealthy (foldl split_step g pods) = g_Unhealthy g @ filter (\<lambda>p. podmanager_Classify p = PhaseUnhealthy) pods"
  "g_Starting (foldl split_step g pods) = g_Starting g @ filter (\<lambda>p. podmanager_Classify p = PhaseStarting) pods"
  "g_Terminating (foldl split_step g pods) = g_Terminating g @ filter (\<lambda>p. podmanager_Classify p = PhaseTerminating) pods"
  "g_Pending (foldl split_step g pods) = g_Pending g @ filter (\<lambda>p. podmanager_Classify p = PhasePending) pods"
  "g_Failed (foldl split_step g pods) = g_Failed g @ filter (\<lambda>p. podmanager_Classify p = PodPhaseFailed) pods"
  by (induction pods arbitrary: g) (simp_all add: split_step_def split: PodPhase.split)

lemma Total_foldl: "Total (foldl split_step g pods) = Total g + length pods"
  by (induction pods arbitrary: g) (simp_all add: split_step_def Total_def split: PodPhase.split)

lemma Total_zero: "Total Group_zero = 0"
  by (simp add: Total_def Group_zero_def)

lemma hd_sort_key_least:
  assumes "xs \<noteq> []"
  shows "hd (sort_key f xs) \<in> set xs \<and> (\<forall>x \<in> set xs. f (hd (sort_key f xs)) \<le> f x)"
proof -
  obtain y ys where s: "sort_key f xs = y # ys" using assms by (metis length_0_conv length_sort neq_Nil_conv)
  have "sorted (map f (sort_key f xs))" by simp
  with s have "\<forall>x \<in> set (y # ys). f y \<le> f x" by auto
  moreover have "set (y # ys) = set xs" using s set_sort by metis
  ultimately show ?thesis using s by auto
qed

subsection \<open>Properties\<close>

text \<open>
  C24. The ordinal of a pod name. From the name of the n-th pod of a cluster \<open>PodOrdinal\<close> gives n back, up to the
  wrap-around of int; on a name of digits only it reads the byte at index -1 and panics, and it panics
  on no other name.
\<close>

theorem PodOrdinal_round_trip:
  assumes "0 \<le> n"
  shows "PodOrdinal (PodName c n) = Some (i64 n) \<and> (PodOrdinal s = None \<longleftrightarrow> s \<noteq> [] \<and> list_all is_digit s)"
  using PodOrdinal_digits [of "dec_nat (nat n)" "cluster_name c"] assms
  by (simp add: PodName_def dec_def PodOrdinal_panics)

text \<open>C24 for the third pod of a cluster named \<open>db\<close>, and the name \<open>42\<close>.\<close>

theorem PodOrdinal_round_trip_witness:
  "PodOrdinal ''db-2'' = Some 2 \<and> PodOrdinal ''42'' = None"
proof -
  let ?c = "PostgresCluster_zero\<lparr>pgc_meta := ObjectMeta_zero\<lparr>om_Name := ''db''\<rparr>\<rparr>"
  have "PodName ?c 2 = ''db-2''" "i64 2 = 2" "list_all is_digit ''42''" by code_simp+
  with PodOrdinal_round_trip [of 2 ?c "''42''"] show ?thesis by simp
qed

text \<open>
  C25. The health groups partition the pods. Each group holds exactly the pods of its phase in their order and the sizes add
  up, so all pods are healthy exactly when there is one and each is; the oldest healthy pod exists
  when some pod is healthy, is one of them, and no healthy pod comes before it by creation time and name.
\<close>

theorem pod_groups:
  "g_Healthy (SplitByPhase pods) = filter (\<lambda>p. podmanager_Classify p = PhaseHealthy) pods \<and>
   g_Unhealthy (SplitByPhase pods) = filter (\<lambda>p. podmanager_Classify p = PhaseUnhealthy) pods \<and>
   g_Starting (SplitByPhase pods) = filter (\<lambda>p. podmanager_Classify p = PhaseStarting) pods \<and>
   g_Terminating (SplitByPhase pods) = filter (\<lambda>p. podmanager_Classify p = PhaseTerminating) pods \<and>
   g_Pending (SplitByPhase pods) = filter (\<lambda>p. podmanager_Classify p = PhasePending) pods \<and>
   g_Failed (SplitByPhase pods) = filter (\<lambda>p. podmanager_Classify p = PodPhaseFailed) pods \<and>
   Total (SplitByPhase pods) = length pods \<and>
   (IsAllHealthy (SplitByPhase pods) \<longleftrightarrow> pods \<noteq> [] \<and> list_all (\<lambda>p. podmanager_Classify p = PhaseHealthy) pods) \<and>
   (case OldestHealthy pods of
      None \<Rightarrow> g_Healthy (SplitByPhase pods) = []
    | Some p \<Rightarrow> Some p \<in> set (g_Healthy (SplitByPhase pods)) \<and>
        list_all (\<lambda>q. creation_key p \<le> creation_key (the q)) (g_Healthy (SplitByPhase pods)))"
proof -
  let ?h = "filter (\<lambda>p. podmanager_Classify p = PhaseHealthy) pods"
  have groups: "g_Healthy (SplitByPhase pods) = ?h" "Total (SplitByPhase pods) = length pods"
    using Total_foldl [of Group_zero pods] Total_zero
    by (simp_all add: SplitByPhase_def split_step_groups) (simp add: Group_zero_def)
  have "length ?h = length pods \<longleftrightarrow> list_all (\<lambda>p. podmanager_Classify p = PhaseHealthy) pods"
    by (metis filter_True length_filter_less list_all_iff nat_neq_iff)
  then have all: "IsAllHealthy (SplitByPhase pods) \<longleftrightarrow> pods \<noteq> [] \<and> list_all (\<lambda>p. podmanager_Classify p = PhaseHealthy) pods"
    by (auto simp: IsAllHealthy_def groups)
  have old: "case OldestHealthy pods of None \<Rightarrow> ?h = []
    | Some p \<Rightarrow> Some p \<in> set ?h \<and> list_all (\<lambda>q. creation_key p \<le> creation_key (the q)) ?h"
  proof (cases "?h = []")
    case False
    have some: "q \<in> set ?h \<Longrightarrow> q = Some (the q)" for q by (cases q) (simp_all add: podmanager_Classify_def)
    let ?p = "hd (sort_key creation_key (map the ?h))"
    have "?p \<in> set (map the ?h)" "\<forall>x \<in> set (map the ?h). creation_key ?p \<le> creation_key x"
      using hd_sort_key_least [of "map the ?h" creation_key] False by simp_all
    moreover have "OldestHealthy pods = Some ?p" using False by (simp add: OldestHealthy_def SortByCreation_def)
    moreover have "Some ?p \<in> set ?h" using \<open>?p \<in> set (map the ?h)\<close> some by (metis (no_types, lifting) imageE list.set_map)
    ultimately show ?thesis by (auto simp: list_all_iff)
  qed (simp add: OldestHealthy_def)
  show ?thesis unfolding groups all using old by (simp add: SplitByPhase_def split_step_groups Group_zero_def)
qed

text \<open>
  The DNS names against the objects. The pod names of \<open>dnsname\<close> in the default domain are those of
  \<open>postgres.PodFQDN\<close>; the four service names of \<open>dnsname\<close> are those of no Service the operator creates for the
  cluster.
\<close>

theorem dns_names:
  "dnsname_PodFQDN clusterDomain (PodName c n) (HeadlessServiceName c) (om_Namespace (pgc_meta c)) = PodFQDN c n \<and>
   list_all (\<lambda>f. list_all (\<lambda>svc. f d (cluster_name c) ns \<noteq> ServiceFQDN d svc ns)
     [PrimaryServiceName c, ReplicaServiceName c, HeadlessServiceName c]) [PrimaryFQDN, ReplicaFQDN, AnyFQDN, HeadlessFQDN]"
  by (simp add: dnsname_PodFQDN_def PodFQDN_def clusterDomain_def ServiceFQDN_def PrimaryFQDN_def ReplicaFQDN_def AnyFQDN_def
      HeadlessFQDN_def PrimaryServiceName_def ReplicaServiceName_def HeadlessServiceName_def)

end
