(* ===== verification/Workflows.thy ===== *)
theory Workflows
  imports Pooler_Controller Pods
begin

section \<open>Shared reconcile steps\<close>

text \<open>
  The package \<open>workflows\<close>: ensure a namespace, a Secret or a ConfigMap, and clean up the volume claims of pods that
  are gone. Secrets and ConfigMaps go through the client of \<open>Kube_Client\<close>; the calls on namespaces and the
  listing and deletion of claims, which no other component uses, are arguments.
\<close>

subsection \<open>Operations\<close>

record ReconcileResult =
  rres_Requeue :: bool
  rres_Err :: "err option"

definition Done :: ReconcileResult where "Done = \<lparr>rres_Requeue = False, rres_Err = None\<rparr>"
definition RequeueErr :: "err \<Rightarrow> ReconcileResult" where "RequeueErr e = \<lparr>rres_Requeue = True, rres_Err = Some e\<rparr>"
definition RequeueAfter :: ReconcileResult where "RequeueAfter = \<lparr>rres_Requeue = True, rres_Err = None\<rparr>"

definition Ctrl :: "ReconcileResult \<Rightarrow> Result \<times> err option" where
  "Ctrl r = (\<lparr>res_Requeue = rres_Requeue r, res_RequeueAfter = 0\<rparr>, rres_Err r)"

definition EnsureNamespace ::
  "unitab \<Rightarrow> (string \<Rightarrow> ('w, ObjectMeta) io) \<Rightarrow> (ObjectMeta \<Rightarrow> ('w, unit) io) \<Rightarrow> string \<Rightarrow> ('w, unit) io" where
  "EnsureNamespace u getNs createNs name =
     bindE (tryE (getNs name)) (\<lambda>r.
       case r of
         Inr ns \<Rightarrow> retE ()
       | Inl e \<Rightarrow>
           if \<not> IsNotFound e then failE (Wrap (''getting namespace '' @ Quote u name) e)
           else bindE (tryE (createNs (ObjectMeta_zero\<lparr>om_Name := name\<rparr>))) (\<lambda>r2.
             case r2 of
               Inl e2 \<Rightarrow> if \<not> IsAlreadyExists e2 then failE (Wrap (''creating namespace '' @ Quote u name) e2) else retE ()
             | Inr _ \<Rightarrow> retE ()))"

definition secretDataChanged :: "smap \<Rightarrow> smap \<Rightarrow> bool" where
  "secretDataChanged old new =
     (if length old \<noteq> length new then True
      else list_ex (\<lambda>(k, v). case map_of new k of None \<Rightarrow> True | Some nv \<Rightarrow> v \<noteq> nv) old)"

definition configMapDataChanged :: "smap \<Rightarrow> smap \<Rightarrow> bool" where
  "configMapDataChanged old new =
     (if length old \<noteq> length new then True else list_ex (\<lambda>(k, v). mapidx new k \<noteq> v) old)"

definition ReconcileSecret :: "'w env \<Rightarrow> KObj \<Rightarrow> Secret \<Rightarrow> ('w, unit) io" where
  "ReconcileSecret env ow desired =
     bindE (wrapE ''setting controller reference'' (setRef env ow (sec_meta desired))) (\<lambda>m.
     bindE (tryE (get_as asSecret env (key SecretKind m))) (\<lambda>r.
     case r of
       Inl e \<Rightarrow> if \<not> IsNotFound e then failE (Wrap (''getting secret '' @ Quote (env_uni env) (om_Name (sec_meta desired))) e)
                else Create env (KSecret (desired\<lparr>sec_meta := m\<rparr>))
     | Inr existing \<Rightarrow>
         if secretDataChanged (sec_Data existing) (sec_Data desired)
         then Update env (KSecret (existing\<lparr>sec_Data := sec_Data desired\<rparr>)) else retE ()))"

definition ReconcileConfigMap :: "'w env \<Rightarrow> KObj \<Rightarrow> ConfigMap \<Rightarrow> ('w, unit) io" where
  "ReconcileConfigMap env ow desired =
     bindE (wrapE ''setting controller reference'' (setRef env ow (cm_meta desired))) (\<lambda>m.
     bindE (tryE (get_as asConfigMap env (key ConfigMapKind m))) (\<lambda>r.
     case r of
       Inl e \<Rightarrow> if \<not> IsNotFound e then failE (Wrap (''getting configmap '' @ Quote (env_uni env) (om_Name (cm_meta desired))) e)
                else Create env (KConfigMap (desired\<lparr>cm_meta := m\<rparr>))
     | Inr existing \<Rightarrow>
         if configMapDataChanged (cm_Data existing) (cm_Data desired)
         then Update env (KConfigMap (existing\<lparr>cm_Data := cm_Data desired\<rparr>)) else retE ()))"

text \<open>\<open>pvcOrdinal\<close> reads the digits at the end of a name with the loops of \<open>PodOrdinal\<close>; the cluster's name is not looked at.\<close>

definition pvcOrdinal :: "string \<Rightarrow> string \<Rightarrow> int" where
  "pvcOrdinal pvcName clusterName =
     (let idx = ordinal_index pvcName in
      if idx < 0 \<or> pvcName ! nat idx \<noteq> CHR ''-'' then - 1
      else ordinal_loop (rev (drop (nat (idx + 1)) pvcName)) 0 1)"

fun cleanup_loop :: "unitab \<Rightarrow> (PersistentVolumeClaim \<Rightarrow> ('w, unit) io) \<Rightarrow> PostgresCluster \<Rightarrow> PersistentVolumeClaim list \<Rightarrow> ('w, unit) io" where
  "cleanup_loop u del cluster [] = retE ()"
| "cleanup_loop u del cluster (pvc # pvcs) =
     (if om_DeletionTimestamp (pvc_meta pvc) \<noteq> None then cleanup_loop u del cluster pvcs
      else if pvcOrdinal (om_Name (pvc_meta pvc)) (cluster_name cluster) \<ge> pcs_Instances (pgc_Spec cluster) then
        bindE (tryE (del pvc)) (\<lambda>r.
          case r of
            Inl e \<Rightarrow> if \<not> IsNotFound e then failE (Wrap (''deleting PVC '' @ Quote u (om_Name (pvc_meta pvc))) e)
                     else cleanup_loop u del cluster pvcs
          | Inr _ \<Rightarrow> cleanup_loop u del cluster pvcs)
      else cleanup_loop u del cluster pvcs)"

definition CleanupOrphanedPVCs ::
  "unitab \<Rightarrow> (string \<Rightarrow> smap \<Rightarrow> ('w, PersistentVolumeClaim list) io) \<Rightarrow> (PersistentVolumeClaim \<Rightarrow> ('w, unit) io) \<Rightarrow>
   PostgresCluster \<Rightarrow> smap \<Rightarrow> ('w, unit) io" where
  "CleanupOrphanedPVCs u lst del cluster labelSelector =
     bindE (wrapE ''listing PVCs'' (lst (om_Namespace (pgc_meta cluster)) labelSelector)) (cleanup_loop u del cluster)"

subsection \<open>Lemmas\<close>

text \<open>Two maps of one size are equal when every entry of the first is one of the second.\<close>

lemma same_size_maps:
  assumes "wf_map old" "wf_map new" "length old = length new" "\<forall>(k, v) \<in> set old. map_of new k = Some v"
  shows "map_of old = map_of new"
proof -
  have "set old \<subseteq> set new" using assms(2,4) by (auto dest: map_of_SomeD)
  moreover have "card (set old) = card (set new)"
    using assms by (metis distinct_card distinct_map)
  ultimately have "set old = set new" by (simp add: card_subset_eq)
  with assms(1,2) show ?thesis by (rule map_of_cong_set)
qed

lemma same_map_size:
  assumes "wf_map old" "wf_map new" "map_of old = map_of new"
  shows "length old = length new"
proof -
  have "set old = set new" using assms map_of_inject_set by blast
  with assms show ?thesis by (metis distinct_card distinct_map)
qed

lemma secretDataChanged_iff:
  assumes "wf_map old" "wf_map new"
  shows "secretDataChanged old new \<longleftrightarrow> map_of old \<noteq> map_of new"
proof -
  have "(case map_of new k of None \<Rightarrow> True | Some nv \<Rightarrow> v \<noteq> nv) \<longleftrightarrow> map_of new k \<noteq> Some v" for k v
    by (cases "map_of new k") auto
  then have "\<not> secretDataChanged old new \<longleftrightarrow> length old = length new \<and> (\<forall>(k, v) \<in> set old. map_of new k = Some v)"
    by (auto simp: secretDataChanged_def list_ex_iff)
  moreover have "map_of new k = Some v" if "map_of old = map_of new" "(k, v) \<in> set old" for k v
    using that assms(1) by (metis map_of_is_SomeI)
  ultimately show ?thesis using same_size_maps [OF assms] same_map_size [OF assms] by auto
qed

text \<open>
  The change test on ConfigMaps reads absent keys as empty. \<open>blank_renamed\<close>: as many keys as before, the common ones with
  equal values, and at least one old key gone, all of them with empty values.
\<close>

definition blank_renamed :: "smap \<Rightarrow> smap \<Rightarrow> bool" where
  "blank_renamed old new \<longleftrightarrow> length old = length new \<and> (\<exists>k \<in> fst ` set old. map_of new k = None) \<and>
     (\<forall>(k, v) \<in> set old. map_of new k = Some v \<or> map_of new k = None \<and> v = [])"

lemma blank_renamed_unchanged: "blank_renamed old new \<Longrightarrow> \<not> configMapDataChanged old new"
  by (fastforce simp: blank_renamed_def configMapDataChanged_def list_ex_iff mapidx_def)

lemma configMapDataChanged_unless:
  assumes "wf_map old" "wf_map new" "\<not> blank_renamed old new"
  shows "configMapDataChanged old new \<longleftrightarrow> map_of old \<noteq> map_of new"
proof
  show "map_of old \<noteq> map_of new" if "configMapDataChanged old new"
  proof
    assume eq: "map_of old = map_of new"
    then have "length old = length new" by (rule same_map_size [OF assms(1,2)])
    moreover have "mapidx new k = v" if "(k, v) \<in> set old" for k v
      using that assms(1) eq by (metis map_of_is_SomeI mapidx_def option.simps(5))
    ultimately show False using that by (auto simp: configMapDataChanged_def list_ex_iff)
  qed
  show "configMapDataChanged old new" if "map_of old \<noteq> map_of new"
  proof (rule ccontr)
    assume n: "\<not> configMapDataChanged old new"
    then have len: "length old = length new" by (simp add: configMapDataChanged_def split: if_splits)
    from n have e: "map_of new k = Some v \<or> map_of new k = None \<and> v = []" if "(k, v) \<in> set old" for k v
      using that by (cases "map_of new k") (auto simp: configMapDataChanged_def list_ex_iff mapidx_def split: if_splits)
    with len assms(3) have "\<forall>k \<in> fst ` set old. map_of new k \<noteq> None" by (fastforce simp: blank_renamed_def)
    with e have "\<forall>(k, v) \<in> set old. map_of new k = Some v" by fastforce
    with same_size_maps [OF assms(1,2) len] that show False by blast
  qed
qed

lemma configMapDataChanged_iff:
  assumes "wf_map old" "wf_map new" "list_all (\<lambda>(k, v). v \<noteq> []) old"
  shows "configMapDataChanged old new \<longleftrightarrow> map_of old \<noteq> map_of new"
  using assms by (intro configMapDataChanged_unless) (fastforce simp: blank_renamed_def list_all_iff)+

lemma pvcOrdinal_name:
  assumes "0 \<le> n" shows "pvcOrdinal (p @ CHR ''-'' # dec n) c = i64 n"
proof -
  let ?ds = "dec_nat (nat n)"
  have i: "ordinal_index (p @ CHR ''-'' # ?ds) = int (length p)"
    by (rule ordinal_index_split) (simp_all add: is_digit_def)
  then have "Some (pvcOrdinal (p @ CHR ''-'' # ?ds) c) = PodOrdinal (p @ CHR ''-'' # ?ds)"
    by (simp add: pvcOrdinal_def PodOrdinal_def Let_def)
  then show ?thesis using PodOrdinal_digits [of ?ds p] assms by (simp add: dec_def)
qed

context quiet_env
begin

lemma ReconcileSecret_step:
  assumes "keyed (look w)" "ref_ok ow (sec_meta d)" "wf_map (sec_Data d)" "wf_map (sec_StringData d)"
    "\<And>s. look w (key SecretKind (sec_meta d)) = Some (KSecret s) \<Longrightarrow> wf_map (sec_Data s)"
  shows "leaves (ReconcileSecret env ow d) w (key SecretKind (sec_meta d))
    (\<lambda>old ob. \<exists>s. ob = KSecret s \<and> wf_map (sec_Data s) \<and> map_of (sec_Data s) =
       (if old = None then map_of (sec_Data d) ++ map_of (sec_StringData d) else map_of (sec_Data d)))"
  unfolding ReconcileSecret_def using assms secretDataChanged_iff
  by (intro leaves_ensure_wrapped)
     (auto simp: kind_of_iff key_of_def key_def range_set_lookup intro!: leaves_Create leaves_Update leaves_retE)

lemma ReconcileConfigMap_step:
  assumes "keyed (look w)" "ref_ok ow (cm_meta d)" "wf_map (cm_Data d)"
    "\<And>s. look w (key ConfigMapKind (cm_meta d)) = Some (KConfigMap s) \<Longrightarrow> wf_map (cm_Data s)"
  shows "leaves (ReconcileConfigMap env ow d) w (key ConfigMapKind (cm_meta d))
    (\<lambda>old ob. \<exists>s. ob = KConfigMap s \<and>
       (if \<exists>x. old = Some (KConfigMap x) \<and> blank_renamed (cm_Data x) (cm_Data d)
        then old = Some ob else map_of (cm_Data s) = map_of (cm_Data d)))"
  unfolding ReconcileConfigMap_def using assms configMapDataChanged_unless blank_renamed_unchanged
  by (intro leaves_ensure_wrapped)
     (auto simp: kind_of_iff key_of_def key_def intro!: leaves_Create leaves_Update leaves_retE)

end

text \<open>The claims that the cleanup removes, and removing a list of claims.\<close>

definition orphaned :: "PostgresCluster \<Rightarrow> PersistentVolumeClaim \<Rightarrow> bool" where
  "orphaned c p \<longleftrightarrow> om_DeletionTimestamp (pvc_meta p) = None \<and>
     pvcOrdinal (om_Name (pvc_meta p)) (cluster_name c) \<ge> pcs_Instances (pgc_Spec c)"

fun deleteAll :: "unitab \<Rightarrow> (PersistentVolumeClaim \<Rightarrow> ('w, unit) io) \<Rightarrow> PersistentVolumeClaim list \<Rightarrow> ('w, unit) io" where
  "deleteAll u del [] = retE ()"
| "deleteAll u del (p # ps) = bindE (tryE (del p)) (\<lambda>r.
     case r of Inl e \<Rightarrow> if IsNotFound e then deleteAll u del ps else failE (Wrap (''deleting PVC '' @ Quote u (om_Name (pvc_meta p))) e)
     | Inr _ \<Rightarrow> deleteAll u del ps)"

lemma cleanup_loop_filter: "cleanup_loop u del c pvcs = deleteAll u del (filter (orphaned c) pvcs)"
  by (induction pvcs) (auto simp: orphaned_def intro!: arg_cong [of _ _ "bindE _"] split: sum.splits)

subsection \<open>Properties\<close>

text \<open>
  C20. What \<open>ReconcileSecret\<close> stores. On a server nobody else writes to, for a Secret that can be given its owner, two runs in a row
  succeed and change at most that Secret. The first leaves the desired \<open>Data\<close>, joined by the \<open>StringData\<close> if the Secret was
  absent; the second leaves the desired \<open>Data\<close> alone, because the comparison and the update ignore \<open>StringData\<close>. So a Secret
  without \<open>StringData\<close> converges in one run, and one given only as \<open>StringData\<close>, as \<open>BuildCredentialSecret\<close>
  makes it, is created by one run and emptied by the next. When the owner cannot be set, the error is returned and nothing is written.
\<close>

theorem ReconcileSecret_outcome:
  assumes "quiet_env env look" "keyed (look w)" "wf_map (sec_Data d)" "wf_map (sec_StringData d)"
    "\<And>s. look w (key SecretKind (sec_meta d)) = Some (KSecret s) \<Longrightarrow> wf_map (sec_Data s)"
  defines "k \<equiv> key SecretKind (sec_meta d)"
  shows "(ref_ok ow (sec_meta d) \<longrightarrow>
      (\<exists>w1 s1 w2 s2. ReconcileSecret env ow d w = (Inr (), w1) \<and> look w1 = (look w)(k \<mapsto> KSecret s1) \<and>
        map_of (sec_Data s1) = (if look w k = None then map_of (sec_Data d) ++ map_of (sec_StringData d) else map_of (sec_Data d)) \<and>
        ReconcileSecret env ow d w1 = (Inr (), w2) \<and> look w2 = (look w)(k \<mapsto> KSecret s2) \<and>
        map_of (sec_Data s2) = map_of (sec_Data d))) \<and>
    (env_setRef env ow (sec_meta d) = Inl e \<longrightarrow>
      ReconcileSecret env ow d w = (Inl (Wrap ''setting controller reference'' e), w))"
proof (intro conjI impI)
  assume ref: "ref_ok ow (sec_meta d)"
  note step = quiet_env.ReconcileSecret_step [OF assms(1) _ ref assms(3,4), unfolded quiet_env.leaves_def [OF assms(1)]]
  from step [OF assms(2,5)] obtain w1 s1 where 1: "ReconcileSecret env ow d w = (Inr (), w1)"
    "look w1 = (look w)(k \<mapsto> KSecret s1)" "key_of (KSecret s1) = k" "wf_map (sec_Data s1)"
    "map_of (sec_Data s1) = (if look w k = None then map_of (sec_Data d) ++ map_of (sec_StringData d) else map_of (sec_Data d))"
    unfolding k_def by blast
  have "keyed (look w1)" using 1(2,3) assms(2) by simp
  moreover have "wf_map (sec_Data s)" if "look w1 (key SecretKind (sec_meta d)) = Some (KSecret s)" for s
    using that 1(2,4) by (simp add: k_def)
  ultimately obtain w2 s2 where "ReconcileSecret env ow d w1 = (Inr (), w2)"
    "look w2 = (look w1)(k \<mapsto> KSecret s2)" "map_of (sec_Data s2) = map_of (sec_Data d)"
    using step [of w1] 1(2) unfolding k_def by auto
  with 1 show "\<exists>w1 s1 w2 s2. ReconcileSecret env ow d w = (Inr (), w1) \<and> look w1 = (look w)(k \<mapsto> KSecret s1) \<and>
      map_of (sec_Data s1) = (if look w k = None then map_of (sec_Data d) ++ map_of (sec_StringData d) else map_of (sec_Data d)) \<and>
      ReconcileSecret env ow d w1 = (Inr (), w2) \<and> look w2 = (look w)(k \<mapsto> KSecret s2) \<and> map_of (sec_Data s2) = map_of (sec_Data d)"
    by (intro exI [of _ w1] exI [of _ s1] exI [of _ w2] exI [of _ s2]) simp
qed (simp add: ReconcileSecret_def setRef_def run_bindE wrapE_def)

text \<open>C20 for the credentials of a cluster: the first run stores the password, the second removes it.\<close>

theorem ReconcileSecret_outcome_witness:
  "\<exists>w1 s1 w2 s2. ReconcileSecret mem_env (KCluster demo_cluster) (BuildCredentialSecret demo_cluster ''pw'')
      \<lparr>mem_objs = [], mem_events = [], mem_clock = 0\<rparr> = (Inr (), w1) \<and>
     mem_look w1 (SecretKind, ''prod'', ''db-credentials'') = Some (KSecret s1) \<and> map_of (sec_Data s1) ''password'' = Some ''pw'' \<and>
     ReconcileSecret mem_env (KCluster demo_cluster) (BuildCredentialSecret demo_cluster ''pw'') w1 = (Inr (), w2) \<and>
     mem_look w2 (SecretKind, ''prod'', ''db-credentials'') = Some (KSecret s2) \<and> map_of (sec_Data s2) ''password'' = None"
proof -
  let ?d = "BuildCredentialSecret demo_cluster ''pw''"
  let ?w = "\<lparr>mem_objs = [], mem_events = [], mem_clock = 0\<rparr>"
  have "keyed (mem_look ?w)" "mem_look ?w = Map.empty" by (simp_all add: keyed_def mem_look_def)
  moreover have d: "wf_map (sec_Data ?d)" "wf_map (sec_StringData ?d)" "ref_ok (KCluster demo_cluster) (sec_meta ?d)"
    "key SecretKind (sec_meta ?d) = (SecretKind, ''prod'', ''db-credentials'')" "sec_Data ?d = []"
    "map_of (sec_StringData ?d) ''password'' = Some ''pw''" by code_simp+
  ultimately show ?thesis
    using ReconcileSecret_outcome [OF mem.quiet_env_axioms, of ?w ?d "KCluster demo_cluster"] by (fastforce simp: map_add_def)
qed

text \<open>
  C35. What \<open>ReconcileConfigMap\<close> stores. On a server nobody else writes to, for a ConfigMap that can be given its owner, the step
  succeeds and leaves exactly the desired data, except when the stored data differ from them only in that keys with empty
  values were replaced by as many other keys: then the test for a change, which reads absent keys as empty,
  sees none, and the old data stay.
\<close>

theorem ReconcileConfigMap_outcome:
  assumes "quiet_env env look" "keyed (look w)" "ref_ok ow (cm_meta d)" "wf_map (cm_Data d)"
    "\<And>s. look w (key ConfigMapKind (cm_meta d)) = Some (KConfigMap s) \<Longrightarrow> wf_map (cm_Data s)"
  defines "k \<equiv> key ConfigMapKind (cm_meta d)"
  shows "\<exists>w' s. ReconcileConfigMap env ow d w = (Inr (), w') \<and> look w' = (look w)(k \<mapsto> KConfigMap s) \<and>
    (if \<exists>x. look w k = Some (KConfigMap x) \<and> blank_renamed (cm_Data x) (cm_Data d)
     then look w k = Some (KConfigMap s) \<and> map_of (cm_Data s) \<noteq> map_of (cm_Data d)
     else map_of (cm_Data s) = map_of (cm_Data d))"
proof -
  from quiet_env.ReconcileConfigMap_step [OF assms(1-5)] obtain w' s where
    s: "ReconcileConfigMap env ow d w = (Inr (), w')" "look w' = (look w)(k \<mapsto> KConfigMap s)"
    "if \<exists>x. look w k = Some (KConfigMap x) \<and> blank_renamed (cm_Data x) (cm_Data d)
     then look w k = Some (KConfigMap s) else map_of (cm_Data s) = map_of (cm_Data d)"
    unfolding quiet_env.leaves_def [OF assms(1)] k_def by blast
  have "map_of old \<noteq> map_of new" if b: "blank_renamed old new" for old new :: smap
  proof -
    from b obtain k v where "(k, v) \<in> set old" "map_of new k = None" by (auto simp: blank_renamed_def)
    then show ?thesis by (metis map_of_eq_None_iff fst_conv image_eqI)
  qed
  with s show ?thesis by (intro exI [of _ w'] exI [of _ s]) auto
qed

text \<open>C35 for a renamed key, with another key kept, in the in-memory server.\<close>

theorem ReconcileConfigMap_outcome_witness:
  "let s = \<lparr>cm_meta = meta_lit ''c'' ''ns'' [], cm_Data = [(''extra.conf'', []), (''a'', ''1'')]\<rparr>;
       w = \<lparr>mem_objs = [((ConfigMapKind, ''ns'', ''c''), KConfigMap s)], mem_events = [], mem_clock = 0\<rparr> in
   \<exists>w'. ReconcileConfigMap mem_env (KCluster PostgresCluster_zero) (s\<lparr>cm_Data := [(''pg_hba.conf'', ''reject''), (''a'', ''1'')]\<rparr>) w = (Inr (), w') \<and>
     mem_look w' (ConfigMapKind, ''ns'', ''c'') = Some (KConfigMap s)"
proof -
  let ?s = "\<lparr>cm_meta = meta_lit ''c'' ''ns'' [], cm_Data = [(''extra.conf'', []), (''a'', ''1'')]\<rparr>"
  let ?w = "\<lparr>mem_objs = [((ConfigMapKind, ''ns'', ''c''), KConfigMap ?s)], mem_events = [], mem_clock = 0\<rparr>"
  let ?d = "?s\<lparr>cm_Data := [(''pg_hba.conf'', ''reject''), (''a'', ''1'')]\<rparr>"
  have "keyed (mem_look ?w)" by (simp add: keyed_def mem_look_def key_of_def)
  moreover have l: "mem_look ?w (key ConfigMapKind (cm_meta ?d)) = Some (KConfigMap ?s)" by (simp add: mem_look_def key_def)
  moreover have "ref_ok (KCluster PostgresCluster_zero) (cm_meta ?d)" "wf_map (cm_Data ?d)" "wf_map (cm_Data ?s)"
    "key ConfigMapKind (cm_meta ?d) = (ConfigMapKind, ''ns'', ''c'')" by code_simp+
  moreover have "blank_renamed (cm_Data ?s) (cm_Data ?d)" by (simp add: blank_renamed_def)
  ultimately show ?thesis
    using ReconcileConfigMap_outcome [OF mem.quiet_env_axioms, of ?w "KCluster PostgresCluster_zero" ?d] by (auto simp: Let_def)
qed

text \<open>
  C19. The cleanup of volume claims deletes, in order, the claims that are not being deleted already and whose ordinal is not below
  the number of instances, and goes on when a claim is gone; so of the claims of the cluster's pods those of
  pods that still exist are kept.
\<close>

theorem CleanupOrphanedPVCs_exact:
  assumes "0 \<le> n" "is_int64 n" "om_Name (pvc_meta p) = volume @ ''-'' @ PodName c n" "om_DeletionTimestamp (pvc_meta p) = None"
  shows "CleanupOrphanedPVCs u lst del c sel =
      bindE (wrapE ''listing PVCs'' (lst (om_Namespace (pgc_meta c)) sel)) (\<lambda>pvcs. deleteAll u del (filter (orphaned c) pvcs)) \<and>
    (orphaned c p \<longleftrightarrow> n \<ge> pcs_Instances (pgc_Spec c))"
proof -
  have "om_Name (pvc_meta p) = (volume @ ''-'' @ cluster_name c) @ CHR ''-'' # dec n" using assms(3) by (simp add: PodName_def)
  then have "pvcOrdinal (om_Name (pvc_meta p)) (cluster_name c) = n"
    using pvcOrdinal_name [OF assms(1), of "volume @ ''-'' @ cluster_name c"] assms(2) by simp
  moreover have "cleanup_loop u del c = (\<lambda>pvcs. deleteAll u del (filter (orphaned c) pvcs))"
    by (rule ext) (rule cleanup_loop_filter)
  ultimately show ?thesis using assms(4) by (simp only: CleanupOrphanedPVCs_def) (simp add: orphaned_def)
qed

text \<open>C19 for the claim of the fourth pod of a cluster with three instances.\<close>

theorem CleanupOrphanedPVCs_exact_witness:
  "orphaned (PostgresCluster_zero\<lparr>pgc_meta := ObjectMeta_zero\<lparr>om_Name := ''db''\<rparr>, pgc_Spec := (pgc_Spec PostgresCluster_zero)\<lparr>pcs_Instances := 3\<rparr>\<rparr>)
     \<lparr>pvc_meta = ObjectMeta_zero\<lparr>om_Name := ''pgdata-db-3''\<rparr>, pvc_AccessModes = [], pvc_Requests = [], pvc_StorageClassName = None\<rparr>"
proof -
  let ?c = "PostgresCluster_zero\<lparr>pgc_meta := ObjectMeta_zero\<lparr>om_Name := ''db''\<rparr>, pgc_Spec := (pgc_Spec PostgresCluster_zero)\<lparr>pcs_Instances := 3\<rparr>\<rparr>"
  let ?p = "\<lparr>pvc_meta = ObjectMeta_zero\<lparr>om_Name := ''pgdata-db-3''\<rparr>, pvc_AccessModes = [], pvc_Requests = [], pvc_StorageClassName = None\<rparr>"
  have "om_Name (pvc_meta ?p) = ''pgdata'' @ ''-'' @ PodName ?c 3" "is_int64 3" "om_DeletionTimestamp (pvc_meta ?p) = None" by code_simp+
  from CleanupOrphanedPVCs_exact [OF _ this(2,1,3), THEN conjunct2] show ?thesis by simp
qed

end
