(* ===== verification/Statefulset_Builder.thy ===== *)
theory Statefulset_Builder
  imports Postgres_Resources
begin

section \<open>The configurable StatefulSet builder\<close>

text \<open>
  The package \<open>statefulset\<close>: a second builder of a cluster's StatefulSet, with options for the image, extra
  containers and volumes. The lemmas show that the pods of both builders are well formed: every mount names a volume
  that is declared, no two volumes share a name, and the set's selector selects its pods.
\<close>

subsection \<open>Options and parts\<close>

definition sb_DataVolumeName :: string where "sb_DataVolumeName = ''pgdata''"
definition sb_DataMountPath :: string where "sb_DataMountPath = ''/var/lib/postgresql/data''"
definition sb_ConfigVolumeName :: string where "sb_ConfigVolumeName = ''pgconfig''"
definition sb_ConfigMountPath :: string where "sb_ConfigMountPath = ''/etc/postgresql''"
definition ScriptsVolumeName :: string where "ScriptsVolumeName = ''pgscripts''"
definition ScriptsMountPath :: string where "ScriptsMountPath = ''/usr/local/bin/athos''"
definition CertVolumeName :: string where "CertVolumeName = ''pgcerts''"
definition CertMountPath :: string where "CertMountPath = ''/etc/postgresql/tls''"

record Options =
  op_Image :: string
  op_InitContainers :: "Container list"
  op_Sidecars :: "Container list"
  op_ExtraVolumes :: "Volume list"
  op_ExtraVolumeMounts :: "VolumeMount list"
  op_TLSSecretName :: string
  op_ConfigMapName :: string
  op_ScriptsConfigMapName :: string

definition defaultContainerSecurityContext :: SecurityContext where
  "defaultContainerSecurityContext =
     \<lparr>sc_AllowPrivilegeEscalation = Some False, sc_ReadOnlyRootFilesystem = Some False, sc_CapabilitiesDrop = [''ALL'']\<rparr>"

definition defaultPodSecurityContext :: PodSecurityContext where
  "defaultPodSecurityContext =
     \<lparr>psc_RunAsNonRoot = None, psc_RunAsUser = Some 999, psc_RunAsGroup = Some 999, psc_FSGroup = Some 999,
      psc_SeccompProfileType = None\<rparr>"

definition livenessProbe :: Probe where
  "livenessProbe =
     \<lparr>pr_Handler = ExecAction [''pg_isready'', ''-U'', ''postgres''], pr_InitialDelaySeconds = 30, pr_PeriodSeconds = 10,
      pr_TimeoutSeconds = 5, pr_SuccessThreshold = 0, pr_FailureThreshold = 6\<rparr>"

definition readinessProbe :: Probe where
  "readinessProbe =
     \<lparr>pr_Handler = ExecAction [''pg_isready'', ''-U'', ''postgres''], pr_InitialDelaySeconds = 5, pr_PeriodSeconds = 5,
      pr_TimeoutSeconds = 3, pr_SuccessThreshold = 0, pr_FailureThreshold = 3\<rparr>"

definition baseEnv :: "PostgresCluster \<Rightarrow> EnvVar list" where
  "baseEnv cluster = [env_value ''POSTGRES_DB'' (cluster_name cluster), env_value ''PGDATA'' (sb_DataMountPath @ ''/pgdata'')]"

definition buildMounts :: "Options \<Rightarrow> VolumeMount list" where
  "buildMounts opts =
     [\<lparr>vm_Name = sb_DataVolumeName, vm_MountPath = sb_DataMountPath, vm_ReadOnly = False\<rparr>] @
     (if op_ConfigMapName opts \<noteq> []
      then [\<lparr>vm_Name = sb_ConfigVolumeName, vm_MountPath = sb_ConfigMountPath, vm_ReadOnly = False\<rparr>] else []) @
     (if op_ScriptsConfigMapName opts \<noteq> []
      then [\<lparr>vm_Name = ScriptsVolumeName, vm_MountPath = ScriptsMountPath, vm_ReadOnly = False\<rparr>] else []) @
     (if op_TLSSecretName opts \<noteq> []
      then [\<lparr>vm_Name = CertVolumeName, vm_MountPath = CertMountPath, vm_ReadOnly = True\<rparr>] else []) @
     op_ExtraVolumeMounts opts"

definition buildContainers :: "PostgresCluster \<Rightarrow> string \<Rightarrow> Options \<Rightarrow> Container list" where
  "buildContainers cluster img opts =
     [Container_zero\<lparr>
        c_Name := ''postgres'', c_Image := img, c_ImagePullPolicy := ''IfNotPresent'',
        c_Ports := [\<lparr>cp_Name = ''postgres'', cp_ContainerPort = 5432, cp_Protocol = ''TCP''\<rparr>],
        c_VolumeMounts := buildMounts opts,
        c_Resources := pcs_Resources (pgc_Spec cluster),
        c_SecurityContext := Some defaultContainerSecurityContext,
        c_LivenessProbe := Some livenessProbe,
        c_ReadinessProbe := Some readinessProbe,
        c_Env := baseEnv cluster\<rparr>] @
     op_Sidecars opts"

text \<open>The modes 0755 and 0640 of the scripts and the certificates.\<close>

definition buildVolumes :: "Options \<Rightarrow> Volume list" where
  "buildVolumes opts =
     (if op_ConfigMapName opts \<noteq> []
      then [\<lparr>v_Name = sb_ConfigVolumeName, v_Source = ConfigMapVolume (op_ConfigMapName opts) None\<rparr>] else []) @
     (if op_ScriptsConfigMapName opts \<noteq> []
      then [\<lparr>v_Name = ScriptsVolumeName, v_Source = ConfigMapVolume (op_ScriptsConfigMapName opts) (Some 493)\<rparr>] else []) @
     (if op_TLSSecretName opts \<noteq> []
      then [\<lparr>v_Name = CertVolumeName, v_Source = SecretVolume (op_TLSSecretName opts) (Some 416)\<rparr>] else []) @
     op_ExtraVolumes opts"

definition buildPVCs :: "PostgresCluster \<Rightarrow> PersistentVolumeClaim list" where
  "buildPVCs cluster =
     [\<lparr>pvc_meta = meta_lit sb_DataVolumeName [] [], pvc_AccessModes = [''ReadWriteOnce''],
       pvc_Requests = [(''storage'', sto_Size (pcs_Storage (pgc_Spec cluster)))],
       pvc_StorageClassName = sto_StorageClass (pcs_Storage (pgc_Spec cluster))\<rparr>]"

definition buildAffinity :: "PostgresCluster \<Rightarrow> Affinity option" where
  "buildAffinity cluster =
     (case pcs_Affinity (pgc_Spec cluster) of
        Some a \<Rightarrow> Some a
      | None \<Rightarrow>
          if pcs_Instances (pgc_Spec cluster) \<le> 1 then None
          else Some \<lparr>aff_PodAntiAffinity = Some
            \<lparr>paa_Required = [],
             paa_Preferred = [(100, \<lparr>pat_LabelSelector = \<lparr>ls_MatchLabels = SelectorLabels cluster\<rparr>,
               pat_TopologyKey = ''kubernetes.io/hostname''\<rparr>)]\<rparr>\<rparr>)"

definition rollingUpdate :: "string \<times> IntOrString option" where
  "rollingUpdate = (''RollingUpdate'', Some (FromInt 1))"

definition statefulset_Build :: "PostgresCluster \<Rightarrow> Options \<Rightarrow> StatefulSet" where
  "statefulset_Build cluster opts =
     (let img = (if op_Image opts = [] then PostgresImageTag (pcs_PostgresVersion (pgc_Spec cluster)) else op_Image opts) in
      \<lparr>sts_meta = meta_lit (cluster_name cluster) (om_Namespace (pgc_meta cluster)) (CommonLabels cluster),
       sts_Spec =
         \<lparr>ss_Replicas = Some (pcs_Instances (pgc_Spec cluster)),
          ss_ServiceName = HeadlessServiceName cluster,
          ss_PodManagementPolicy = ''OrderedReady'',
          ss_UpdateStrategy = fst rollingUpdate,
          ss_MaxUnavailable = snd rollingUpdate,
          ss_Selector = \<lparr>ls_MatchLabels = SelectorLabels cluster\<rparr>,
          ss_Template =
            \<lparr>pts_meta = meta_lit [] [] (SelectorLabels cluster),
             pts_Spec = PodSpec_zero\<lparr>
               ps_InitContainers := op_InitContainers opts,
               ps_Containers := buildContainers cluster img opts,
               ps_Volumes := buildVolumes opts,
               ps_SecurityContext := Some defaultPodSecurityContext,
               ps_ImagePullSecrets := pcs_ImagePullSecrets (pgc_Spec cluster),
               ps_Affinity := buildAffinity cluster,
               ps_Tolerations := pcs_Tolerations (pgc_Spec cluster)\<rparr>\<rparr>,
          ss_VolumeClaimTemplates = buildPVCs cluster\<rparr>,
       sts_ReadyReplicas = 0\<rparr>)"

definition DefaultStorage :: Quantity where "DefaultStorage = 2 ^ 30"

subsection \<open>Ordinals\<close>

fun ordinal_digits :: "nat list \<Rightarrow> int \<Rightarrow> int" where
  "ordinal_digits [] ordinal = ordinal"
| "ordinal_digits (c # cs) ordinal =
     (if c < 48 \<or> c > 57 then - 1 else ordinal_digits cs (i64 (ordinal * 10 + (int c - 48))))"

text \<open>Only the length of the set's name is used, not the name.\<close>

definition OrdinalFromName :: "string \<Rightarrow> string \<Rightarrow> int" where
  "OrdinalFromName podName stsName =
     (let prefix = stsName @ ''-'' in
      if length podName \<le> length prefix then - 1
      else ordinal_digits (runes (drop (length prefix) podName)) 0)"

subsection \<open>Lemmas\<close>

text \<open>The well-formedness of a set of pods.\<close>

definition volume_names :: "StatefulSet \<Rightarrow> string list" where
  "volume_names s = map v_Name (ps_Volumes (pts_Spec (ss_Template (sts_Spec s)))) @
     map (\<lambda>p. om_Name (pvc_meta p)) (ss_VolumeClaimTemplates (sts_Spec s))"

definition all_mounts :: "PodSpec \<Rightarrow> VolumeMount list" where
  "all_mounts p = concat (map c_VolumeMounts (ps_InitContainers p @ ps_Containers p))"

definition pods_well_formed :: "StatefulSet \<Rightarrow> bool" where
  "pods_well_formed s \<longleftrightarrow>
     distinct (volume_names s) \<and>
     list_all (\<lambda>m. vm_Name m \<in> set (volume_names s)) (all_mounts (pts_Spec (ss_Template (sts_Spec s)))) \<and>
     selects (ls_MatchLabels (ss_Selector (sts_Spec s))) (om_Labels (pts_meta (ss_Template (sts_Spec s))))"

text \<open>What the caller of \<open>Build\<close> has to see to: its own volumes are new and its own containers mount declared ones.\<close>

definition options_ok :: "Options \<Rightarrow> bool" where
  "options_ok opts \<longleftrightarrow>
     (let names = map v_Name (op_ExtraVolumes opts) in
      distinct names \<and> list_all (\<lambda>n. n \<notin> {''pgdata'', ''pgconfig'', ''pgscripts'', ''pgcerts''}) names \<and>
      list_all (\<lambda>m. vm_Name m = ''pgdata'' \<or> vm_Name m \<in> set names)
        (op_ExtraVolumeMounts opts @ concat (map c_VolumeMounts (op_Sidecars opts @ op_InitContainers opts))))"

lemma ordinal_digits_val:
  "list_all is_digit ds \<Longrightarrow> ordinal_digits (map of_char ds) (i64 a) = i64 (a * 10 ^ length ds + int (digits_val ds))"
proof (induction ds arbitrary: a)
  case (Cons d ds)
  have "digits_val (d # ds) = (byte d - 48) * 10 ^ length ds + digits_val ds"
    by (induction ds rule: rev_induct) (simp_all add: digits_val_def algebra_simps)
  moreover have d: "48 \<le> byte d" "byte d \<le> 57" using Cons.prems by (simp_all add: is_digit_def)
  ultimately have v: "int (digits_val (d # ds)) = (int (byte d) - 48) * 10 ^ length ds + int (digits_val ds)"
    by (simp add: of_nat_diff)
  have "i64 (i64 a * 10 + (int (byte d) - 48)) = i64 (a * 10 + (int (byte d) - 48))"
    using i64_add_wrap(1) [of "i64 a * 10"] i64_add_wrap(1) [of "a * 10"] by (metis i64_mult_wrap(1))
  with d have "ordinal_digits (map of_char (d # ds)) (i64 a) = ordinal_digits (map of_char ds) (i64 (a * 10 + (int (byte d) - 48)))"
    by simp
  also have "\<dots> = i64 ((a * 10 + (int (byte d) - 48)) * 10 ^ length ds + int (digits_val ds))"
    using Cons by simp
  also have "\<dots> = i64 (a * 10 ^ length (d # ds) + int (digits_val (d # ds)))" unfolding v by (simp add: algebra_simps)
  finally show ?case .
qed simp

lemma OrdinalFromName_digits:
  assumes "list_all is_digit ds" "ds \<noteq> []" "length p = length n"
  shows "OrdinalFromName (p @ CHR ''-'' # ds) n = i64 (int (digits_val ds))"
proof -
  have "runes ds = map of_char ds" using assms(1) by (intro runes_ascii) (auto simp: list_all_iff is_digit_def)
  then show ?thesis
    using assms ordinal_digits_val [OF assms(1), of 0] by (cases ds) (simp_all add: OrdinalFromName_def i64_def)
qed

subsection \<open>Properties\<close>

text \<open>
  C18. Both builders make well-formed pods: the volumes have different names, every mount of every container names one of
  them, and the set's selector selects its own pods. For the set of the operator this holds of every
  cluster; for the configurable builder whenever the caller's extra volumes and mounts fit together.
\<close>

theorem statefulsets_well_formed:
  assumes "options_ok opts"
  shows "pods_well_formed (BuildStatefulSet c) \<and> pods_well_formed (statefulset_Build c opts)"
proof
  have "selects (SelectorLabels c) (MergeLabels (CommonLabels c) [(LabelRole, RolePrimary)])"
    by (simp add: selects_def SelectorLabels_def CommonLabels_def MergeLabels_def)
  then show "pods_well_formed (BuildStatefulSet c)"
    by (auto simp: pods_well_formed_def all_mounts_def volume_names_def BuildStatefulSet_def clusterPodSpec_def clusterPVC_def
        clusterContainers_def pgContainer_def metricsContainer_def PodSpec_zero_def Container_zero_def
        DataVolumeName_def ConfigVolumeName_def split: option.splits)
next
  let ?s = "statefulset_Build c opts"
  note d = assms [unfolded options_ok_def Let_def]
  have names: "volume_names ?s = map v_Name (buildVolumes opts) @ [''pgdata'']"
    by (simp add: volume_names_def statefulset_Build_def Let_def buildPVCs_def sb_DataVolumeName_def)
  have mounts: "all_mounts (pts_Spec (ss_Template (sts_Spec ?s))) =
      concat (map c_VolumeMounts (op_InitContainers opts)) @ buildMounts opts @ concat (map c_VolumeMounts (op_Sidecars opts))"
    by (simp add: all_mounts_def statefulset_Build_def Let_def buildContainers_def)
  have "distinct (volume_names ?s)"
    using d by (auto simp: names buildVolumes_def sb_ConfigVolumeName_def ScriptsVolumeName_def CertVolumeName_def list_all_iff)
  moreover have "vm_Name m \<in> set (volume_names ?s)" if "m \<in> set (buildMounts opts)" for m
    using that d by (auto simp: names buildMounts_def buildVolumes_def sb_DataVolumeName_def list_all_iff split: if_splits)
  moreover have "vm_Name m \<in> set (volume_names ?s)"
    if "m \<in> set (concat (map c_VolumeMounts (op_InitContainers opts))) \<union> set (concat (map c_VolumeMounts (op_Sidecars opts)))" for m
    using that d by (auto simp: names buildVolumes_def list_all_iff)
  moreover have "selects (ls_MatchLabels (ss_Selector (sts_Spec ?s))) (om_Labels (pts_meta (ss_Template (sts_Spec ?s))))"
    by (simp add: selects_def SelectorLabels_def statefulset_Build_def Let_def)
  ultimately show "pods_well_formed ?s" unfolding pods_well_formed_def mounts by (simp add: list_all_iff) blast
qed

text \<open>C18 for options with a certificate and one scratch volume.\<close>

theorem statefulsets_well_formed_witness:
  "pods_well_formed (statefulset_Build PostgresCluster_zero
     \<lparr>op_Image = [], op_InitContainers = [], op_Sidecars = [], op_ExtraVolumes = [\<lparr>v_Name = ''tmp'', v_Source = EmptyDirVolume\<rparr>],
      op_ExtraVolumeMounts = [\<lparr>vm_Name = ''tmp'', vm_MountPath = ''/tmp'', vm_ReadOnly = False\<rparr>], op_TLSSecretName = ''tls'',
      op_ConfigMapName = [], op_ScriptsConfigMapName = []\<rparr>)"
proof -
  let ?o = "\<lparr>op_Image = [], op_InitContainers = [], op_Sidecars = [], op_ExtraVolumes = [\<lparr>v_Name = ''tmp'', v_Source = EmptyDirVolume\<rparr>],
      op_ExtraVolumeMounts = [\<lparr>vm_Name = ''tmp'', vm_MountPath = ''/tmp'', vm_ReadOnly = False\<rparr>], op_TLSSecretName = ''tls'',
      op_ConfigMapName = [], op_ScriptsConfigMapName = []\<rparr>"
  have "options_ok ?o" by (simp add: options_ok_def)
  from statefulsets_well_formed [OF this] show ?thesis by simp
qed

end
