(* ===== verification/Connstr.thy ===== *)
theory Connstr
  imports Kube_Types
begin

section \<open>Connection strings\<close>

text \<open>
  The package \<open>store\<close>: connection parameters, their keyword/value form (DSN), the parser of that form, and the URI form with
  the escaping rules of \<open>net/url\<close> it relies on. Parameters beyond the standard ones are a Go map; a DSN lists the
  keys in order, so it does not depend on the map's iteration order.
\<close>

subsection \<open>Parameters\<close>

definition defaultPort :: int where "defaultPort = 5432"
definition defaultSSLMode :: string where "defaultSSLMode = ''require''"
definition defaultUser :: string where "defaultUser = ''postgres''"
definition defaultDatabase :: string where "defaultDatabase = ''postgres''"

record ConnParams =
  cn_Host :: string
  cn_Port :: int
  cn_User :: string
  cn_Password :: string
  cn_Database :: string
  cn_SSLMode :: string
  cn_Extra :: smap

definition DefaultConnParams :: "string \<Rightarrow> ConnParams" where
  "DefaultConnParams host =
     \<lparr>cn_Host = host, cn_Port = defaultPort, cn_User = defaultUser, cn_Password = [], cn_Database = defaultDatabase,
      cn_SSLMode = defaultSSLMode, cn_Extra = []\<rparr>"

definition WithDatabase :: "ConnParams \<Rightarrow> string \<Rightarrow> ConnParams" where
  "WithDatabase c db = c\<lparr>cn_Database := db\<rparr>"

definition WithUser :: "ConnParams \<Rightarrow> string \<Rightarrow> string \<Rightarrow> ConnParams" where
  "WithUser c u p = c\<lparr>cn_User := u, cn_Password := p\<rparr>"

definition WithSSLMode :: "ConnParams \<Rightarrow> string \<Rightarrow> ConnParams" where
  "WithSSLMode c mode = c\<lparr>cn_SSLMode := mode\<rparr>"

definition WithExtra :: "ConnParams \<Rightarrow> string \<Rightarrow> string \<Rightarrow> ConnParams" where
  "WithExtra c k v = c\<lparr>cn_Extra := mapset (range_set [] (cn_Extra c)) k v\<rparr>"

definition conn_port :: "ConnParams \<Rightarrow> int" where
  "conn_port c = (if cn_Port c = 0 then defaultPort else cn_Port c)"

definition conn_user :: "ConnParams \<Rightarrow> string" where
  "conn_user c = (if cn_User c = [] then defaultUser else cn_User c)"

definition conn_database :: "ConnParams \<Rightarrow> string" where
  "conn_database c = (if cn_Database c = [] then defaultDatabase else cn_Database c)"

definition conn_sslMode :: "ConnParams \<Rightarrow> string" where
  "conn_sslMode c = (if cn_SSLMode c = [] then defaultSSLMode else cn_SSLMode c)"

subsection \<open>The keyword/value form\<close>

definition baseKV :: "ConnParams \<Rightarrow> smap" where
  "baseKV c =
     (let kv = [(''host'', cn_Host c), (''port'', dec (conn_port c)), (''user'', conn_user c),
                (''dbname'', conn_database c), (''sslmode'', conn_sslMode c)];
          kv = (if cn_Password c \<noteq> [] then mapset kv ''password'' (cn_Password c) else kv)
      in range_set kv (cn_Extra c))"

definition kv_value :: "string \<Rightarrow> string" where
  "kv_value v =
     (if ContainsAny v [CHR '' '', CHR 0x27, CHR 0x5C]
      then [CHR 0x27] @ ReplaceAll v (CHR 0x27) [CHR 0x5C, CHR 0x27] @ [CHR 0x27] else v)"

definition kvString :: "smap \<Rightarrow> string" where
  "kvString kv = Join (map (\<lambda>k. k @ ''='' @ kv_value (mapidx kv k)) (sort (keys kv))) '' ''"

definition DSN :: "ConnParams \<Rightarrow> string" where
  "DSN c = kvString (baseKV c)"

definition ReplicationDSN :: "string \<Rightarrow> int \<Rightarrow> string \<Rightarrow> string \<Rightarrow> string" where
  "ReplicationDSN host port u p =
     DSN \<lparr>cn_Host = host, cn_Port = port, cn_User = u, cn_Password = p, cn_Database = ''replication'',
          cn_SSLMode = defaultSSLMode, cn_Extra = []\<rparr>"

definition SuperuserDSN :: "string \<Rightarrow> int \<Rightarrow> string \<Rightarrow> string" where
  "SuperuserDSN host port p = DSN ((DefaultConnParams host)\<lparr>cn_Port := port, cn_Password := p\<rparr>)"

subsection \<open>Parsing it\<close>

datatype dsn_error = MissingEquals string | UnterminatedQuote string | InvalidPort string

definition dsn_space :: "char \<Rightarrow> bool" where
  "dsn_space c \<longleftrightarrow> c \<in> set [CHR '' '', CHR 0x09, CHR 0x0A, CHR 0x0D]"

text \<open>The value at the front of \<open>s\<close> and what follows it.\<close>

definition token_value :: "string \<Rightarrow> string \<Rightarrow> dsn_error + string \<times> string" where
  "token_value k s =
     (if prefix [CHR 0x27] s then
        (case IndexByte (tl s) (CHR 0x27) of
           None \<Rightarrow> Inl (UnterminatedQuote k)
         | Some e \<Rightarrow> Inr (take e (tl s), drop (e + 2) s))
      else Inr (takeWhile (\<lambda>c. \<not> dsn_space c) s, dropWhile (\<lambda>c. \<not> dsn_space c) s))"

lemma token_value_shorter: "token_value k s = Inr (v, r) \<Longrightarrow> length r \<le> length s"
  by (auto simp: token_value_def length_dropWhile_le split: if_splits option.splits)

function tokenize_loop :: "string \<Rightarrow> smap \<Rightarrow> dsn_error + smap" where
  "tokenize_loop s result =
     (if s = [] then Inr result
      else let s1 = dropWhile dsn_space s in
        if s1 = [] then Inr result
        else (case IndexByte s1 (CHR ''='') of
                None \<Rightarrow> Inl (MissingEquals s1)
              | Some eq \<Rightarrow>
                  (case token_value (TrimSpace (take eq s1)) (drop (Suc eq) s1) of
                     Inl e \<Rightarrow> Inl e
                   | Inr (v, rest) \<Rightarrow> tokenize_loop rest (mapset result (TrimSpace (take eq s1)) v))))"
  by pat_completeness auto
termination
proof (relation "measure (\<lambda>(s, r). length s)")
  fix s :: string and result s1 eq p v rest
  assume "s \<noteq> []" "s1 = dropWhile dsn_space s" "IndexByte s1 (CHR ''='') = Some eq"
    "token_value (TrimSpace (take eq s1)) (drop (Suc eq) s1) = Inr p" "(v, rest) = p"
  then have "length rest \<le> length s1 - Suc eq" "eq < length s1" "length s1 \<le> length s"
    using token_value_shorter [of "TrimSpace (take eq s1)" "drop (Suc eq) s1" v rest]
      IndexByte_SomeD [of s1] length_dropWhile_le [of dsn_space s] by auto
  then show "((rest, mapset result (TrimSpace (take eq s1)) v), s, result) \<in> measure (\<lambda>(s, r). length s)" by simp
qed simp

declare tokenize_loop.simps [simp del]

definition tokenizeDSN :: "string \<Rightarrow> dsn_error + smap" where
  "tokenizeDSN dsn = tokenize_loop (TrimSpace dsn) []"

text \<open>
  \<open>fmt.Sscanf(v, "%d", ...)\<close>: leading white space without a newline, an optional sign, at least one digit; what follows
  is not looked at.
\<close>

function scan_skip :: "string \<Rightarrow> string option" where
  "scan_skip s =
     (if s = [] then Some []
      else if hd s = CHR 0x0A then None
      else if space_len s = 0 then Some s
      else scan_skip (drop (space_len s) s))"
  by pat_completeness auto
termination by (relation "measure length") auto

declare scan_skip.simps [simp del]

definition Sscanf_d :: "string \<Rightarrow> int option" where
  "Sscanf_d v =
     (case scan_skip v of
        None \<Rightarrow> None
      | Some s \<Rightarrow>
          (let sign = takeWhile (\<lambda>c. c \<in> set ''+-'') (take 1 s); digits = takeWhile is_digit (drop (length sign) s) in
           Atoi (sign @ digits)))"

definition set_field :: "string \<Rightarrow> string \<Rightarrow> ConnParams \<Rightarrow> dsn_error + ConnParams" where
  "set_field k v p =
     (if k = ''host'' then Inr (p\<lparr>cn_Host := v\<rparr>)
      else if k = ''port'' then (case Sscanf_d v of None \<Rightarrow> Inl (InvalidPort v) | Some n \<Rightarrow> Inr (p\<lparr>cn_Port := n\<rparr>))
      else if k = ''user'' then Inr (p\<lparr>cn_User := v\<rparr>)
      else if k = ''password'' then Inr (p\<lparr>cn_Password := v\<rparr>)
      else if k = ''dbname'' then Inr (p\<lparr>cn_Database := v\<rparr>)
      else if k = ''sslmode'' then Inr (p\<lparr>cn_SSLMode := v\<rparr>)
      else Inr (p\<lparr>cn_Extra := mapset (cn_Extra p) k v\<rparr>))"

fun set_fields :: "smap \<Rightarrow> ConnParams \<Rightarrow> dsn_error + ConnParams" where
  "set_fields [] p = Inr p"
| "set_fields ((k, v) # kvs) p = (case set_field k v p of Inl e \<Rightarrow> Inl e | Inr p' \<Rightarrow> set_fields kvs p')"

definition ConnParams_zero :: ConnParams where
  "ConnParams_zero = \<lparr>cn_Host = [], cn_Port = 0, cn_User = [], cn_Password = [], cn_Database = [], cn_SSLMode = [], cn_Extra = []\<rparr>"

definition ParseDSN :: "string \<Rightarrow> dsn_error + ConnParams" where
  "ParseDSN dsn = (case tokenizeDSN dsn of Inl e \<Rightarrow> Inl e | Inr tokens \<Rightarrow> set_fields tokens ConnParams_zero)"

subsection \<open>The URI form\<close>

text \<open>The escaping of \<open>net/url\<close>.\<close>

datatype url_mode = EncPathSegment | EncPath | EncUserPassword | EncQuery | EncHost

definition url_alnum :: "char \<Rightarrow> bool" where
  "url_alnum c \<longleftrightarrow> (let b = byte c in 48 \<le> b \<and> b \<le> 57 \<or> 65 \<le> b \<and> b \<le> 90 \<or> 97 \<le> b \<and> b \<le> 122)"

definition shouldEscape :: "url_mode \<Rightarrow> char \<Rightarrow> bool" where
  "shouldEscape mode c =
     (if url_alnum c then False
      else if mode = EncHost \<and> c \<in> set (''!$&()*+,;=:[]<>'' @ [CHR 0x27, CHR 0x22]) then False
      else if c \<in> set ''-_.~'' then False
      else if c \<in> set ''$&+,/:;=?@'' then
        (case mode of
           EncPath \<Rightarrow> c = CHR ''?''
         | EncPathSegment \<Rightarrow> c \<in> set ''/;,?''
         | EncUserPassword \<Rightarrow> c \<in> set ''@/?:''
         | EncQuery \<Rightarrow> True
         | EncHost \<Rightarrow> True)
      else True)"

definition HEX :: "nat \<Rightarrow> char" where
  "HEX n = char_of (if n < 10 then 48 + n else 55 + n)"

definition url_escape :: "url_mode \<Rightarrow> string \<Rightarrow> string" where
  "url_escape mode s = concat (map (\<lambda>c.
     if \<not> shouldEscape mode c then [c]
     else if c = CHR '' '' \<and> mode = EncQuery then ''+''
     else [CHR ''%'', HEX (byte c div 16), HEX (byte c mod 16)]) s)"

definition url_encode :: "smap \<Rightarrow> string" where
  "url_encode q = Join (map (\<lambda>k. url_escape EncQuery k @ ''='' @ url_escape EncQuery (mapidx q k)) (sort (keys q))) ''&''"

definition url_userinfo :: "string \<Rightarrow> string option \<Rightarrow> string" where
  "url_userinfo u p = url_escape EncUserPassword u @ (case p of None \<Rightarrow> [] | Some pw \<Rightarrow> '':'' @ url_escape EncUserPassword pw)"

definition URI_path :: "ConnParams \<Rightarrow> string" where
  "URI_path c = url_escape EncPath (''/'' @ url_escape EncPathSegment (conn_database c))"

definition URI :: "ConnParams \<Rightarrow> string" where
  "URI c =
     (let userinfo = (if cn_Password c \<noteq> [] then url_userinfo (conn_user c) (Some (cn_Password c)) else url_userinfo (conn_user c) None);
          q = range_set (mapset [] ''sslmode'' (conn_sslMode c)) (cn_Extra c)
      in ''postgresql://'' @ userinfo @ ''@'' @ url_escape EncHost (cn_Host c @ '':'' @ dec (conn_port c)) @
         URI_path c @ ''?'' @ url_encode q)"

subsection \<open>Lemmas\<close>

text \<open>
  The values that survive the round trip have no quote and, of white space, only blanks; the keys have no white space and no
  equals sign.
\<close>

definition val_ok :: "string \<Rightarrow> bool" where
  "val_ok v \<longleftrightarrow> list_all (\<lambda>c. byte c < 128 \<and> c \<noteq> CHR 0x27 \<and> (no_space_byte c \<or> c = CHR '' '')) v"

definition key_ok :: "string \<Rightarrow> bool" where
  "key_ok k \<longleftrightarrow> list_all (\<lambda>c. byte c < 128 \<and> c \<noteq> CHR ''='' \<and> no_space_byte c) k"

abbreviation kv_part :: "string \<Rightarrow> string \<Rightarrow> string" where
  "kv_part k v \<equiv> k @ ''='' @ kv_value v"

lemma no_space_not_dsn: "no_space_byte c \<Longrightarrow> \<not> dsn_space c"
  by (auto simp: no_space_byte_def dsn_space_def)

lemma kv_value_quoted: "val_ok v \<Longrightarrow> CHR '' '' \<in> set v \<or> CHR 0x5C \<in> set v \<Longrightarrow> kv_value v = CHR 0x27 # v @ [CHR 0x27]"
proof -
  assume v: "val_ok v" "CHR '' '' \<in> set v \<or> CHR 0x5C \<in> set v"
  then have "CHR 0x27 \<notin> set v" by (auto simp: val_ok_def list_all_iff)
  with v(2) show ?thesis by (auto simp: kv_value_def ContainsAny_def list_ex_iff)
qed

lemma kv_value_plain: "val_ok v \<Longrightarrow> CHR '' '' \<notin> set v \<Longrightarrow> CHR 0x5C \<notin> set v \<Longrightarrow> kv_value v = v"
  by (auto simp: kv_value_def ContainsAny_def list_ex_iff val_ok_def list_all_iff)

lemma token_value_kv:
  assumes "val_ok v" "rest = [] \<or> (\<exists>r. rest = CHR '' '' # r)"
  shows "token_value k (kv_value v @ rest) = Inr (v, rest)"
proof (cases "CHR '' '' \<in> set v \<or> CHR 0x5C \<in> set v")
  case True
  have "CHR 0x27 \<notin> set v" using assms(1) by (auto simp: val_ok_def list_all_iff)
  then have "IndexByte (v @ CHR 0x27 # rest) (CHR 0x27) = Some (length v)" by (rule IndexByte_append)
  then show ?thesis using kv_value_quoted [OF assms(1) True] by (simp add: token_value_def)
next
  case False
  have "\<not> dsn_space c" if "c \<in> set v" for c
    using that assms(1) False no_space_not_dsn by (auto simp: val_ok_def list_all_iff)
  moreover have "\<not> prefix [CHR 0x27] (v @ rest)"
    using assms by (cases v) (auto simp: val_ok_def)
  moreover have "rest = [] \<or> dsn_space (hd rest)" using assms(2) by (auto simp: dsn_space_def)
  ultimately show ?thesis
    using False kv_value_plain [OF assms(1)]
    by (cases rest) (auto simp: token_value_def takeWhile_append2 dropWhile_append2)
qed

lemma tokenize_part:
  assumes "key_ok k" "val_ok v" "rest = [] \<or> (\<exists>r. rest = CHR '' '' # r)"
  shows "tokenize_loop (kv_part k v @ rest) acc = tokenize_loop rest (mapset acc k v)"
proof -
  let ?s = "k @ CHR ''='' # kv_value v @ rest"
  have "\<not> dsn_space (hd ?s)"
    using assms(1) by (cases k) (auto simp: dsn_space_def key_ok_def dest: no_space_not_dsn)
  then have s: "dropWhile dsn_space ?s = ?s" by (cases ?s) auto
  have "CHR ''='' \<notin> set k" using assms(1) by (auto simp: key_ok_def list_all_iff)
  then have i: "IndexByte ?s (CHR ''='') = Some (length k)" by (rule IndexByte_append)
  have "TrimSpace k = k" using assms(1) by (intro TrimSpace_word) (auto simp: key_ok_def list_all_iff)
  then have "tokenize_loop ?s acc = tokenize_loop rest (mapset acc k v)"
    using token_value_kv [OF assms(2,3)] by (simp add: tokenize_loop.simps [of ?s] s i Let_def)
  then show ?thesis by simp
qed

lemma tokenize_blank: "tokenize_loop (CHR '' '' # r) acc = tokenize_loop r acc"
  by (simp add: tokenize_loop.simps [of "CHR '' '' # r"] tokenize_loop.simps [of r] dsn_space_def)

lemma tokenize_parts:
  "\<forall>(k, v) \<in> set kvs. key_ok k \<and> val_ok v \<Longrightarrow>
   tokenize_loop (Join (map (\<lambda>(k, v). kv_part k v) kvs) '' '') acc = Inr (range_set acc kvs)"
proof (induction kvs arbitrary: acc)
  case Nil
  then show ?case by (simp add: tokenize_loop.simps)
next
  case (Cons kv kvs)
  obtain k v where kv: "kv = (k, v)" by (cases kv)
  with Cons.prems have ok: "key_ok k" "val_ok v" by auto
  show ?case
  proof (cases "kvs = []")
    case True
    with tokenize_part [OF ok, of "[]"] show ?thesis by (simp add: kv tokenize_loop.simps)
  next
    case False
    let ?rest = "Join (map (\<lambda>(k, v). kv_part k v) kvs) '' ''"
    from False have "tokenize_loop (Join (map (\<lambda>(k, v). kv_part k v) (kv # kvs)) '' '') acc =
        tokenize_loop (kv_part k v @ CHR '' '' # ?rest) acc" by (simp add: kv Join_Cons)
    also have "\<dots> = tokenize_loop ?rest (mapset acc k v)" using tokenize_part [OF ok] tokenize_blank by metis
    finally show ?thesis using Cons by (simp add: kv)
  qed
qed

text \<open>A text whose first and last bytes are no white space is not trimmed; such texts joined by a blank are one again.\<close>

definition tight :: "string \<Rightarrow> bool" where
  "tight s \<longleftrightarrow> s \<noteq> [] \<and> ascii s \<and> no_space_byte (hd s) \<and> no_space_byte (last s)"

lemma TrimSpace_tight:
  assumes "tight s" shows "TrimSpace s = s"
proof -
  have "space_len s = 0" using assms by (cases s) (auto simp: tight_def)
  moreover have "space_len_last s = 0"
    using assms space_len_last_ascii [of s] by (fastforce simp: tight_def)
  ultimately show ?thesis by (simp add: TrimSpace_def trim_space_left.simps [of s] trim_space_right.simps [of s])
qed

lemma tight_Join: "ps \<noteq> [] \<Longrightarrow> \<forall>p \<in> set ps. tight p \<Longrightarrow> tight (Join ps '' '')"
proof (induction ps)
  case (Cons p ps)
  then show ?case by (cases "ps = []") (auto simp: Join_Cons tight_def)
qed simp

lemma tight_part:
  assumes "key_ok k" "val_ok v" shows "tight (kv_part k v)"
proof -
  have q: "no_space_byte (CHR ''='')" "no_space_byte (CHR 0x27)" by code_simp+
  have k: "ascii k" "\<forall>c \<in> set k. no_space_byte c" and v: "ascii v" using assms by (auto simp: key_ok_def val_ok_def list_all_iff)
  have hd: "no_space_byte (hd (kv_part k v))" using k q by (cases k) auto
  show ?thesis
  proof (cases "CHR '' '' \<in> set v \<or> CHR 0x5C \<in> set v")
    case True
    then show ?thesis using hd k v q kv_value_quoted [OF assms(2) True] by (simp add: tight_def)
  next
    case False
    then have "\<forall>c \<in> set v. no_space_byte c" using assms(2) by (auto simp: val_ok_def list_all_iff)
    then have "no_space_byte (last (kv_part k v))" using q False kv_value_plain [OF assms(2)] by (cases v) auto
    with False hd k v show ?thesis using kv_value_plain [OF assms(2)] by (simp add: tight_def)
  qed
qed

lemma set_mapset: "set (mapset m k v) \<subseteq> insert (k, v) (set m)"
  by (induction m) auto

lemma set_range_set: "set (range_set m src) \<subseteq> set m \<union> set src"
proof (induction m src rule: range_set.induct)
  case (2 out k v src)
  then show ?case using set_mapset [of k v out] by (simp only: range_set.simps list.set) blast
qed simp

lemma dec_val_ok: "val_ok (dec n)"
  by (simp add: val_ok_def list_all_iff dec_bytes)

lemma Sscanf_dec:
  assumes "is_int64 n" shows "Sscanf_d (dec n) = Some n"
proof -
  obtain c cs where d: "dec n = c # cs" by (cases "dec n") simp_all
  then have "no_space_byte c" using dec_bytes [of c n] by simp
  then have skip: "scan_skip (dec n) = Some (dec n)" by (simp add: d scan_skip.simps [of "c # cs"]) (simp add: no_space_byte_def)
  have "is_digit x \<longrightarrow> x \<noteq> CHR ''+'' \<and> x \<noteq> CHR ''-''" for x using is_digit_not_sign by blast
  then have "takeWhile (\<lambda>c. c \<in> set ''+-'') (take 1 (dec n)) @
      takeWhile is_digit (drop (length (takeWhile (\<lambda>c. c \<in> set ''+-'') (take 1 (dec n)))) (dec n)) = dec n"
    using hd_dec_nat_digit [of "nat n"] dec_nat_digits [of "nat n"] dec_nat_digits [of "nat (- n)"]
    by (cases "dec_nat (nat n)") (auto simp: dec_def list_all_iff takeWhile_eq_all_conv)
  then show ?thesis using skip Atoi_dec [OF assms] by (simp add: Sscanf_d_def Let_def)
qed

definition std_keys :: "string list" where
  "std_keys = [''host'', ''port'', ''user'', ''password'', ''dbname'', ''sslmode'']"

definition lookup_or :: "smap \<Rightarrow> string \<Rightarrow> string \<Rightarrow> string" where
  "lookup_or m k v0 = (case map_of m k of None \<Rightarrow> v0 | Some v \<Rightarrow> v)"

lemma lookup_or_Cons: "lookup_or ((k, v) # m) k' v0 = (if k = k' then v else lookup_or m k' v0)"
  by (simp add: lookup_or_def)

lemma lookup_or_absent: "k \<notin> set (keys m) \<Longrightarrow> lookup_or m k v0 = v0"
  by (simp add: lookup_or_def map_of_eq_None_iff [THEN iffD2])

lemma lookup_or_step:
  "k \<notin> set (keys m) \<Longrightarrow> lookup_or m k' (if k = k' then v else v0) = lookup_or ((k, v) # m) k' v0"
  using lookup_or_absent [of k' m v] by (cases "k = k'") (simp_all add: lookup_or_Cons)

lemma set_field_ok:
  assumes "k = ''port'' \<Longrightarrow> Sscanf_d v = Some n"
  obtains p1 where "set_field k v p = Inr p1"
      "cn_Host p1 = (if k = ''host'' then v else cn_Host p)" "cn_Port p1 = (if k = ''port'' then n else cn_Port p)"
      "cn_User p1 = (if k = ''user'' then v else cn_User p)" "cn_Password p1 = (if k = ''password'' then v else cn_Password p)"
      "cn_Database p1 = (if k = ''dbname'' then v else cn_Database p)" "cn_SSLMode p1 = (if k = ''sslmode'' then v else cn_SSLMode p)"
      "map_of (cn_Extra p1) = (if k \<in> set std_keys then map_of (cn_Extra p) else (map_of (cn_Extra p))(k \<mapsto> v))"
proof (cases "k \<in> set std_keys")
  case False
  then show thesis by (intro that [of "p\<lparr>cn_Extra := mapset (cn_Extra p) k v\<rparr>"]) (simp_all add: set_field_def std_keys_def)
next
  case True
  then have "k = ''host'' \<or> k = ''port'' \<or> k = ''user'' \<or> k = ''password'' \<or> k = ''dbname'' \<or> k = ''sslmode''"
    by (simp add: std_keys_def)
  then consider "k = ''host''" | "k = ''port''" | "k = ''user''" | "k = ''password''" | "k = ''dbname''" | "k = ''sslmode''"
    by (elim disjE)
  then show thesis
  proof cases
    case 1
    then show thesis by (intro that [of "p\<lparr>cn_Host := v\<rparr>"]) (simp_all add: set_field_def std_keys_def)
  next
    case 2
    then show thesis by (intro that [of "p\<lparr>cn_Port := n\<rparr>"]) (simp_all add: set_field_def std_keys_def assms)
  next
    case 3
    then show thesis by (intro that [of "p\<lparr>cn_User := v\<rparr>"]) (simp_all add: set_field_def std_keys_def)
  next
    case 4
    then show thesis by (intro that [of "p\<lparr>cn_Password := v\<rparr>"]) (simp_all add: set_field_def std_keys_def)
  next
    case 5
    then show thesis by (intro that [of "p\<lparr>cn_Database := v\<rparr>"]) (simp_all add: set_field_def std_keys_def)
  next
    case 6
    then show thesis by (intro that [of "p\<lparr>cn_SSLMode := v\<rparr>"]) (simp_all add: set_field_def std_keys_def)
  qed
qed

text \<open>Reading the tokens in any order gives each field the value of its key.\<close>

lemma set_fields_lookup:
  assumes "wf_map toks" "\<And>v. map_of toks ''port'' = Some v \<Longrightarrow> Sscanf_d v = Some n"
  shows "\<exists>p'. set_fields toks p = Inr p' \<and> cn_Host p' = lookup_or toks ''host'' (cn_Host p) \<and>
    cn_Port p' = (if map_of toks ''port'' = None then cn_Port p else n) \<and>
    cn_User p' = lookup_or toks ''user'' (cn_User p) \<and> cn_Password p' = lookup_or toks ''password'' (cn_Password p) \<and>
    cn_Database p' = lookup_or toks ''dbname'' (cn_Database p) \<and> cn_SSLMode p' = lookup_or toks ''sslmode'' (cn_SSLMode p) \<and>
    map_of (cn_Extra p') = map_of (cn_Extra p) ++ (map_of toks |` (- set std_keys))"
  using assms
proof (induction toks arbitrary: p)
  case Nil
  then show ?case by (simp add: lookup_or_def restrict_map_def map_add_def)
next
  case (Cons kv toks)
  obtain k v where kv: "kv = (k, v)" by (cases kv)
  have fresh: "k \<notin> set (keys toks)" and wf: "wf_map toks" using Cons.prems(1) kv by auto
  have none: "map_of toks k = None" using fresh by (simp add: map_of_eq_None_iff)
  obtain p1 where p1: "set_field k v p = Inr p1" and f:
      "cn_Host p1 = (if k = ''host'' then v else cn_Host p)" "cn_Port p1 = (if k = ''port'' then n else cn_Port p)"
      "cn_User p1 = (if k = ''user'' then v else cn_User p)" "cn_Password p1 = (if k = ''password'' then v else cn_Password p)"
      "cn_Database p1 = (if k = ''dbname'' then v else cn_Database p)" "cn_SSLMode p1 = (if k = ''sslmode'' then v else cn_SSLMode p)"
      "map_of (cn_Extra p1) = (if k \<in> set std_keys then map_of (cn_Extra p) else (map_of (cn_Extra p))(k \<mapsto> v))"
    using set_field_ok [of k v n p] Cons.prems(2) [of v] by (auto simp: kv)
  have "map_of toks ''port'' = Some v' \<Longrightarrow> Sscanf_d v' = Some n" for v'
    using Cons.prems(2) [of v'] none by (cases "k = ''port''") (simp_all add: kv)
  from Cons.IH [OF wf this, of p1] obtain p' where p': "set_fields toks p1 = Inr p'"
    "cn_Host p' = lookup_or toks ''host'' (cn_Host p1)" "cn_Port p' = (if map_of toks ''port'' = None then cn_Port p1 else n)"
    "cn_User p' = lookup_or toks ''user'' (cn_User p1)" "cn_Password p' = lookup_or toks ''password'' (cn_Password p1)"
    "cn_Database p' = lookup_or toks ''dbname'' (cn_Database p1)" "cn_SSLMode p' = lookup_or toks ''sslmode'' (cn_SSLMode p1)"
    "map_of (cn_Extra p') = map_of (cn_Extra p1) ++ (map_of toks |` (- set std_keys))" by auto
  have "map_of (cn_Extra p') = map_of (cn_Extra p) ++ (map_of (kv # toks) |` (- set std_keys))"
    unfolding p'(8) f(7) kv using none by (auto simp: fun_eq_iff map_add_def restrict_map_def split: option.splits)
  then show ?case
  proof (intro exI [of _ p'] conjI)
    show "cn_Port p' = (if map_of (kv # toks) ''port'' = None then cn_Port p else n)"
      using none by (cases "k = ''port''") (simp_all add: p'(3) f(2) kv)
  qed (simp_all only: kv set_fields.simps p1 sum.case p' f lookup_or_step [OF fresh])
qed

lemma sorted_kvs_map:
  assumes "wf_map kv"
  shows "map_of (range_set [] (map (\<lambda>k. (k, mapidx kv k)) (sort (keys kv)))) = map_of kv"
    "wf_map (range_set [] (map (\<lambda>k. (k, mapidx kv k)) (sort (keys kv))))"
proof -
  let ?kvs = "map (\<lambda>k. (k, mapidx kv k)) (sort (keys kv))"
  have wf: "wf_map ?kvs" using assms by (simp add: comp_def)
  have "map_of ?kvs k = map_of kv k" for k
  proof (cases "map_of kv k")
    case None
    then have "k \<notin> set (keys kv)" by (simp add: map_of_eq_None_iff)
    then have "map_of ?kvs k = None" unfolding map_of_eq_None_iff by (simp add: image_image)
    with None show ?thesis by metis
  next
    case (Some v)
    then have "(k, v) \<in> set ?kvs" by (force simp: mapidx_def dest: map_of_SomeD)
    then show ?thesis using Some wf by simp
  qed
  then show "map_of (range_set [] ?kvs) = map_of kv" using wf by (simp add: range_set_lookup fun_eq_iff)
  show "wf_map (range_set [] ?kvs)" by simp
qed

definition conn_ok :: "ConnParams \<Rightarrow> bool" where
  "conn_ok c \<longleftrightarrow> val_ok (cn_Host c) \<and> val_ok (cn_User c) \<and> val_ok (cn_Password c) \<and> val_ok (cn_Database c) \<and>
     val_ok (cn_SSLMode c) \<and> is_int64 (cn_Port c) \<and> wf_map (cn_Extra c) \<and>
     list_all (\<lambda>(k, v). key_ok k \<and> val_ok v \<and> k \<notin> set std_keys) (cn_Extra c)"

text \<open>The standard part of the key/value map.\<close>

definition stdKV :: "ConnParams \<Rightarrow> smap" where
  "stdKV c = [(''host'', cn_Host c), (''port'', dec (conn_port c)), (''user'', conn_user c),
     (''dbname'', conn_database c), (''sslmode'', conn_sslMode c)] @
     (if cn_Password c \<noteq> [] then [(''password'', cn_Password c)] else [])"

lemma baseKV_std: "baseKV c = range_set (stdKV c) (cn_Extra c)"
  by (simp add: baseKV_def stdKV_def Let_def)

lemma wf_stdKV: "wf_map (stdKV c)"
  by (simp add: stdKV_def)

lemma stdKV_ok:
  assumes "conn_ok c" "(k, v) \<in> set (stdKV c)" shows "key_ok k \<and> val_ok v"
proof -
  have keys: "list_all key_ok std_keys" and defaults: "val_ok defaultUser" "val_ok defaultDatabase" "val_ok defaultSSLMode"
    by code_simp+
  have "k \<in> set std_keys" using assms(2) by (auto simp: stdKV_def std_keys_def split: if_splits)
  with keys have "key_ok k" by (simp add: list_all_iff)
  moreover have "v \<in> {cn_Host c, dec (conn_port c), conn_user c, conn_database c, conn_sslMode c, cn_Password c}"
    using assms(2) by (auto simp: stdKV_def split: if_splits)
  then have "val_ok v"
    using assms(1) defaults dec_val_ok by (auto simp: conn_ok_def conn_user_def conn_database_def conn_sslMode_def)
  ultimately show ?thesis by simp
qed

lemma baseKV_ok:
  assumes "conn_ok c" "(k, v) \<in> set (baseKV c)" shows "key_ok k \<and> val_ok v"
  using assms(2) set_range_set [of "stdKV c" "cn_Extra c"] stdKV_ok [OF assms(1)] assms(1)
  by (fastforce simp: baseKV_std conn_ok_def list_all_iff)

lemma baseKV_lookup: "conn_ok c \<Longrightarrow> map_of (baseKV c) = map_of (stdKV c) ++ map_of (cn_Extra c)"
  by (simp add: baseKV_std range_set_lookup conn_ok_def)

lemma DSN_parts:
  "DSN c = Join (map (\<lambda>(k, v). kv_part k v) (map (\<lambda>k. (k, mapidx (baseKV c) k)) (sort (keys (baseKV c))))) '' ''"
  by (simp add: DSN_def kvString_def comp_def)

lemma tokenize_DSN:
  assumes "conn_ok c"
  shows "\<exists>toks. tokenizeDSN (DSN c) = Inr toks \<and> wf_map toks \<and> map_of toks = map_of (baseKV c)"
proof -
  let ?kvs = "map (\<lambda>k. (k, mapidx (baseKV c) k)) (sort (keys (baseKV c)))"
  have wf: "wf_map (baseKV c)" using wf_stdKV by (simp add: baseKV_std)
  have ok: "\<forall>(k, v) \<in> set ?kvs. key_ok k \<and> val_ok v"
    using baseKV_ok [OF assms] wf by (fastforce simp: mapidx_def)
  have "''host'' \<in> fst ` set (baseKV c)" by (simp add: baseKV_std stdKV_def)
  then have "?kvs \<noteq> []" by (cases "baseKV c") (simp_all add: sort_key_def insort_not_Nil)
  then have "tight (DSN c)" unfolding DSN_parts using ok tight_part by (intro tight_Join) auto
  then have "tokenizeDSN (DSN c) = Inr (range_set [] ?kvs)"
    using tokenize_parts [OF ok, of "[]"] by (simp add: tokenizeDSN_def TrimSpace_tight DSN_parts del: map_map)
  with sorted_kvs_map [OF wf] show ?thesis by blast
qed

subsection \<open>Properties\<close>

text \<open>
  C12. A DSN reads back as the parameters it was written from: when no value has a quote or white space other than blanks, and
  the extra keys are words other than the standard ones, parsing the text gives the same host, user, database, mode and
  password (with the defaults filled in), the same port and the same extra parameters.
\<close>

theorem DSN_round_trip:
  assumes "conn_ok c"
  shows "\<exists>p. ParseDSN (DSN c) = Inr p \<and> cn_Host p = cn_Host c \<and> cn_Port p = conn_port c \<and> cn_User p = conn_user c \<and>
    cn_Password p = cn_Password c \<and> cn_Database p = conn_database c \<and> cn_SSLMode p = conn_sslMode c \<and>
    map_of (cn_Extra p) = map_of (cn_Extra c)"
proof -
  obtain toks where t: "tokenizeDSN (DSN c) = Inr toks" "wf_map toks" "map_of toks = map_of (baseKV c)"
    using tokenize_DSN [OF assms] by blast
  have std: "k \<in> set std_keys \<Longrightarrow> map_of (cn_Extra c) k = None" for k
    using assms by (fastforce simp: conn_ok_def list_all_iff map_of_eq_None_iff)
  have look: "map_of toks k = map_of (stdKV c) k" if "k \<in> set std_keys" for k
    using std [OF that] by (simp add: t(3) baseKV_lookup [OF assms] map_add_def)
  have keys: "''host'' \<in> set std_keys" "''port'' \<in> set std_keys" "''user'' \<in> set std_keys" "''password'' \<in> set std_keys"
    "''dbname'' \<in> set std_keys" "''sslmode'' \<in> set std_keys" by code_simp+
  note looks = keys [THEN look]
  have "is_int64 (conn_port c)" using assms by (simp add: conn_ok_def conn_port_def defaultPort_def is_int64_def)
  then have "Sscanf_d v = Some (conn_port c)" if "map_of toks ''port'' = Some v" for v
    using that Sscanf_dec [of "conn_port c"] by (auto simp: looks stdKV_def)
  from set_fields_lookup [OF t(2) this, of ConnParams_zero] obtain p where p: "set_fields toks ConnParams_zero = Inr p"
    "cn_Host p = lookup_or toks ''host'' []" "cn_Port p = (if map_of toks ''port'' = None then 0 else conn_port c)"
    "cn_User p = lookup_or toks ''user'' []" "cn_Password p = lookup_or toks ''password'' []"
    "cn_Database p = lookup_or toks ''dbname'' []" "cn_SSLMode p = lookup_or toks ''sslmode'' []"
    "map_of (cn_Extra p) = map_of toks |` (- set std_keys)"
    by (auto simp: ConnParams_zero_def map_add_def)
  have "map_of (stdKV c) k = None" if "k \<notin> set std_keys" for k
    using that by (auto simp: stdKV_def std_keys_def)
  then have "map_of (cn_Extra p) = map_of (cn_Extra c)"
    unfolding p(8) t(3) baseKV_lookup [OF assms] using std by (auto simp: fun_eq_iff restrict_map_def map_add_def split: option.splits)
  then show ?thesis
    using p t(1) by (intro exI [of _ p]) (simp add: ParseDSN_def lookup_or_def looks, simp add: stdKV_def)
qed

text \<open>C12 for parameters with a blank in the password and an extra parameter.\<close>

theorem DSN_round_trip_witness:
  "\<exists>p. ParseDSN (DSN \<lparr>cn_Host = ''db-primary'', cn_Port = 0, cn_User = [], cn_Password = ''a b'', cn_Database = ''app'', cn_SSLMode = [],
       cn_Extra = [(''connect_timeout'', ''5'')]\<rparr>) = Inr p \<and>
     cn_Password p = ''a b'' \<and> cn_Port p = 5432 \<and> map_of (cn_Extra p) ''connect_timeout'' = Some ''5''"
proof -
  let ?c = "\<lparr>cn_Host = ''db-primary'', cn_Port = 0, cn_User = [], cn_Password = ''a b'', cn_Database = ''app'', cn_SSLMode = [],
       cn_Extra = [(''connect_timeout'', ''5'')]\<rparr>"
  have "conn_ok ?c" by code_simp
  from DSN_round_trip [OF this] show ?thesis by (auto simp: conn_port_def defaultPort_def)
qed

end
