(* ===== verification/Eventbus.thy ===== *)
theory Eventbus
  imports Kube_Types
begin

section \<open>The event bus\<close>

text \<open>
  The package \<open>eventbus\<close>. The methods hold the mutex while they touch the table, so each is one step. A handler is a
  name \<open>'h\<close> (None is the nil function) whose effect is the argument \<open>call\<close> of \<open>Publish\<close>. \<open>Subscribe\<close>
  returns a closure over the topic and an index, which is the pair \<open>closure\<close>. The second half is the contract of a
  bus, where a subscription has an identity, and the runs on which the code keeps it.
\<close>

type_synonym Topic = string

definition TopicClusterReady :: Topic where "TopicClusterReady = ''cluster.ready''"
definition TopicClusterDegraded :: Topic where "TopicClusterDegraded = ''cluster.degraded''"
definition TopicBackupCompleted :: Topic where "TopicBackupCompleted = ''backup.completed''"
definition TopicBackupFailed :: Topic where "TopicBackupFailed = ''backup.failed''"
definition TopicUserReconciled :: Topic where "TopicUserReconciled = ''user.reconciled''"

record Event =
  ev_Topic :: Topic
  ev_Cluster :: string
  ev_Namespace :: string
  ev_Time :: gotime
  ev_Payload :: smap

type_synonym 'h Bus = "(Topic, 'h option list) gomap"
type_synonym closure = "Topic \<times> nat"

definition bus_New :: "'h Bus" where "bus_New = []"

definition Subscribe :: "Topic \<Rightarrow> 'h option \<Rightarrow> 'h Bus \<Rightarrow> 'h Bus \<times> closure" where
  "Subscribe topic handler b =
     (let b' = mapset b topic (mapidx b topic @ [handler]) in (b', (topic, length (mapidx b' topic) - 1)))"

text \<open>The loop of the closure writes the handlers it keeps over the array it reads: \<open>i\<close> is the read position
  and \<open>w\<close> the length of \<open>out\<close>.\<close>

function compact_loop :: "'h option list \<Rightarrow> nat \<Rightarrow> nat \<Rightarrow> 'h option list" where
  "compact_loop arr i w =
     (if i < length arr
      then (if arr ! i \<noteq> None then compact_loop (arr[w := arr ! i]) (Suc i) (Suc w) else compact_loop arr (Suc i) w)
      else take w arr)"
  by pat_completeness auto
termination
  by (relation "measure (\<lambda>(arr, i, w). length arr - i)") auto

declare compact_loop.simps [simp del]

definition unsubscribe :: "closure \<Rightarrow> 'h Bus \<Rightarrow> 'h Bus" where
  "unsubscribe c b =
     (let (topic, idx) = c; hs = mapidx b topic in
      if idx \<ge> length hs then b else mapset b topic (compact_loop (hs[idx := None]) 0 0))"

text \<open>Calling a nil handler is a run-time panic, the result None.\<close>

fun deliver :: "('h \<Rightarrow> Event \<Rightarrow> 'w \<Rightarrow> 'w) \<Rightarrow> Event \<Rightarrow> 'h option list \<Rightarrow> 'w \<Rightarrow> 'w option" where
  "deliver call e [] w = Some w"
| "deliver call e (None # hs) w = None"
| "deliver call e (Some h # hs) w = deliver call e hs (call h e w)"

definition Publish :: "('h \<Rightarrow> Event \<Rightarrow> 'w \<Rightarrow> 'w) \<Rightarrow> gotime \<Rightarrow> Event \<Rightarrow> 'h Bus \<Rightarrow> 'w \<Rightarrow> 'w option" where
  "Publish call now e b w =
     deliver call (if ev_Time e = 0 then e\<lparr>ev_Time := now\<rparr> else e) (mapidx b (ev_Topic e)) w"

definition SubscriberCount :: "Topic \<Rightarrow> 'h Bus \<Rightarrow> nat" where
  "SubscriberCount topic b = length (mapidx b topic)"

definition bus_Reset :: "'h Bus \<Rightarrow> 'h Bus" where "bus_Reset b = []"

subsection \<open>Lemmas\<close>

lemma compact_loop_filter:
  "w \<le> i \<Longrightarrow> i \<le> length arr \<Longrightarrow>
   compact_loop arr i w = take w arr @ filter (\<lambda>h. h \<noteq> None) (drop i arr)"
proof (induction arr i w rule: compact_loop.induct)
  case (1 arr i w)
  show ?case
  proof (cases "i < length arr")
    case False
    with "1.prems" show ?thesis by (subst compact_loop.simps) simp
  next
    case True
    then have dr: "drop i arr = arr ! i # drop (Suc i) arr" by (simp add: Cons_nth_drop_Suc)
    show ?thesis
    proof (cases "arr ! i = None")
      case none: True
      with True "1.prems" "1.IH"(2) show ?thesis
        by (simp add: compact_loop.simps [of arr i w] dr)
    next
      case some: False
      from "1.prems" True have "take (Suc w) (arr[w := arr ! i]) = take w arr @ [arr ! i]"
        by (simp add: take_Suc_conv_app_nth)
      moreover from "1.prems" have "drop (Suc i) (arr[w := arr ! i]) = drop (Suc i) arr" by simp
      ultimately show ?thesis
        using some True "1.prems" "1.IH"(1) [OF True some] by (simp add: compact_loop.simps [of arr i w] dr)
    qed
  qed
qed

lemma mapidx_Subscribe [simp]:
  "mapidx (fst (Subscribe t h b)) t' = (if t' = t then mapidx b t @ [h] else mapidx b t')"
  by (simp add: Subscribe_def Let_def)

lemma snd_Subscribe [simp]: "snd (Subscribe t h b) = (t, length (mapidx b t))"
  by (simp add: Subscribe_def Let_def)

lemma mapidx_unsubscribe:
  "mapidx (unsubscribe (t, i) b) t' =
     (if t' = t \<and> i < length (mapidx b t) then filter (\<lambda>h. h \<noteq> None) ((mapidx b t)[i := None]) else mapidx b t')"
  by (simp add: unsubscribe_def Let_def compact_loop_filter)

lemma deliver_Some: "deliver call e (map Some hs) w = Some (fold (\<lambda>h. call h e) hs w)"
  by (induction hs arbitrary: w) simp_all

subsection \<open>Runs\<close>

text \<open>
  A run is a sequence of calls; \<open>Unsub n\<close> calls the function that the \<open>n\<close>-th \<open>Sub\<close> of the run returned. In the contract a
  live subscription is its number with its handler.
\<close>

datatype 'h busop = Sub Topic 'h | Unsub nat | Clear

record 'h run =
  run_bus :: "'h Bus"
  run_closures :: "closure list"

fun exec_op :: "'h busop \<Rightarrow> 'h run \<Rightarrow> 'h run" where
  "exec_op (Sub t h) r =
     (let (b, c) = Subscribe t (Some h) (run_bus r) in \<lparr>run_bus = b, run_closures = run_closures r @ [c]\<rparr>)"
| "exec_op (Unsub n) r = r\<lparr>run_bus := unsubscribe (run_closures r ! n) (run_bus r)\<rparr>"
| "exec_op Clear r = r\<lparr>run_bus := bus_Reset (run_bus r)\<rparr>"

definition exec_ops :: "'h busop list \<Rightarrow> 'h run" where
  "exec_ops ops = fold exec_op ops \<lparr>run_bus = bus_New, run_closures = []\<rparr>"

record 'h spec =
  sp_live :: "(Topic \<times> nat \<times> 'h) list"
  sp_next :: nat

fun spec_op :: "'h busop \<Rightarrow> 'h spec \<Rightarrow> 'h spec" where
  "spec_op (Sub t h) s = \<lparr>sp_live = sp_live s @ [(t, sp_next s, h)], sp_next = Suc (sp_next s)\<rparr>"
| "spec_op (Unsub n) s = s\<lparr>sp_live := filter (\<lambda>(t, k, h). k \<noteq> n) (sp_live s)\<rparr>"
| "spec_op Clear s = s\<lparr>sp_live := []\<rparr>"

definition spec_ops :: "'h busop list \<Rightarrow> 'h spec" where
  "spec_ops ops = fold spec_op ops \<lparr>sp_live = [], sp_next = 0\<rparr>"

definition live_on :: "(Topic \<times> nat \<times> 'h) list \<Rightarrow> Topic \<Rightarrow> (nat \<times> 'h) list" where
  "live_on l t = map snd (filter (\<lambda>x. fst x = t) l)"

text \<open>A run is nested when each unsubscription is of the newest live subscription of its topic.\<close>

definition newest :: "'h spec \<Rightarrow> nat \<Rightarrow> bool" where
  "newest s n \<longleftrightarrow> list_ex (\<lambda>(t, k, h). k = n \<and> fst (last (live_on (sp_live s) t)) = n) (sp_live s)"

fun nested_from :: "'h spec \<Rightarrow> 'h busop list \<Rightarrow> bool" where
  "nested_from s [] = True"
| "nested_from s (Unsub n # ops) \<longleftrightarrow> newest s n \<and> nested_from (spec_op (Unsub n) s) ops"
| "nested_from s (op # ops) = nested_from (spec_op op s) ops"

definition nested :: "'h busop list \<Rightarrow> bool" where
  "nested ops = nested_from \<lparr>sp_live = [], sp_next = 0\<rparr> ops"

subsection \<open>Simulation\<close>

definition sim :: "'h run \<Rightarrow> 'h spec \<Rightarrow> bool" where
  "sim r s \<longleftrightarrow>
     length (run_closures r) = sp_next s \<and>
     distinct (map (\<lambda>x. fst (snd x)) (sp_live s)) \<and>
     (\<forall>x \<in> set (sp_live s). fst (snd x) < sp_next s) \<and>
     (\<forall>t. mapidx (run_bus r) t = map (\<lambda>x. Some (snd x)) (live_on (sp_live s) t)) \<and>
     (\<forall>t j. j < length (live_on (sp_live s) t) \<longrightarrow> run_closures r ! fst (live_on (sp_live s) t ! j) = (t, j))"

lemma simD:
  assumes "sim r s"
  shows sim_length: "length (run_closures r) = sp_next s"
    and sim_distinct: "distinct (map (\<lambda>x. fst (snd x)) (sp_live s))"
    and sim_bound: "\<And>x. x \<in> set (sp_live s) \<Longrightarrow> fst (snd x) < sp_next s"
    and sim_bus: "\<And>t. mapidx (run_bus r) t = map (\<lambda>x. Some (snd x)) (live_on (sp_live s) t)"
    and sim_closure: "\<And>t j. j < length (live_on (sp_live s) t) \<Longrightarrow> run_closures r ! fst (live_on (sp_live s) t ! j) = (t, j)"
  using assms by (auto simp: sim_def)

lemma live_on_simps [simp]:
  "live_on [] t' = []"
  "live_on (l @ [(t, n, h)]) t' = live_on l t' @ (if t' = t then [(n, h)] else [])"
  "live_on (filter (\<lambda>(t, k, h). k \<noteq> n) l) t' = filter (\<lambda>x. fst x \<noteq> n) (live_on l t')"
  by (auto simp: live_on_def filter_map o_def case_prod_beta conj_commute intro!: arg_cong2 [where f = map] filter_cong)

lemma set_live_on: "x \<in> set (live_on l t) \<longleftrightarrow> (t, x) \<in> set l"
  by (force simp: live_on_def)

lemma distinct_live_on:
  "distinct (map (\<lambda>x. fst (snd x)) l) \<Longrightarrow> distinct (map fst (live_on l t))"
  by (auto simp: live_on_def o_def intro: distinct_map_filter)

lemma sim_start: "sim \<lparr>run_bus = bus_New, run_closures = []\<rparr> \<lparr>sp_live = [], sp_next = 0\<rparr>"
  by (simp add: sim_def live_on_def bus_New_def mapidx_def)

lemma sim_Sub:
  assumes "sim r s" shows "sim (exec_op (Sub t h) r) (spec_op (Sub t h) s)"
proof -
  note sim = simD [OF assms]
  have b: "fst (live_on (sp_live s) t' ! j) < sp_next s" if "j < length (live_on (sp_live s) t')" for t' j
    using sim(3) [of "(t', live_on (sp_live s) t' ! j)"] nth_mem [OF that] by (simp add: set_live_on)
  have len: "length (mapidx (run_bus r) t) = length (live_on (sp_live s) t)" by (simp add: sim(4))
  have new: "sp_next s \<notin> (\<lambda>x. fst (snd x)) ` set (sp_live s)" using sim(3) by fastforce
  show ?thesis
    unfolding sim_def
  proof (intro conjI allI ballI impI)
    show "distinct (map (\<lambda>x. fst (snd x)) (sp_live (spec_op (Sub t h) s)))"
      using sim(2) new by simp
    show "fst (snd x) < sp_next (spec_op (Sub t h) s)" if "x \<in> set (sp_live (spec_op (Sub t h) s))" for x
      using that sim(3) [of x] by auto
    show "run_closures (exec_op (Sub t h) r) ! fst (live_on (sp_live (spec_op (Sub t h) s)) t' ! j) = (t', j)"
      if "j < length (live_on (sp_live (spec_op (Sub t h) s)) t')" for t' j
    proof (cases "j < length (live_on (sp_live s) t')")
      case True
      then show ?thesis
        using sim(5) [OF True] b [OF True] sim(1) by (simp add: nth_append case_prod_beta)
    next
      case False
      with that have "t' = t" "j = length (live_on (sp_live s) t)" by (auto split: if_splits)
      then show ?thesis using sim(1) len by (simp add: case_prod_beta nth_append)
    qed
  qed (use sim in \<open>simp_all add: case_prod_beta\<close>)
qed

lemma newestE:
  assumes "newest s n" "distinct (map (\<lambda>x. fst (snd x)) (sp_live s))"
  obtains t xs h where "live_on (sp_live s) t = xs @ [(n, h)]" "\<forall>t'. t' \<noteq> t \<longrightarrow> n \<notin> fst ` set (live_on (sp_live s) t')"
    "n \<notin> fst ` set xs"
proof -
  from assms(1) obtain t h where mem: "(t, n, h) \<in> set (sp_live s)" and last: "fst (last (live_on (sp_live s) t)) = n"
    by (auto simp: newest_def list_ex_iff)
  then have "live_on (sp_live s) t \<noteq> []" using set_live_on [of "(n, h)" "sp_live s" t] by auto
  then have split: "live_on (sp_live s) t = butlast (live_on (sp_live s) t) @ [(n, snd (last (live_on (sp_live s) t)))]"
    using last by (metis append_butlast_last_id prod.collapse)
  have same: "x = (t, n, h)" if "x \<in> set (sp_live s)" "fst (snd x) = n" for x
    using assms(2) mem that by (metis distinct_map fst_conv inj_on_contraD snd_conv)
  have "n \<notin> fst ` set (live_on (sp_live s) t')" if "t' \<noteq> t" for t'
    using that same by (fastforce simp: set_live_on)
  moreover have "n \<notin> fst ` set (butlast (live_on (sp_live s) t))"
    using distinct_live_on [OF assms(2), of t] by (subst (asm) split) simp
  ultimately show thesis using split that by blast
qed

lemma sim_Unsub:
  assumes "sim r s" "newest s n" shows "sim (exec_op (Unsub n) r) (spec_op (Unsub n) s)"
proof -
  note sim = simD [OF assms(1)]
  obtain t xs h where t: "live_on (sp_live s) t = xs @ [(n, h)]" and other: "\<forall>t'. t' \<noteq> t \<longrightarrow> n \<notin> fst ` set (live_on (sp_live s) t')"
    and xs: "n \<notin> fst ` set xs"
    by (rule newestE [OF assms(2) sim(2)])
  have c: "run_closures r ! n = (t, length xs)" using sim(5) [of "length xs" t] t by simp
  have xs': "filter (\<lambda>x. fst x \<noteq> n) xs = xs" using xs by (auto simp: filter_id_conv)
  have same: "filter (\<lambda>x. fst x \<noteq> n) (live_on (sp_live s) t') = live_on (sp_live s) t'" if "t' \<noteq> t" for t'
    using other that by (auto simp: filter_id_conv)
  have live: "live_on (sp_live (spec_op (Unsub n) s)) t' = (if t' = t then xs else live_on (sp_live s) t')" for t'
    using t xs' same by simp
  have bt: "mapidx (run_bus r) t = map (\<lambda>x. Some (snd x)) xs @ [Some h]" using sim(4) [of t] t by simp
  have bus: "mapidx (run_bus (exec_op (Unsub n) r)) t' =
      (if t' = t then map (\<lambda>x. Some (snd x)) xs else mapidx (run_bus r) t')" for t'
    by (simp add: c mapidx_unsubscribe bt filter_map o_def list_update_append)
  show ?thesis
    unfolding sim_def
  proof (intro conjI allI ballI impI)
    show "distinct (map (\<lambda>x. fst (snd x)) (sp_live (spec_op (Unsub n) s)))"
      using sim(2) by (auto intro: distinct_map_filter)
    show "run_closures (exec_op (Unsub n) r) ! fst (live_on (sp_live (spec_op (Unsub n) s)) t' ! j) = (t', j)"
      if "j < length (live_on (sp_live (spec_op (Unsub n) s)) t')" for t' j
      using that sim(5) [of j t'] t unfolding live by (auto simp: nth_append split: if_splits)
    show "mapidx (run_bus (exec_op (Unsub n) r)) t' = map (\<lambda>x. Some (snd x)) (live_on (sp_live (spec_op (Unsub n) s)) t')" for t'
      unfolding live bus using sim(4) by simp
  qed (use sim in auto)
qed

lemma sim_Clear: "sim r s \<Longrightarrow> sim (exec_op Clear r) (spec_op Clear s)"
  by (simp add: sim_def bus_Reset_def mapidx_def live_on_def)

lemma sim_nested: "sim r s \<Longrightarrow> nested_from s ops \<Longrightarrow> sim (fold exec_op ops r) (fold spec_op ops s)"
proof (induction ops arbitrary: r s)
  case (Cons op ops)
  then show ?case
    using sim_Sub [of r s] sim_Unsub [of r s] sim_Clear [of r s] by (cases op) (auto simp del: exec_op.simps spec_op.simps)
qed simp

subsection \<open>Properties\<close>

text \<open>
  C13. The bus implements its contract on every nested run, where subscriptions of one topic end in the reverse of the order they
  began in: the number of subscribers is the number of live subscriptions, and publishing an event calls the handlers of
  exactly the live subscriptions of its topic, in the order they were made, each with the event stamped with a time.
\<close>

theorem bus_refines_contract:
  assumes "nested ops"
  shows "SubscriberCount t (run_bus (exec_ops ops)) = length (live_on (sp_live (spec_ops ops)) t) \<and>
    Publish call now e (run_bus (exec_ops ops)) w =
      Some (fold (\<lambda>h. call h (if ev_Time e = 0 then e\<lparr>ev_Time := now\<rparr> else e))
              (map snd (live_on (sp_live (spec_ops ops)) (ev_Topic e))) w)"
proof -
  have "sim (exec_ops ops) (spec_ops ops)"
    unfolding exec_ops_def spec_ops_def
    by (rule sim_nested [OF sim_start]) (use assms in \<open>simp add: nested_def\<close>)
  then have bus: "mapidx (run_bus (exec_ops ops)) t = map Some (map snd (live_on (sp_live (spec_ops ops)) t))" for t
    by (simp add: sim_bus)
  have "SubscriberCount t (run_bus (exec_ops ops)) = length (live_on (sp_live (spec_ops ops)) t)"
    by (simp add: SubscriberCount_def bus)
  moreover have "Publish call now e (run_bus (exec_ops ops)) w =
      Some (fold (\<lambda>h. call h (if ev_Time e = 0 then e\<lparr>ev_Time := now\<rparr> else e))
              (map snd (live_on (sp_live (spec_ops ops)) (ev_Topic e))) w)"
    unfolding Publish_def bus by (rule deliver_Some)
  ultimately show ?thesis by simp
qed

text \<open>C13 on a run with two topics: after the inner subscription ended, the outer one gets the event.\<close>

theorem bus_refines_contract_witness:
  "Publish (\<lambda>h e w. w @ [(h, ev_Time e)]) 7
     \<lparr>ev_Topic = TopicClusterReady, ev_Cluster = ''db'', ev_Namespace = ''prod'', ev_Time = 0, ev_Payload = []\<rparr>
     (run_bus (exec_ops [Sub TopicClusterReady (1::nat), Sub TopicBackupFailed 2, Sub TopicClusterReady 3, Unsub 2])) [] =
   Some [(1, 7)]"
proof -
  have "nested [Sub TopicClusterReady (1::nat), Sub TopicBackupFailed 2, Sub TopicClusterReady 3, Unsub 2]" by code_simp
  from bus_refines_contract [OF this, of TopicClusterReady "\<lambda>h e w. w @ [(h, ev_Time e)]" 7
      "\<lparr>ev_Topic = TopicClusterReady, ev_Cluster = ''db'', ev_Namespace = ''prod'', ev_Time = 0, ev_Payload = []\<rparr>" "[]"]
  show ?thesis by (simp add: spec_ops_def live_on_def TopicClusterReady_def TopicBackupFailed_def)
qed

text \<open>
  Outside nested runs the index of a closure is stale. Ending the first of three subscriptions and then the second ends the third: the
  second handler is still called and the third is not. Calling one closure twice can end a
  subscription of another caller.
\<close>

lemma bus_stale_index:
  "mapidx (run_bus (exec_ops [Sub t a, Sub t b, Sub t c, Unsub 0, Unsub 1])) t = [Some b]"
  "mapidx (run_bus (exec_ops [Sub t a, Unsub 0, Sub t b, Unsub 0])) t = []"
  by (simp_all add: exec_ops_def bus_New_def case_prod_beta mapidx_unsubscribe)

end
