(* ===== verification/Backoff.thy ===== *)
theory Backoff
  imports Go_Time "HOL-Library.Log_Nat"
begin

section \<open>Retry schedules and keepalive\<close>

text \<open>
  The packages \<open>backoff\<close> and \<open>keepalive\<close>. A finite \<open>float64\<close> is its value, a rational number, and an operation
  rounds its exact result to 53 bits (\<open>rnd\<close>; exponents are not bounded, so subnormal numbers and infinities are
  left out). Go leaves open what the conversion of a float outside the range of \<open>int64\<close> gives: that is the argument
  \<open>ovf\<close>. \<open>Retry\<close> may run forever and is a partial function; the locale \<open>bounded_schedule\<close> is the contract of
  a schedule that ends, and both schedules of the package interpret it.
\<close>

subsection \<open>Floating-point numbers\<close>

definition fexp :: "rat \<Rightarrow> int" where
  "fexp x = (let (p, q) = quotient_of x; e = bitlen \<bar>p\<bar> - bitlen q in
     if 2 powi e \<le> \<bar>x\<bar> then e else e - 1)"

definition round_even :: "rat \<Rightarrow> int" where
  "round_even y = (let f = \<lfloor>y\<rfloor>; d = y - of_int f in
     if d < 1/2 then f else if d > 1/2 then f + 1 else if even f then f else f + 1)"

definition rnd :: "rat \<Rightarrow> rat" where
  "rnd x = (if x = 0 then 0 else let ulp = 2 powi (fexp x - 52) in of_int (round_even (x / ulp)) * ulp)"

definition trunc :: "rat \<Rightarrow> int" where
  "trunc x = (if x < 0 then - \<lfloor>- x\<rfloor> else \<lfloor>x\<rfloor>)"

definition f2i :: "(rat \<Rightarrow> int) \<Rightarrow> rat \<Rightarrow> int" where
  "f2i ovf x = (let n = trunc x in if is_int64 n then n else ovf x)"

subsection \<open>Schedules\<close>

record Exponential =
  ex_Initial :: duration
  ex_Factor :: rat
  ex_Cap :: duration
  ex_MaxRetries :: int
  ex_current :: duration
  ex_count :: int

definition exp_factor :: "Exponential \<Rightarrow> rat" where
  "exp_factor e = (if ex_Factor e \<le> 0 then 2 else ex_Factor e)"

definition exp_Next :: "(rat \<Rightarrow> int) \<Rightarrow> Exponential \<Rightarrow> (duration \<times> bool) \<times> Exponential" where
  "exp_Next ovf e =
     (if ex_MaxRetries e > 0 \<and> ex_count e \<ge> ex_MaxRetries e then ((0, False), e)
      else let current =
          (if ex_current e = 0 then (if ex_Initial e = 0 then Second else ex_Initial e)
           else let next = f2i ovf (rnd (rnd (of_int (ex_current e)) * exp_factor e)) in
             if ex_Cap e > 0 \<and> next > ex_Cap e then ex_Cap e else next) in
        ((current, True), e\<lparr>ex_current := current, ex_count := i64 (ex_count e + 1)\<rparr>))"

definition exp_Reset :: "Exponential \<Rightarrow> Exponential" where
  "exp_Reset e = e\<lparr>ex_current := 0, ex_count := 0\<rparr>"

record Constant =
  co_Delay :: duration
  co_MaxRetries :: int
  co_count :: int

definition const_Next :: "Constant \<Rightarrow> (duration \<times> bool) \<times> Constant" where
  "const_Next c =
     (if co_MaxRetries c > 0 \<and> co_count c \<ge> co_MaxRetries c then ((0, False), c)
      else ((co_Delay c, True), c\<lparr>co_count := i64 (co_count c + 1)\<rparr>))"

definition const_Reset :: "Constant \<Rightarrow> Constant" where
  "const_Reset c = c\<lparr>co_count := 0\<rparr>"

text \<open>The loop of \<open>Retry\<close>: \<open>op\<close> gives None for the nil error, and both \<open>op\<close> and \<open>sleep\<close> change the world.\<close>

partial_function (option) retry_loop ::
  "('s \<Rightarrow> (duration \<times> bool) \<times> 's) \<Rightarrow> (duration \<Rightarrow> 'w \<Rightarrow> 'w) \<Rightarrow> ('w \<Rightarrow> 'e option \<times> 'w) \<Rightarrow> 's \<Rightarrow> 'w
     \<Rightarrow> ('e option \<times> 'w) option" where
  "retry_loop nxt sleep op s w =
     (case op w of
        (None, w') \<Rightarrow> Some (None, w')
      | (Some err, w') \<Rightarrow>
          (case nxt s of ((d, ok), s') \<Rightarrow>
             if \<not> ok then Some (Some err, w') else retry_loop nxt sleep op s' (sleep d w')))"

definition Retry ::
  "('s \<Rightarrow> 's) \<Rightarrow> ('s \<Rightarrow> (duration \<times> bool) \<times> 's) \<Rightarrow> 's option \<Rightarrow> (duration \<Rightarrow> 'w \<Rightarrow> 'w) \<Rightarrow>
     ('w \<Rightarrow> 'e option \<times> 'w) \<Rightarrow> 'w \<Rightarrow> ('e option \<times> 'w) option" where
  "Retry reset nxt sched sleep op w =
     (case sched of None \<Rightarrow> Some (op w) | Some s \<Rightarrow> retry_loop nxt sleep op (reset s) w)"

subsection \<open>Keepalive\<close>

record KeepaliveConfig =
  ka_Idle :: duration
  ka_Interval :: duration
  ka_MaxProbes :: int

definition ka_WithDefaults :: "KeepaliveConfig \<Rightarrow> KeepaliveConfig" where
  "ka_WithDefaults c =
     \<lparr>ka_Idle = (if ka_Idle c = 0 then 30 * Second else ka_Idle c),
      ka_Interval = (if ka_Interval c = 0 then 30 * Second else ka_Interval c),
      ka_MaxProbes = (if ka_MaxProbes c = 0 then 3 else ka_MaxProbes c)\<rparr>"

definition DetectionWindow :: "KeepaliveConfig \<Rightarrow> duration" where
  "DetectionWindow c =
     (let c = ka_WithDefaults c in dadd (ka_Idle c) (dmul (ka_Interval c) (ka_MaxProbes c)))"

definition IsAggressive :: "KeepaliveConfig \<Rightarrow> bool" where
  "IsAggressive c =
     (let c = ka_WithDefaults c in
      if ka_Interval c \<le> 0 then True else gquot Minute (ka_Interval c) > 30)"

lemma div_greater_iff: "0 < (b::int) \<Longrightarrow> k < a div b \<longleftrightarrow> (k + 1) * b \<le> a"
proof
  assume "0 < b" "k < a div b"
  then have "(k + 1) * b \<le> (a div b) * b" by (intro mult_right_mono) auto
  also have "\<dots> \<le> a" using \<open>0 < b\<close> using pos_mod_sign [of b a] div_mult_mod_eq [of a b] by linarith
  finally show "(k + 1) * b \<le> a" .
next
  assume "0 < b" "(k + 1) * b \<le> a"
  then have "(k + 1) * b div b \<le> a div b" by (intro zdiv_mono1) auto
  then show "k < a div b" using \<open>0 < b\<close> by simp
qed

lemma IsAggressive_iff:
  "IsAggressive c \<longleftrightarrow> ka_Interval (ka_WithDefaults c) \<le> Minute div 31"
proof -
  let ?i = "ka_Interval (ka_WithDefaults c)"
  have "gquot Minute ?i > 30 \<longleftrightarrow> ?i \<le> Minute div 31" if "?i > 0"
  proof -
    have "30 < Minute div ?i \<longleftrightarrow> 31 * ?i \<le> Minute"
      using that div_greater_iff [of ?i 30 Minute] by simp
    then show ?thesis using that by (auto simp: gquot_def Minute_def Second_def)
  qed
  then show ?thesis by (auto simp: IsAggressive_def Let_def Minute_def Second_def)
qed

lemma bitlen_1 [simp]: "bitlen 1 = 1"
  by (subst compute_bitlen) simp

lemma bitlen_bounds_int: "0 < (n::int) \<Longrightarrow> 2 ^ nat (bitlen n - 1) \<le> n \<and> n < 2 ^ nat (bitlen n)"
  by (rule bitlen_bounds)

lemma fexp_of_int:
  assumes "0 < n" shows "fexp (of_int n) = bitlen n - 1"
proof -
  have "bitlen n > 0" using assms bitlen_nonneg [of n] bitlen_eq_zero_iff [of n] by linarith
  have "(2::rat) powi (bitlen n - 1) = of_int (2 ^ nat (bitlen n - 1))"
    using \<open>bitlen n > 0\<close> by (simp add: power_int_def)
  also have "\<dots> \<le> of_int n" using bitlen_bounds_int [OF assms] by (simp only: of_int_le_iff)
  finally show ?thesis using assms by (simp add: fexp_def bitlen_1)
qed

lemma round_even_int [simp]: "round_even (of_int n) = n"
  by (simp add: round_even_def)

text \<open>Integers of up to 53 bits are represented exactly.\<close>

lemma rnd_of_int:
  assumes "0 \<le> n" "n \<le> 2 ^ 53" shows "rnd (of_int n) = of_int n"
proof (cases "n = 0 \<or> n = 2 ^ 53")
  case True
  have "bitlen (2 ^ 53) = 54" using bitlen_pow2 [of 1 53] by (simp add: bitlen_1)
  then have "fexp (of_int (2 ^ 53)) = 53" by (subst fexp_of_int) simp_all
  then have "rnd (of_int (2 ^ 53)) = of_int (2 ^ 53)" 
    using round_even_int [of "2 ^ 52"] by (simp add: rnd_def Let_def power_int_def)
  with True show ?thesis by (auto simp: rnd_def)
next
  case False
  with assms have n: "0 < n" "n < 2 ^ 53" by auto
  have b: "bitlen n \<le> 53" using bitlen_le_iff_power [of n 53] n by simp
  have e: "fexp (of_int n) = bitlen n - 1" by (rule fexp_of_int [OF n(1)])
  have u: "(2::rat) powi (fexp (of_int n) - 52) = 1 / 2 ^ nat (53 - bitlen n)"
    using b unfolding e by (simp add: power_int_def field_simps)
  have "of_int n / (1 / (2::rat) ^ nat (53 - bitlen n)) = of_int (n * 2 ^ nat (53 - bitlen n))" by simp
  then have "rnd (of_int n) = of_int (n * 2 ^ nat (53 - bitlen n)) * (1 / 2 ^ nat (53 - bitlen n))"
    using n(1) by (simp only: rnd_def u Let_def round_even_int) simp
  then show ?thesis by simp
qed

subsection \<open>Schedules that end\<close>

text \<open>The delays of the first calls of \<open>Next\<close>, and what retrying with a given list of delays means.\<close>

fun delays :: "('s \<Rightarrow> (duration \<times> bool) \<times> 's) \<Rightarrow> nat \<Rightarrow> 's \<Rightarrow> duration list" where
  "delays nxt 0 s = []"
| "delays nxt (Suc k) s = fst (fst (nxt s)) # delays nxt k (snd (nxt s))"

fun attempts :: "('w \<Rightarrow> 'e option \<times> 'w) \<Rightarrow> (duration \<Rightarrow> 'w \<Rightarrow> 'w) \<Rightarrow> duration list \<Rightarrow> 'w \<Rightarrow> 'e option \<times> 'w" where
  "attempts op sleep [] w = op w"
| "attempts op sleep (d # ds) w =
     (case op w of (None, w') \<Rightarrow> (None, w') | (Some e, w') \<Rightarrow> attempts op sleep ds (sleep d w'))"

locale bounded_schedule =
  fixes nxt :: "'s \<Rightarrow> (duration \<times> bool) \<times> 's"
    and bounded :: "'s \<Rightarrow> bool"
    and left :: "'s \<Rightarrow> nat"
  assumes nxt_ok: "bounded s \<Longrightarrow> snd (fst (nxt s)) \<longleftrightarrow> 0 < left s"
    and nxt_bounded: "bounded s \<Longrightarrow> bounded (snd (nxt s))"
    and nxt_left: "bounded s \<Longrightarrow> left (snd (nxt s)) = left s - 1"
begin

lemma retry_loop_attempts:
  "bounded s \<Longrightarrow> retry_loop nxt sleep op s w = Some (attempts op sleep (delays nxt (left s) s) w)"
proof (induction "left s" arbitrary: s w)
  case 0
  then have "\<not> snd (fst (nxt s))" by (simp add: nxt_ok)
  with "0.hyps" show ?case
    by (subst retry_loop.simps) (auto split: prod.splits option.splits)
next
  case (Suc k)
  then have ok: "snd (fst (nxt s))" and k: "k = left (snd (nxt s))" and b: "bounded (snd (nxt s))"
    using nxt_ok [of s] nxt_left [of s] nxt_bounded [of s] by auto
  have "delays nxt (left s) s = fst (fst (nxt s)) # delays nxt (left (snd (nxt s))) (snd (nxt s))"
    using Suc.hyps(2) k by (metis delays.simps(2))
  then show ?case
    using ok Suc.hyps(1) [OF k b]
    by (subst retry_loop.simps) (auto split: prod.splits option.splits)
qed

end

definition const_bounded :: "Constant \<Rightarrow> bool" where
  "const_bounded c \<longleftrightarrow> 0 < co_MaxRetries c \<and> co_MaxRetries c < 2 ^ 63 \<and> 0 \<le> co_count c"

definition const_left :: "Constant \<Rightarrow> nat" where
  "const_left c = nat (co_MaxRetries c - co_count c)"

interpretation const: bounded_schedule const_Next const_bounded const_left
  by unfold_locales (auto simp: const_Next_def const_bounded_def const_left_def i64_id is_int64_def)

definition exp_bounded :: "Exponential \<Rightarrow> bool" where
  "exp_bounded e \<longleftrightarrow> 0 < ex_MaxRetries e \<and> ex_MaxRetries e < 2 ^ 63 \<and> 0 \<le> ex_count e"

definition exp_left :: "Exponential \<Rightarrow> nat" where
  "exp_left e = nat (ex_MaxRetries e - ex_count e)"

interpretation expo: bounded_schedule "exp_Next ovf" exp_bounded exp_left for ovf
  by unfold_locales (auto simp: exp_Next_def exp_bounded_def exp_left_def Let_def i64_id is_int64_def)

lemma const_delays: "const_bounded c \<Longrightarrow> k \<le> const_left c \<Longrightarrow> delays const_Next k c = replicate k (co_Delay c)"
proof (induction k arbitrary: c)
  case (Suc k)
  then have "co_count c < co_MaxRetries c" by (simp add: const_left_def)
  then have "fst (fst (const_Next c)) = co_Delay c" "co_Delay (snd (const_Next c)) = co_Delay c"
    by (simp_all add: const_Next_def)
  with Suc show ?case by (simp add: const.nxt_bounded const.nxt_left)
qed simp

lemma trunc_of_int: "trunc (of_int n) = n"
  by (simp add: trunc_def flip: of_int_minus)

lemma f2i_double:
  assumes "0 < c" "c \<le> 2 ^ 52" shows "f2i ovf (rnd (rnd (of_int c) * 2)) = 2 * c"
proof -
  have "rnd (of_int c) * 2 = of_int (2 * c)" using assms by (simp add: rnd_of_int)
  moreover have "rnd (of_int (2 * c)) = of_int (2 * c)" using assms by (intro rnd_of_int) auto
  ultimately have "f2i ovf (rnd (rnd (of_int c) * 2)) = f2i ovf (of_int (2 * c))" by (simp only:)
  also have "trunc (of_int (2 * c)) = 2 * c" by (rule trunc_of_int)
  then have "f2i ovf (of_int (2 * c)) = 2 * c" using assms by (simp add: f2i_def is_int64_def Let_def)
  finally show ?thesis .
qed

definition doubling :: "Exponential \<Rightarrow> bool" where
  "doubling e \<longleftrightarrow> exp_factor e = 2 \<and> 0 < ex_Initial e \<and> ex_Initial e \<le> ex_Cap e \<and> ex_Cap e \<le> 2 ^ 52"

lemma exp_Next_double:
  assumes "doubling e" "0 < ex_current e" "ex_current e \<le> ex_Cap e" "ex_count e < ex_MaxRetries e"
  shows "exp_Next ovf e = ((min (2 * ex_current e) (ex_Cap e), True),
    e\<lparr>ex_current := min (2 * ex_current e) (ex_Cap e), ex_count := i64 (ex_count e + 1)\<rparr>)"
  using assms f2i_double [of "ex_current e" ovf] by (simp add: exp_Next_def doubling_def Let_def min_def)

lemma min_double: "0 < (c::int) \<Longrightarrow> 0 < m \<Longrightarrow> min (min (2 * c) m * 2 ^ Suc j) m = min (c * 2 ^ Suc (Suc j)) m"
proof (cases "2 * c \<le> m")
  case False
  assume "0 < c" "0 < m"
  moreover have "(1::int) \<le> 2 ^ Suc j" by (rule one_le_power) simp
  ultimately have "m * 1 \<le> m * 2 ^ Suc j" "2 * c * 1 \<le> 2 * c * 2 ^ Suc j"
    by (intro mult_left_mono; simp del: power_Suc)+
  with False show ?thesis by (simp add: min_def)
qed simp

lemma exp_delays_double:
  "exp_bounded e \<Longrightarrow> doubling e \<Longrightarrow> 0 < ex_current e \<Longrightarrow> ex_current e \<le> ex_Cap e \<Longrightarrow> k \<le> exp_left e \<Longrightarrow>
   delays (exp_Next ovf) k e = map (\<lambda>j. min (ex_current e * 2 ^ Suc j) (ex_Cap e)) [0..<k]"
proof (induction k arbitrary: e)
  case (Suc k)
  let ?e = "snd (exp_Next ovf e)"
  have "ex_count e < ex_MaxRetries e" using Suc.prems(5) by (simp add: exp_left_def)
  note nxt = exp_Next_double [OF Suc.prems(2-4) this]
  have e': "ex_current ?e = min (2 * ex_current e) (ex_Cap e)" "ex_Cap ?e = ex_Cap e" by (simp_all add: nxt)
  have "doubling ?e" using Suc.prems(2) unfolding nxt doubling_def exp_factor_def by (simp split: if_splits)
  moreover have "k \<le> exp_left ?e" using Suc.prems(1,5) expo.nxt_left [of e ovf] by simp
  ultimately have "delays (exp_Next ovf) k ?e = map (\<lambda>j. min (ex_current ?e * 2 ^ Suc j) (ex_Cap ?e)) [0..<k]"
    using Suc.prems by (intro Suc.IH) (auto simp: expo.nxt_bounded e')
  also have "\<dots> = map (\<lambda>j. min (ex_current e * 2 ^ Suc (Suc j)) (ex_Cap e)) [0..<k]"
    unfolding e' using Suc.prems(3,4) by (intro map_cong refl min_double) auto
  finally show ?case unfolding map_upt_Suc by (simp add: nxt mult.commute)
qed simp

lemma exp_delays:
  assumes "exp_bounded e" "doubling e" "ex_current e = 0" "k \<le> exp_left e"
  shows "delays (exp_Next ovf) k e = map (\<lambda>j. min (ex_Initial e * 2 ^ j) (ex_Cap e)) [0..<k]"
proof (cases k)
  case (Suc m)
  then have "ex_count e < ex_MaxRetries e" using assms(4) by (simp add: exp_left_def)
  then have nxt: "exp_Next ovf e =
      ((ex_Initial e, True), e\<lparr>ex_current := ex_Initial e, ex_count := i64 (ex_count e + 1)\<rparr>)"
    using assms(2,3) by (simp add: exp_Next_def doubling_def Let_def)
  let ?e = "snd (exp_Next ovf e)"
  have "doubling ?e" using assms(2) unfolding nxt doubling_def exp_factor_def by (simp split: if_splits)
  then have "delays (exp_Next ovf) m ?e = map (\<lambda>j. min (ex_current ?e * 2 ^ Suc j) (ex_Cap ?e)) [0..<m]"
    using assms Suc expo.nxt_left [of e ovf] expo.nxt_bounded [of e ovf]
    by (intro exp_delays_double) (auto simp: nxt doubling_def)
  then show ?thesis using assms(2) unfolding Suc map_upt_Suc by (simp add: nxt doubling_def)
qed simp

subsection \<open>Properties\<close>

text \<open>
  C14. With a positive limit \<open>Retry\<close> returns, whatever the operation does: it runs the operation until it succeeds, at most
  once more than there are retries, and sleeps between two runs. With the constant schedule every pause
  is the delay; with the exponential schedule of factor 2 the pauses double from the initial delay up to the cap, as long as the cap is below
  the 52 days that a float holds exactly. The result is nil or the error of the last run. The state a schedule was left in does
  not matter.
\<close>

theorem Retry_terminates:
  assumes "0 < co_MaxRetries c" "co_MaxRetries c < 2 ^ 63" "0 < ex_MaxRetries e" "ex_MaxRetries e < 2 ^ 63"
    and "ex_Factor e \<le> 0 \<or> ex_Factor e = 2" "0 < ex_Initial e" "ex_Initial e \<le> ex_Cap e" "ex_Cap e \<le> 2 ^ 52"
  shows "Retry const_Reset const_Next (Some c) sleep op w =
      Some (attempts op sleep (replicate (nat (co_MaxRetries c)) (co_Delay c)) w) \<and>
    Retry exp_Reset (exp_Next ovf) (Some e) sleep op w =
      Some (attempts op sleep (map (\<lambda>j. min (ex_Initial e * 2 ^ j) (ex_Cap e)) [0..<nat (ex_MaxRetries e)]) w)"
proof -
  have c: "const_bounded (const_Reset c)" "const_left (const_Reset c) = nat (co_MaxRetries c)"
    using assms by (simp_all add: const_bounded_def const_left_def const_Reset_def)
  have e: "exp_bounded (exp_Reset e)" "exp_left (exp_Reset e) = nat (ex_MaxRetries e)" "doubling (exp_Reset e)"
    using assms by (auto simp: exp_bounded_def exp_left_def exp_Reset_def doubling_def exp_factor_def)
  have "delays const_Next (const_left (const_Reset c)) (const_Reset c) =
      replicate (nat (co_MaxRetries c)) (co_Delay c)"
    using const_delays [OF c(1) order_refl] unfolding c(2) by (simp add: const_Reset_def)
  moreover have "delays (exp_Next ovf) (exp_left (exp_Reset e)) (exp_Reset e) =
      map (\<lambda>j. min (ex_Initial e * 2 ^ j) (ex_Cap e)) [0..<nat (ex_MaxRetries e)]"
    using exp_delays [OF e(1,3) _ order_refl, of ovf] unfolding e(2) by (simp add: exp_Reset_def)
  ultimately show ?thesis
    using const.retry_loop_attempts [OF c(1), of sleep op w] expo.retry_loop_attempts [OF e(1), of ovf sleep op w]
    by (simp only: Retry_def option.case simp_thms)
qed

text \<open>C14 with three retries: the operation fails twice and then succeeds, after pauses of one and two seconds.\<close>

theorem Retry_terminates_witness:
  "Retry exp_Reset (exp_Next (\<lambda>_. - (2 ^ 63))) (Some \<lparr>ex_Initial = Second, ex_Factor = 0, ex_Cap = 3 * Second,
       ex_MaxRetries = 3, ex_current = 9, ex_count = 9\<rparr>) (\<lambda>d w. w @ [d])
     (\<lambda>w. (if length w < 2 then Some ''down'' else None, w)) [] = Some (None, [Second, 2 * Second])"
  using Retry_terminates [of "\<lparr>co_Delay = 0, co_MaxRetries = 1, co_count = 0\<rparr>"
      "\<lparr>ex_Initial = Second, ex_Factor = 0, ex_Cap = 3 * Second, ex_MaxRetries = 3, ex_current = 9, ex_count = 9\<rparr>"
      "\<lambda>d w. w @ [d]" "\<lambda>w. (if length w < 2 then Some ''down'' else None, w)" "[]" "\<lambda>_. - (2 ^ 63)"]
  by (simp add: Second_def upt_rec numeral_3_eq_3)

text \<open>Without a limit \<open>Retry\<close> does not return from an operation that always fails.\<close>

lemma retry_loop_forever:
  assumes "\<And>w. fst (op w) \<noteq> None" "\<And>s. good s \<Longrightarrow> snd (fst (nxt s)) \<and> good (snd (nxt s))" "good s"
  shows "retry_loop nxt sleep op s w = None"
proof (rule ccontr)
  assume "retry_loop nxt sleep op s w \<noteq> None"
  then obtain r where r: "retry_loop nxt sleep op s w = Some r" by auto
  have "(\<forall>w. fst (op w) \<noteq> None) \<longrightarrow> (\<forall>s. good s \<longrightarrow> snd (fst (nxt s)) \<and> good (snd (nxt s))) \<longrightarrow> \<not> good s"
  proof (rule retry_loop.raw_induct [OF _ r, where P = "\<lambda>nxt sleep op s w r.
      (\<forall>w. fst (op w) \<noteq> None) \<longrightarrow> (\<forall>s. good s \<longrightarrow> snd (fst (nxt s)) \<and> good (snd (nxt s))) \<longrightarrow> \<not> good s"])
  qed (auto split: prod.splits option.splits if_splits, (metis fst_conv snd_conv option.distinct(1))+)
  with assms show False by blast
qed

lemma Retry_forever:
  assumes "co_MaxRetries c \<le> 0" "\<And>w. fst (op w) \<noteq> None"
  shows "Retry const_Reset const_Next (Some c) sleep op w = None"
  using assms retry_loop_forever [of op "\<lambda>c. co_MaxRetries c \<le> 0" const_Next]
  by (simp add: Retry_def const_Next_def const_Reset_def)

text \<open>The first delay ignores the cap.\<close>

lemma exp_Next_uncapped:
  "fst (exp_Next ovf (exp_Reset \<lparr>ex_Initial = Minute, ex_Factor = 2, ex_Cap = Second, ex_MaxRetries = 0,
     ex_current = 0, ex_count = 0\<rparr>)) = (Minute, True)"
  by (simp add: exp_Next_def exp_Reset_def Minute_def Second_def)

end
