(* ===== verification/Metadata.thy ===== *)
theory Metadata
  imports Workflows
begin

section \<open>Labels, finalizers, owners and event filters\<close>

text \<open>
  The packages \<open>labels\<close>, \<open>finalizers\<close>, \<open>owner\<close> and \<open>predicates\<close>: pure helpers on the metadata of objects.
  A label set is a Go map, an association list whose order stands for one iteration order; a pointer into a slice
  of owner references is the reference itself.
\<close>

subsection \<open>Labels\<close>

definition labels_Merge :: "smap \<Rightarrow> smap \<Rightarrow> smap" where
  "labels_Merge base overlay = range_set (range_set [] base) overlay"

definition labels_MergeAll :: "smap list \<Rightarrow> smap" where
  "labels_MergeAll sets = foldl range_set [] sets"

definition labels_Equal :: "smap \<Rightarrow> smap \<Rightarrow> bool" where
  "labels_Equal a b = (if length a \<noteq> length b then False else list_all (\<lambda>(k, v). mapidx b k = v) a)"

definition HasAll :: "smap \<Rightarrow> smap \<Rightarrow> bool" where
  "HasAll got want = list_all (\<lambda>(k, v). mapidx got k = v) want"

definition labels_Keys :: "smap \<Rightarrow> string list" where
  "labels_Keys s = sort (keys s)"

definition SelectorString :: "smap \<Rightarrow> string" where
  "SelectorString s = Join (map (\<lambda>k. k @ ''='' @ mapidx s k) (sort (keys s))) '',''"

definition isAlnum :: "unitab \<Rightarrow> nat \<Rightarrow> bool" where
  "isAlnum u r \<longleftrightarrow> IsLetter u r \<or> IsDigit u r"

definition isLabelName :: "unitab \<Rightarrow> string \<Rightarrow> bool" where
  "isLabelName u s =
     (if length s = 0 \<or> length s > 63 then False
      else if \<not> isAlnum u (byte (hd s)) \<or> \<not> isAlnum u (byte (last s)) then False
      else list_all (\<lambda>r. isAlnum u r \<or> r = 45 \<or> r = 95 \<or> r = 46) (runes s))"

definition dns_label_ok :: "unitab \<Rightarrow> string \<Rightarrow> bool" where
  "dns_label_ok u label =
     (if length label = 0 \<or> length label > 63 then False
      else if \<not> IsLower u (byte (hd label)) \<and> \<not> IsDigit u (byte (hd label)) then False
      else if \<not> IsLower u (byte (last label)) \<and> \<not> IsDigit u (byte (last label)) then False
      else list_all (\<lambda>r. IsLower u r \<or> IsDigit u r \<or> r = 45) (runes label))"

definition isDNSSubdomain :: "unitab \<Rightarrow> string \<Rightarrow> bool" where
  "isDNSSubdomain u s =
     (if length s = 0 \<or> length s > 253 then False else list_all (dns_label_ok u) (splitc (CHR ''.'') s))"

definition IsValidKey :: "unitab \<Rightarrow> string \<Rightarrow> bool" where
  "IsValidKey u s =
     (if s = [] \<or> length s > 253 then False
      else (case IndexByte s (CHR ''/'') of
              Some i \<Rightarrow> (if \<not> isDNSSubdomain u (take i s) then False else isLabelName u (drop (i + 1) s))
            | None \<Rightarrow> isLabelName u s))"

definition IsValidValue :: "unitab \<Rightarrow> string \<Rightarrow> bool" where
  "IsValidValue u s = (if length s > 63 then False else if s = [] then True else isLabelName u s)"

datatype label_error = InvalidKey string | InvalidValue string string

fun labels_Validate :: "unitab \<Rightarrow> smap \<Rightarrow> label_error option" where
  "labels_Validate u [] = None"
| "labels_Validate u ((k, v) # s) =
     (if \<not> IsValidKey u k then Some (InvalidKey k)
      else if \<not> IsValidValue u v then Some (InvalidValue k v)
      else labels_Validate u s)"

definition Subtract :: "smap \<Rightarrow> smap \<Rightarrow> smap" where
  "Subtract a b = range_set [] (filter (\<lambda>(k, v). map_of b k = None) a)"

subsection \<open>Finalizers\<close>

definition finalizers_Add :: "string list \<Rightarrow> string \<Rightarrow> string list \<times> bool" where
  "finalizers_Add list f = (if list_ex (\<lambda>x. x = f) list then (list, False) else (list @ [f], True))"

fun finalizers_Remove :: "string list \<Rightarrow> string \<Rightarrow> string list \<times> bool" where
  "finalizers_Remove [] f = ([], False)"
| "finalizers_Remove (x # list) f =
     (let (out, changed) = finalizers_Remove list f in if x = f then (out, True) else (x # out, changed))"

definition finalizers_Contains :: "string list \<Rightarrow> string \<Rightarrow> bool" where
  "finalizers_Contains list f = list_ex (\<lambda>x. x = f) list"

definition PostgresClusterFinalizer :: string where "PostgresClusterFinalizer = ''pg.athos.io/postgrescluster''"
definition PostgresBackupFinalizer :: string where "PostgresBackupFinalizer = ''pg.athos.io/postgresbackup''"
definition PostgresUserFinalizer :: string where "PostgresUserFinalizer = ''pg.athos.io/postgresuser''"
definition PostgresPoolerFinalizer :: string where "PostgresPoolerFinalizer = ''pg.athos.io/postgrespooler''"

definition AthosFinalizer :: "string \<Rightarrow> bool" where
  "AthosFinalizer f \<longleftrightarrow> f = PostgresClusterFinalizer \<or> f = PostgresBackupFinalizer \<or>
     f = PostgresUserFinalizer \<or> f = PostgresPoolerFinalizer"

subsection \<open>Owners\<close>

definition owner_Find :: "OwnerReference list \<Rightarrow> string \<Rightarrow> string \<Rightarrow> OwnerReference option" where
  "owner_Find refs apiVersion kind = List.find (\<lambda>r. or_APIVersion r = apiVersion \<and> or_Kind r = kind) refs"

definition FindByKind :: "OwnerReference list \<Rightarrow> string \<Rightarrow> OwnerReference option" where
  "FindByKind refs kind = List.find (\<lambda>r. or_Kind r = kind) refs"

definition IsControlledBy :: "OwnerReference list \<Rightarrow> string \<Rightarrow> string \<Rightarrow> string \<Rightarrow> bool" where
  "IsControlledBy refs apiVersion kind name =
     list_ex (\<lambda>r. or_APIVersion r = apiVersion \<and> or_Kind r = kind \<and> or_Name r = name \<and> or_Controller r = Some True) refs"

definition IsManagedByAthos :: "OwnerReference list \<Rightarrow> bool" where
  "IsManagedByAthos refs =
     list_ex (\<lambda>r. or_Kind r \<in> {''PostgresCluster'', ''PostgresBackup'', ''PostgresUser'', ''PostgresPooler''}) refs"

definition owner_Names :: "OwnerReference list \<Rightarrow> string list" where
  "owner_Names refs = map or_Name refs"

definition owner_Controller :: "OwnerReference list \<Rightarrow> OwnerReference option" where
  "owner_Controller refs = List.find (\<lambda>r. or_Controller r = Some True) refs"

subsection \<open>Event filters\<close>

text \<open>\<open>predicate.Funcs\<close>; an event is the metadata of its object, for an update of the old and the new one.\<close>

record Funcs =
  UpdateFunc :: "ObjectMeta \<Rightarrow> ObjectMeta \<Rightarrow> bool"
  CreateFunc :: "ObjectMeta \<Rightarrow> bool"
  DeleteFunc :: "ObjectMeta \<Rightarrow> bool"
  GenericFunc :: "ObjectMeta \<Rightarrow> bool"

definition annotationsChanged :: "smap \<Rightarrow> smap \<Rightarrow> bool" where
  "annotationsChanged old new =
     (if length old \<noteq> length new then True else list_ex (\<lambda>(k, v). mapidx new k \<noteq> v) old)"

definition labelsChanged :: "smap \<Rightarrow> smap \<Rightarrow> bool" where
  "labelsChanged old new =
     (if length old \<noteq> length new then True else list_ex (\<lambda>(k, v). mapidx new k \<noteq> v) old)"

definition ResourceGenerationChanged :: Funcs where
  "ResourceGenerationChanged =
     \<lparr>UpdateFunc = (\<lambda>old new. om_Generation new \<noteq> om_Generation old),
      CreateFunc = (\<lambda>_. True), DeleteFunc = (\<lambda>_. True), GenericFunc = (\<lambda>_. True)\<rparr>"

definition AnnotationChangedOrGeneration :: Funcs where
  "AnnotationChangedOrGeneration =
     \<lparr>UpdateFunc = (\<lambda>old new. if om_Generation new \<noteq> om_Generation old then True
        else annotationsChanged (om_Annotations old) (om_Annotations new)),
      CreateFunc = (\<lambda>_. True), DeleteFunc = (\<lambda>_. True), GenericFunc = (\<lambda>_. True)\<rparr>"

definition LabelChangedOrGeneration :: Funcs where
  "LabelChangedOrGeneration =
     \<lparr>UpdateFunc = (\<lambda>old new. if om_Generation new \<noteq> om_Generation old then True
        else labelsChanged (om_Labels old) (om_Labels new)),
      CreateFunc = (\<lambda>_. True), DeleteFunc = (\<lambda>_. True), GenericFunc = (\<lambda>_. True)\<rparr>"

definition NotPaused :: Funcs where
  "NotPaused =
     (let pass = (\<lambda>m. mapidx (om_Annotations m) ''pg.athos.io/paused'' \<noteq> ''true'') in
      \<lparr>UpdateFunc = (\<lambda>old new. pass new), CreateFunc = pass, DeleteFunc = (\<lambda>_. True), GenericFunc = pass\<rparr>)"

definition OwnedByCluster :: "string \<Rightarrow> Funcs" where
  "OwnedByCluster clusterName =
     (let pass = (\<lambda>m. mapidx (om_Labels m) ''pg.athos.io/cluster'' = clusterName) in
      \<lparr>UpdateFunc = (\<lambda>old new. pass new), CreateFunc = pass, DeleteFunc = pass, GenericFunc = pass\<rparr>)"

subsection \<open>Lemmas on labels\<close>

lemma labels_Merge_lookup:
  "wf_map a \<Longrightarrow> wf_map b \<Longrightarrow> map_of (labels_Merge a b) = map_of a ++ map_of b"
  by (simp add: labels_Merge_def range_set_lookup)

lemma labels_Equal_not_changed: "labels_Equal a b \<longleftrightarrow> \<not> configMapDataChanged a b"
  by (auto simp: labels_Equal_def configMapDataChanged_def list_all_iff list_ex_iff)

lemma labels_Equal_iff:
  "wf_map a \<Longrightarrow> wf_map b \<Longrightarrow> list_all (\<lambda>(k, v). v \<noteq> []) a \<Longrightarrow> labels_Equal a b \<longleftrightarrow> map_of a = map_of b"
  by (simp add: labels_Equal_not_changed configMapDataChanged_iff)

text \<open>An entry with the empty value is found in every set.\<close>

lemma labels_Equal_absent: "labels_Equal [(''a'', [])] [(''b'', [])]" "HasAll [] [(''a'', [])]"
  by (simp_all add: labels_Equal_def HasAll_def)

text \<open>What the label checks leave out: the separators of a selector.\<close>

definition sep_free :: "string \<Rightarrow> bool" where
  "sep_free s \<longleftrightarrow> CHR '','' \<notin> set s \<and> CHR ''='' \<notin> set s"

lemma not_alnum_sep: "\<not> isAlnum u 44" "\<not> isAlnum u 61" "\<not> IsLower u 44" "\<not> IsLower u 61" "\<not> IsDigit u 44" "\<not> IsDigit u 61"
  by (simp_all add: isAlnum_def IsLetter_def IsDigit_def IsLower_def)

lemma sep_free_runes: "44 \<notin> set (runes s) \<Longrightarrow> 61 \<notin> set (runes s) \<Longrightarrow> sep_free s"
  using runes_small [of "CHR '',''" s] runes_small [of "CHR ''=''" s] by (auto simp: sep_free_def)

lemma isLabelName_sep_free:
  assumes "isLabelName u s" shows "sep_free s"
  by (rule sep_free_runes) (use assms in \<open>auto simp: isLabelName_def list_all_iff not_alnum_sep split: if_splits\<close>)

lemma dns_label_sep_free:
  assumes "dns_label_ok u s" shows "sep_free s"
  by (rule sep_free_runes) (use assms in \<open>auto simp: dns_label_ok_def list_all_iff not_alnum_sep split: if_splits\<close>)

lemma sep_free_append [simp]: "sep_free (a @ b) \<longleftrightarrow> sep_free a \<and> sep_free b"
  by (auto simp: sep_free_def)

lemma sep_free_Join: "(\<And>p. p \<in> set ps \<Longrightarrow> sep_free p) \<Longrightarrow> sep_free sep \<Longrightarrow> sep_free (Join ps sep)"
  by (induction ps sep rule: Join.induct) (auto simp: sep_free_def)

lemma isDNSSubdomain_sep_free:
  assumes "isDNSSubdomain u s" shows "sep_free s"
proof -
  have "sep_free (Join (splitc (CHR ''.'') s) ''.'')"
    using assms dns_label_sep_free
    by (intro sep_free_Join) (auto simp: isDNSSubdomain_def list_all_iff sep_free_def split: if_splits)
  then show ?thesis by simp
qed

lemma IsValidKey_sep_free:
  assumes "IsValidKey u s" shows "sep_free s"
proof (cases "IndexByte s (CHR ''/'')")
  case None
  show ?thesis using assms isLabelName_sep_free [of u s] unfolding IsValidKey_def None by (auto split: if_splits)
next
  case (Some i)
  with assms have "sep_free (take i s)" "sep_free (drop (Suc i) s)"
    by (auto simp: IsValidKey_def isLabelName_sep_free isDNSSubdomain_sep_free split: if_splits)
  then have "sep_free (take i s @ ''/'' @ drop (Suc i) s)" unfolding sep_free_append by (simp add: sep_free_def)
  then show ?thesis using IndexByte_split [OF Some] by simp
qed

lemma IsValidValue_sep_free: "IsValidValue u s \<Longrightarrow> sep_free s"
  using isLabelName_sep_free [of u s] by (auto simp: IsValidValue_def sep_free_def [of "[]"] split: if_splits)

lemma labels_Validate_None:
  "labels_Validate u s = None \<longleftrightarrow> (\<forall>(k, v) \<in> set s. IsValidKey u k \<and> IsValidValue u v)"
  by (induction u s rule: labels_Validate.induct) auto

text \<open>
  The grammar of an equality-based selector: entries between commas, key and value around the first equals sign. The API server
  also refuses keys and values outside ASCII, which \<open>labels.Validate\<close> accepts; the reader here refuses nothing.
\<close>

definition parse_selector :: "string \<Rightarrow> smap" where
  "parse_selector sel = (if sel = [] then []
     else map (\<lambda>p. (takeWhile (\<lambda>c. c \<noteq> CHR ''='') p, tl (dropWhile (\<lambda>c. c \<noteq> CHR ''='') p))) (splitc (CHR '','') sel))"

lemma parse_entry:
  "sep_free k \<Longrightarrow> takeWhile (\<lambda>c. c \<noteq> CHR ''='') (k @ CHR ''='' # v) = k \<and>
     tl (dropWhile (\<lambda>c. c \<noteq> CHR ''='') (k @ CHR ''='' # v)) = v"
proof -
  assume "sep_free k"
  then have k: "\<And>c. c \<in> set k \<Longrightarrow> c \<noteq> CHR ''=''" by (auto simp: sep_free_def)
  then show ?thesis by (simp add: takeWhile_append2 dropWhile_append2)
qed

subsection \<open>Lemmas on finalizers, owners and filters\<close>

lemma finalizers_Remove_eq: "finalizers_Remove l f = (filter (\<lambda>x. x \<noteq> f) l, f \<in> set l)"
  by (induction l f rule: finalizers_Remove.induct) auto

lemma finalizers_Add_eq: "finalizers_Add l f = (if f \<in> set l then (l, False) else (l @ [f], True))"
  by (simp add: finalizers_Add_def list_ex_iff)

lemma finalizers_Contains_iff: "finalizers_Contains l f \<longleftrightarrow> f \<in> set l"
  by (simp add: finalizers_Contains_def list_ex_iff)

text \<open>Adding and removing are inverse and report the change; the cluster controller's own finalizer is not
  among the ones the package knows.\<close>

lemma finalizers_round_trip:
  "\<not> finalizers_Contains l f \<Longrightarrow> finalizers_Remove (fst (finalizers_Add l f)) f = (l, True)"
  "finalizers_Add (fst (finalizers_Add l f)) f = (fst (finalizers_Add l f), False)"
  "finalizers_Contains (fst (finalizers_Remove l g)) f \<longleftrightarrow> f \<noteq> g \<and> finalizers_Contains l f"
  by (auto simp: finalizers_Add_eq finalizers_Remove_eq finalizers_Contains_iff filter_id_conv)

lemma AthosFinalizer_controller: "\<not> AthosFinalizer ClusterFinalizer"
  by (simp add: AthosFinalizer_def PostgresClusterFinalizer_def PostgresBackupFinalizer_def
      PostgresUserFinalizer_def PostgresPoolerFinalizer_def)

lemma IsControlledBy_Find:
  "IsControlledBy refs v k n \<Longrightarrow> owner_Find refs v k \<noteq> None \<and> n \<in> set (owner_Names refs) \<and> owner_Controller refs \<noteq> None"
  by (auto simp: IsControlledBy_def owner_Find_def owner_Names_def owner_Controller_def find_None_iff list_ex_iff)

lemma mapsChanged_config: "annotationsChanged = configMapDataChanged" "labelsChanged = configMapDataChanged"
  by (auto simp: annotationsChanged_def labelsChanged_def configMapDataChanged_def fun_eq_iff)

lemma selector_entries:
  assumes "wf_map s" shows "set (map (\<lambda>k. (k, mapidx s k)) (sort (keys s))) = set s"
proof -
  have "(k, v) \<in> set s \<Longrightarrow> mapidx s k = v" for k v
    using assms by (intro mapidx_Some) (simp add: map_of_is_SomeI)
  then show ?thesis by (force simp: image_iff)
qed

lemma parse_SelectorString:
  assumes "labels_Validate u s = None" "wf_map s"
  shows "parse_selector (SelectorString s) = map (\<lambda>k. (k, mapidx s k)) (sort (keys s))"
proof (cases "s = []")
  case False
  let ?e = "\<lambda>k. k @ ''='' @ mapidx s k"
  have free: "sep_free k" "sep_free (mapidx s k)" if "k \<in> set (keys s)" for k
  proof -
    from that assms(2) obtain v where kv: "(k, v) \<in> set s" "mapidx s k = v" by (auto simp: mapidx_def)
    with assms(1) show "sep_free k" "sep_free (mapidx s k)"
      by (auto simp: labels_Validate_None intro: IsValidKey_sep_free IsValidValue_sep_free)
  qed
  have ne: "sort (keys s) \<noteq> []" using False by (metis length_0_conv length_map length_sort)
  have "CHR '','' \<notin> set (?e k)" if "k \<in> set (keys s)" for k using free [OF that] by (auto simp: sep_free_def)
  then have "splitc (CHR '','') (SelectorString s) = map ?e (sort (keys s))"
    unfolding SelectorString_def using ne by (intro splitc_Join) auto
  moreover have "SelectorString s \<noteq> []"
    using ne by (cases "sort (keys s)") (auto simp: SelectorString_def Join_Cons)
  moreover have "takeWhile (\<lambda>c. c \<noteq> CHR ''='') (?e k) = k \<and> tl (dropWhile (\<lambda>c. c \<noteq> CHR ''='') (?e k)) = mapidx s k"
    if "k \<in> set (sort (keys s))" for k
    using parse_entry [OF free(1)] that by simp
  ultimately show ?thesis unfolding parse_selector_def by (simp add: o_def)
qed (simp add: SelectorString_def parse_selector_def)

subsection \<open>Properties\<close>

text \<open>
  C16. A valid label set survives the trip through its selector: a reader of the selector grammar reads from \<open>SelectorString\<close>
  exactly the entries of the set, in the order of their keys, and the text does not depend on the iteration order of the map.
\<close>

theorem selector_round_trip:
  assumes "wf_map s" "labels_Validate u s = None"
  shows "set (parse_selector (SelectorString s)) = set s \<and>
    sorted (keys (parse_selector (SelectorString s))) \<and>
    (wf_map s' \<and> set s' = set s \<longrightarrow> SelectorString s' = SelectorString s)"
proof -
  have "SelectorString s' = SelectorString s" if "wf_map s'" "set s' = set s"
    using sort_keys_cong [OF that(1) assms(1) that(2)] map_of_cong_set [OF that(1) assms(1) that(2)]
    by (simp add: SelectorString_def mapidx_def)
  then show ?thesis
    using parse_SelectorString [OF assms(2,1)] selector_entries [OF assms(1)] by (simp add: o_def)
qed

text \<open>C16 on two labels given in another order.\<close>

theorem selector_round_trip_witness:
  "set (parse_selector (SelectorString [(''role'', ''primary''), (''app'', ''athos'')])) =
     {(''role'', ''primary''), (''app'', ''athos'')} \<and>
   SelectorString [(''app'', ''athos''), (''role'', ''primary'')] = SelectorString [(''role'', ''primary''), (''app'', ''athos'')]"
proof -
  let ?s = "[(''role'', ''primary''), (''app'', ''athos'')]"
  have "labels_Validate ascii_tab ?s = None" by code_simp
  from selector_round_trip [OF _ this, of "[(''app'', ''athos''), (''role'', ''primary'')]"]
  show ?thesis by (auto simp: insert_commute)
qed

text \<open>
  C34. What the event filters let through. When the old object has no empty annotation or label value, the two change filters pass an update exactly
  if the generation or the map changed. An update that replaces a key with an empty value by another key is dropped although the
  annotations differ. The filter on the cluster label passes an object with the labels the operator sets exactly if it belongs to that cluster.
\<close>

theorem event_filters:
  assumes "wf_map (om_Annotations old)" "wf_map (om_Annotations new)" "list_all (\<lambda>(k, v). v \<noteq> []) (om_Annotations old)"
    and "wf_map (om_Labels old)" "wf_map (om_Labels new)" "list_all (\<lambda>(k, v). v \<noteq> []) (om_Labels old)"
  shows "(UpdateFunc AnnotationChangedOrGeneration old new \<longleftrightarrow>
      om_Generation new \<noteq> om_Generation old \<or> map_of (om_Annotations new) \<noteq> map_of (om_Annotations old)) \<and>
    (UpdateFunc LabelChangedOrGeneration old new \<longleftrightarrow>
      om_Generation new \<noteq> om_Generation old \<or> map_of (om_Labels new) \<noteq> map_of (om_Labels old)) \<and>
    \<not> UpdateFunc AnnotationChangedOrGeneration
        (old\<lparr>om_Annotations := [(''pg.athos.io/failover'', [])]\<rparr>)
        (old\<lparr>om_Annotations := [(''pg.athos.io/restart'', [])]\<rparr>) \<and>
    (CreateFunc (OwnedByCluster n) (old\<lparr>om_Labels := CommonLabels c\<rparr>) \<longleftrightarrow> cluster_name c = n)"
  using configMapDataChanged_iff [OF assms(1-3)] configMapDataChanged_iff [OF assms(4-6)]
  by (auto simp: AnnotationChangedOrGeneration_def LabelChangedOrGeneration_def mapsChanged_config OwnedByCluster_def
      CommonLabels_def Let_def configMapDataChanged_def [of "[(_, _)]"])

text \<open>C34 for a failover annotation that is added.\<close>

theorem event_filters_witness:
  "UpdateFunc AnnotationChangedOrGeneration ObjectMeta_zero
     (ObjectMeta_zero\<lparr>om_Annotations := [(''pg.athos.io/failover'', ''db-1'')]\<rparr>)"
proof -
  let ?new = "ObjectMeta_zero\<lparr>om_Annotations := [(''pg.athos.io/failover'', ''db-1'')]\<rparr>"
  have "map_of (om_Annotations ?new) \<noteq> map_of (om_Annotations ObjectMeta_zero)" by (simp add: ObjectMeta_zero_def)
  with event_filters [of ObjectMeta_zero ?new] show ?thesis by (simp add: ObjectMeta_zero_def)
qed


end
