(* ===== verification/Patcher.thy ===== *)
theory Patcher
  imports Metadata
begin

section \<open>Merge patches\<close>

text \<open>
  The package \<open>patcher\<close>. A document is a value of \<open>json\<close>, what \<open>json.Unmarshal\<close> gives; an object is a Go map. The
  encoding of typed objects and the patch call of the client are arguments. \<open>fmtv\<close> is \<open>fmt.Sprintf("%v")\<close> on such values,
  which prints maps in the order of their keys; the text of a number is the argument \<open>fnum\<close>.
\<close>

datatype json = JNull | JBool bool | JNum rat | JStr string | JArr "json list" | JObj "(string \<times> json) list"

type_synonym jmap = "(string, json) gomap"

fun fmtv :: "(rat \<Rightarrow> string) \<Rightarrow> json \<Rightarrow> string" where
  "fmtv fnum JNull = ''<nil>''"
| "fmtv fnum (JBool b) = (if b then ''true'' else ''false'')"
| "fmtv fnum (JNum x) = fnum x"
| "fmtv fnum (JStr s) = s"
| "fmtv fnum (JArr xs) = ''['' @ Join (map (fmtv fnum) xs) '' '' @ '']''"
| "fmtv fnum (JObj m) = ''map['' @ Join (map (\<lambda>(k, s). k @ '':'' @ s)
     (sort_key fst (map (\<lambda>(k, v). (k, fmtv fnum v)) m))) '' '' @ '']''"

text \<open>The two loops of \<open>diffMaps\<close>; \<open>diff_entry\<close> is what one round of the first stores, if anything.\<close>

fun diff_removed :: "jmap \<Rightarrow> jmap \<Rightarrow> jmap \<Rightarrow> jmap" where
  "diff_removed [] modified patch = patch"
| "diff_removed ((fld, _) # original) modified patch =
     diff_removed original modified (if map_of modified fld = None then mapset patch fld JNull else patch)"

fun diff_entry :: "(rat \<Rightarrow> string) \<Rightarrow> jmap \<Rightarrow> string \<Rightarrow> json \<Rightarrow> json option"
  and diff_loop :: "(rat \<Rightarrow> string) \<Rightarrow> jmap \<Rightarrow> jmap \<Rightarrow> jmap \<Rightarrow> jmap" where
  "diff_entry fnum original fld modVal =
     (case map_of original fld of
        None \<Rightarrow> Some modVal
      | Some origVal \<Rightarrow>
          (case modVal of
             JObj modMap \<Rightarrow>
               (case origVal of
                  JObj origMap \<Rightarrow>
                    (let sub = diff_removed origMap modMap (diff_loop fnum origMap modMap []) in
                     if length sub > 0 then Some (JObj sub) else None)
                | _ \<Rightarrow> if fmtv fnum origVal \<noteq> fmtv fnum modVal then Some modVal else None)
           | _ \<Rightarrow> if fmtv fnum origVal \<noteq> fmtv fnum modVal then Some modVal else None))"
| "diff_loop fnum original [] patch = patch"
| "diff_loop fnum original ((fld, modVal) # modified) patch =
     diff_loop fnum original modified
       (case diff_entry fnum original fld modVal of None \<Rightarrow> patch | Some x \<Rightarrow> mapset patch fld x)"

declare diff_entry.simps [simp del]

definition diffMaps :: "(rat \<Rightarrow> string) \<Rightarrow> jmap \<Rightarrow> jmap \<Rightarrow> jmap" where
  "diffMaps fnum original modified = diff_removed original modified (diff_loop fnum original modified [])"

text \<open>Decoding into a map refuses documents that are neither an object nor null.\<close>

fun as_map :: "json \<Rightarrow> jmap option" where
  "as_map (JObj m) = Some m"
| "as_map JNull = Some []"
| "as_map _ = None"

definition createMergePatch :: "(rat \<Rightarrow> string) \<Rightarrow> json \<Rightarrow> json \<Rightarrow> err + jmap" where
  "createMergePatch fnum original modified =
     (case as_map original of
        None \<Rightarrow> Inl (Wrap ''unmarshal original'' (OtherErr ''json: cannot unmarshal''))
      | Some origMap \<Rightarrow>
          (case as_map modified of
             None \<Rightarrow> Inl (Wrap ''unmarshal modified'' (OtherErr ''json: cannot unmarshal''))
           | Some modMap \<Rightarrow> Inr (diffMaps fnum origMap modMap)))"

definition Patch :: "(rat \<Rightarrow> string) \<Rightarrow> ('o \<Rightarrow> err + json) \<Rightarrow> ('o \<Rightarrow> jmap \<Rightarrow> ('w, unit) io) \<Rightarrow> 'o \<Rightarrow> 'o \<Rightarrow> ('w, unit) io" where
  "Patch fnum marshal call base modified =
     (case marshal base of
        Inl e \<Rightarrow> failE (Wrap ''marshal base object'' e)
      | Inr baseDoc \<Rightarrow>
          (case marshal modified of
             Inl e \<Rightarrow> failE (Wrap ''marshal modified object'' e)
           | Inr modifiedDoc \<Rightarrow>
               (case createMergePatch fnum baseDoc modifiedDoc of
                  Inl e \<Rightarrow> failE (Wrap ''compute merge patch'' e)
                | Inr patch \<Rightarrow> if patch = [] then retE () else call modified patch)))"

definition Apply :: "('o \<Rightarrow> err + json) \<Rightarrow> ('o \<Rightarrow> json \<Rightarrow> ('w, unit) io) \<Rightarrow> 'o \<Rightarrow> ('w, unit) io" where
  "Apply marshal call obj =
     (case marshal obj of
        Inl e \<Rightarrow> failE (Wrap ''marshal object for server-side apply'' e)
      | Inr data \<Rightarrow> call obj data)"

text \<open>A kind that the scheme found for the owner is the text of its group and version and its name.\<close>

definition setOwnerReference :: "ObjectMeta \<Rightarrow> ObjectMeta \<Rightarrow> string \<times> string \<Rightarrow> ObjectMeta" where
  "setOwnerReference obj owner gvk =
     (let ref = \<lparr>or_APIVersion = fst gvk, or_Kind = snd gvk, or_Name = om_Name owner, or_UID = om_UID owner,
                 or_Controller = Some True, or_BlockOwnerDeletion = Some True\<rparr>;
          existing = om_OwnerReferences obj in
      if list_ex (\<lambda>r. or_UID r = or_UID ref) existing then obj
      else obj\<lparr>om_OwnerReferences := existing @ [ref]\<rparr>)"

definition EnsureOwnerRef :: "err + (string \<times> string) list \<Rightarrow> bool \<Rightarrow> ObjectMeta \<Rightarrow> ObjectMeta \<Rightarrow> err + ObjectMeta" where
  "EnsureOwnerRef objectKinds isRuntime obj owner =
     (if \<not> isRuntime then Inl (OtherErr ''owner does not implement runtime.Object'')
      else (case objectKinds of
              Inl e \<Rightarrow> Inl (Wrap ''resolve GVK for owner'' e)
            | Inr [] \<Rightarrow> Inl (OtherErr ''no GVK found for owner type'')
            | Inr (gvk # _) \<Rightarrow> Inr (setOwnerReference obj owner gvk)))"

subsection \<open>What a merge patch means\<close>

text \<open>The server's side, as in RFC 7386: null deletes, an object is merged, any other value replaces.\<close>

fun obj_of :: "json \<Rightarrow> jmap" where
  "obj_of (JObj m) = m"
| "obj_of _ = []"

fun merge_patch :: "json \<Rightarrow> json \<Rightarrow> json" and merge_entries :: "jmap \<Rightarrow> jmap \<Rightarrow> jmap" where
  "merge_patch target (JObj p) = JObj (merge_entries (obj_of target) p)"
| "merge_patch target JNull = JNull"
| "merge_patch target (JBool b) = JBool b"
| "merge_patch target (JNum x) = JNum x"
| "merge_patch target (JStr s) = JStr s"
| "merge_patch target (JArr xs) = JArr xs"
| "merge_entries t [] = t"
| "merge_entries t ((k, v) # p) = merge_entries
     (if v = JNull then mapdel t k
      else mapset t k (merge_patch (case map_of t k of None \<Rightarrow> JNull | Some x \<Rightarrow> x) v)) p"

fun is_obj :: "json \<Rightarrow> bool" where
  "is_obj (JObj _) = True"
| "is_obj _ = False"

text \<open>Documents with the same keys whose leaves print the same.\<close>

inductive same :: "(rat \<Rightarrow> string) \<Rightarrow> json \<Rightarrow> json \<Rightarrow> bool" for fnum where
  same_obj: "(\<And>k. rel_option (same fnum) (map_of a k) (map_of b k)) \<Longrightarrow> same fnum (JObj a) (JObj b)"
| same_leaf: "fmtv fnum x = fmtv fnum y \<Longrightarrow> \<not> (is_obj x \<and> is_obj y) \<Longrightarrow> same fnum x y"

fun wf_json :: "json \<Rightarrow> bool" where
  "wf_json (JObj m) \<longleftrightarrow> wf_map m \<and> list_all (\<lambda>(k, v). wf_json v) m"
| "wf_json _ = True"

fun no_null :: "json \<Rightarrow> bool" where
  "no_null JNull = False"
| "no_null (JObj m) = list_all (\<lambda>(k, v). no_null v) m"
| "no_null _ = True"

subsection \<open>Lemmas\<close>

lemma map_of_merge_entries:
  "wf_map p \<Longrightarrow> map_of (merge_entries t p) k =
     (case map_of p k of None \<Rightarrow> map_of t k
      | Some v \<Rightarrow> if v = JNull then None
                  else Some (merge_patch (case map_of t k of None \<Rightarrow> JNull | Some x \<Rightarrow> x) v))"
proof (induction p arbitrary: t)
  case (Cons e p)
  obtain k' v where e: "e = (k', v)" by (cases e)
  with Cons.prems have "map_of p k' = None" by (auto simp: map_of_eq_None_iff)
  then show ?case using Cons by (auto simp: e split: option.split)
qed simp

lemma map_of_diff_removed:
  "map_of (diff_removed original modified patch) k =
     (if map_of original k \<noteq> None \<and> map_of modified k = None then Some JNull else map_of patch k)"
  by (induction original modified patch rule: diff_removed.induct) auto

lemma wf_diff_removed: "wf_map patch \<Longrightarrow> wf_map (diff_removed original modified patch)"
  by (induction original modified patch rule: diff_removed.induct) simp_all

lemma map_of_diff_loop:
  "wf_map m \<Longrightarrow> map_of (diff_loop fnum original m patch) k =
     (case map_of m k of None \<Rightarrow> map_of patch k
      | Some v \<Rightarrow> (case diff_entry fnum original k v of None \<Rightarrow> map_of patch k | Some x \<Rightarrow> Some x))"
proof (induction m arbitrary: patch)
  case (Cons e m)
  obtain k' v where e: "e = (k', v)" by (cases e)
  with Cons.prems have "map_of m k' = None" by (auto simp: map_of_eq_None_iff)
  then show ?case using Cons by (auto simp: e split: option.split)
qed simp

lemma wf_diff_loop: "wf_map patch \<Longrightarrow> wf_map (diff_loop fnum original m patch)"
  by (induction m arbitrary: patch) (auto split: option.split)

lemma wf_diffMaps: "wf_map (diffMaps fnum original modified)"
  by (simp add: diffMaps_def wf_diff_removed wf_diff_loop)

lemma map_of_diffMaps:
  "wf_map m \<Longrightarrow> map_of (diffMaps fnum original m) k =
     (case map_of m k of None \<Rightarrow> if map_of original k = None then None else Some JNull
      | Some v \<Rightarrow> diff_entry fnum original k v)"
  by (auto simp: diffMaps_def map_of_diff_removed map_of_diff_loop split: option.split)

text \<open>A value that merges into nothing is itself.\<close>

lemma merge_fresh:
  "no_null v \<Longrightarrow> wf_json v \<Longrightarrow> obj_of t = [] \<Longrightarrow> same fnum (merge_patch t v) v"
proof (induction v arbitrary: t)
  case (JObj m)
  have "rel_option (same fnum) (map_of (merge_entries [] m) k) (map_of m k)" for k
  proof (cases "map_of m k")
    case (Some v)
    then have mem: "(k, v) \<in> set m" by (rule map_of_SomeD)
    with JObj.prems have "no_null v" "wf_json v" by (auto simp: list_all_iff)
    with JObj.IH [OF mem, of v JNull] have "same fnum (merge_patch JNull v) v" by simp
    with Some \<open>no_null v\<close> JObj.prems show ?thesis by (auto simp: map_of_merge_entries)
  qed (use JObj.prems in \<open>simp add: map_of_merge_entries\<close>)
  then show ?case using JObj.prems by (simp add: same_obj)
qed (auto intro: same_leaf)

lemma no_null_ne: "no_null v \<Longrightarrow> v \<noteq> JNull"
  by auto

lemma diff_entry_leaf:
  assumes "map_of original k = Some x" "\<not> (is_obj x \<and> is_obj v)"
  shows "diff_entry fnum original k v = (if fmtv fnum x \<noteq> fmtv fnum v then Some v else None)"
  using assms by (cases v; cases x) (auto simp: diff_entry.simps)

lemma size_field: "(k, v) \<in> set m \<Longrightarrow> size v < size (JObj m)"
  by (induction m) auto

lemma merge_diffMaps:
  "no_null (JObj m) \<Longrightarrow> wf_json (JObj m) \<Longrightarrow>
     same fnum (merge_patch (JObj original) (JObj (diffMaps fnum original m))) (JObj m)"
proof (induction "JObj m" arbitrary: m original rule: measure_induct_rule [where f = size])
  case (less m)
  have "rel_option (same fnum) (map_of (merge_entries original (diffMaps fnum original m)) k) (map_of m k)" for k
  proof (cases "map_of m k")
    case None
    then show ?thesis
      using less.prems by (simp add: map_of_merge_entries [OF wf_diffMaps] map_of_diffMaps split: option.split)
  next
    case (Some v)
    then have mem: "(k, v) \<in> set m" by (rule map_of_SomeD)
    with less.prems have v: "no_null v" "wf_json v" by (auto simp: list_all_iff)
    have look: "map_of (merge_entries original (diffMaps fnum original m)) k =
        (case diff_entry fnum original k v of None \<Rightarrow> map_of original k
         | Some x \<Rightarrow> if x = JNull then None
                     else Some (merge_patch (case map_of original k of None \<Rightarrow> JNull | Some y \<Rightarrow> y) x))"
      using less.prems Some by (simp add: map_of_merge_entries [OF wf_diffMaps] map_of_diffMaps)
    show ?thesis
    proof (cases "map_of original k")
      case None
      then have "diff_entry fnum original k v = Some v" by (simp add: diff_entry.simps)
      then show ?thesis using v no_null_ne [OF v(1)] Some None by (simp add: look merge_fresh)
    next
      case orig: (Some x)
      show ?thesis
      proof (cases "is_obj x \<and> is_obj v")
        case True
        then obtain a b where ab: "x = JObj a" "v = JObj b" by (cases x; cases v) auto
        have "size (JObj b) < size (JObj m)" using size_field [OF mem] ab by simp
        from less.hyps [OF this] v have "same fnum (merge_patch (JObj a) (JObj (diffMaps fnum a b))) (JObj b)"
          unfolding ab by simp
        moreover have "diff_entry fnum original k v =
            (if diffMaps fnum a b = [] then None else Some (JObj (diffMaps fnum a b)))"
          using orig ab by (simp add: diff_entry.simps diffMaps_def Let_def)
        ultimately show ?thesis unfolding look using Some orig ab by (cases "diffMaps fnum a b = []") simp_all
      next
        case False
        have "obj_of x = [] \<or> \<not> is_obj v" using False by (cases x) auto
        then have "same fnum (merge_patch x v) v"
          using v merge_fresh [of v x fnum] by (cases v) (auto intro: same_leaf)
        moreover have "fmtv fnum x = fmtv fnum v \<Longrightarrow> same fnum x v" by (rule same_leaf [OF _ False])
        ultimately show ?thesis
          using Some orig no_null_ne [OF v(1)] by (simp add: look diff_entry_leaf [OF orig False])
      qed
    qed
  qed
  then show ?case by (simp add: same_obj)
qed

subsection \<open>Properties\<close>

text \<open>
  C15. A merge patch computed by \<open>createMergePatch\<close> turns the original document into the modified one: for objects whose modified
  version holds no null, the server that merges the patch into the original ends up with the same fields as the modified
  document, and with leaves that print the same. The patch call is left out exactly when the
  two documents already agree in that sense on every field.
\<close>

theorem merge_patch_round_trip:
  assumes "wf_json (JObj m)" "no_null (JObj m)"
  shows "\<exists>patch. createMergePatch fnum (JObj original) (JObj m) = Inr patch \<and>
    same fnum (merge_patch (JObj original) (JObj patch)) (JObj m) \<and>
    (patch = [] \<longrightarrow> same fnum (JObj original) (JObj m))"
  using merge_diffMaps [OF assms(2,1), of fnum original] by (auto simp: createMergePatch_def)

text \<open>C15 for a change of one label and a removed field.\<close>

theorem merge_patch_round_trip_witness:
  "createMergePatch (\<lambda>_. []) (JObj [(''spec'', JObj [(''a'', JStr ''x''), (''b'', JStr ''y'')]), (''old'', JBool True)])
      (JObj [(''spec'', JObj [(''a'', JStr ''z''), (''b'', JStr ''y'')])]) =
    Inr [(''spec'', JObj [(''a'', JStr ''z'')]), (''old'', JNull)] \<and>
   same (\<lambda>_. []) (merge_patch (JObj [(''spec'', JObj [(''a'', JStr ''x''), (''b'', JStr ''y'')]), (''old'', JBool True)])
      (JObj [(''spec'', JObj [(''a'', JStr ''z'')]), (''old'', JNull)]))
    (JObj [(''spec'', JObj [(''a'', JStr ''z''), (''b'', JStr ''y'')])])"
proof -
  let ?o = "[(''spec'', JObj [(''a'', JStr ''x''), (''b'', JStr ''y'')]), (''old'', JBool True)]"
  let ?m = "[(''spec'', JObj [(''a'', JStr ''z''), (''b'', JStr ''y'')])]"
  have "createMergePatch (\<lambda>_. []) (JObj ?o) (JObj ?m) = Inr [(''spec'', JObj [(''a'', JStr ''z'')]), (''old'', JNull)]"
    by (simp add: createMergePatch_def diffMaps_def diff_entry.simps)
  with merge_patch_round_trip [of ?m "\<lambda>_. []" ?o] show ?thesis by simp
qed

text \<open>Printing is coarser than equality: a number and the text of that number, or two list elements and one with a blank inside,
  give an empty patch.\<close>

lemma diffMaps_missed:
  "fnum 1 = ''1'' \<Longrightarrow> diffMaps fnum [(''port'', JNum 1)] [(''port'', JStr ''1'')] = []"
  "diffMaps fnum [(''args'', JArr [JStr ''a b''])] [(''args'', JArr [JStr ''a'', JStr ''b''])] = []"
  by (simp_all add: diffMaps_def diff_entry.simps)

text \<open>\<open>EnsureOwnerRef\<close> is idempotent and leaves a reference to the owner; but a reference with the owner's UID that is
  not a controller reference stays as it is.\<close>

lemma setOwnerReference_laws:
  "list_ex (\<lambda>r. or_UID r = om_UID owner) (om_OwnerReferences (setOwnerReference obj owner gvk))"
  "setOwnerReference (setOwnerReference obj owner gvk) owner gvk = setOwnerReference obj owner gvk"
  "\<not> list_ex (\<lambda>r. or_UID r = om_UID owner) (om_OwnerReferences obj) \<Longrightarrow>
     IsControlledBy (om_OwnerReferences (setOwnerReference obj owner gvk)) (fst gvk) (snd gvk) (om_Name owner)"
  by (auto simp: setOwnerReference_def Let_def IsControlledBy_def)

end
