(* ===== verification/Durations.thy ===== *)
theory Durations
  imports Backoff
begin

section \<open>Duration texts\<close>

text \<open>
  The packages \<open>duration\<close> and \<open>timeutil\<close>, on top of a model of \<open>time.ParseDuration\<close>, \<open>Duration.String\<close> and
  \<open>strconv.ParseFloat\<close> for the inputs these packages pass. Errors are None. Times are in UTC. Fractions go through
  the rounding of \<open>Backoff\<close>, and \<open>ovf\<close> is what the conversion of a float that is out of range gives.
\<close>

subsection \<open>The standard library\<close>

definition Microsecond :: int where "Microsecond = 1000"
definition Millisecond :: int where "Millisecond = 1000000"

definition unitMap :: "(string \<times> nat) list" where
  "unitMap = [(''ns'', 1), (''us'', 1000), ([CHR 0xC2, CHR 0xB5, CHR ''s''], 1000), ([CHR 0xCE, CHR 0xBC, CHR ''s''], 1000),
     (''ms'', 1000000), (''s'', 1000000000), (''m'', 60000000000), (''h'', 3600000000000)]"

fun leadingInt :: "string \<Rightarrow> nat \<Rightarrow> (nat \<times> string) option" where
  "leadingInt [] x = Some (x, [])"
| "leadingInt (c # s) x =
     (if \<not> is_digit c then Some (x, c # s)
      else if x > 2 ^ 63 div 10 then None
      else let y = x * 10 + (byte c - 48) in if y > 2 ^ 63 then None else leadingInt s y)"

text \<open>Digits after the point; those that no longer fit are read and ignored. \<open>scale\<close> is the power of ten.\<close>

fun leadingFraction :: "string \<Rightarrow> nat \<Rightarrow> nat \<Rightarrow> bool \<Rightarrow> nat \<times> nat \<times> string" where
  "leadingFraction [] x scale over = (x, scale, [])"
| "leadingFraction (c # s) x scale over =
     (if \<not> is_digit c then (x, scale, c # s)
      else if over then leadingFraction s x scale True
      else if x > (2 ^ 63 - 1) div 10 then leadingFraction s x scale True
      else let y = x * 10 + (byte c - 48) in
        if y > 2 ^ 63 then leadingFraction s x scale True else leadingFraction s y (scale * 10) False)"

definition fraction_part :: "string \<Rightarrow> nat \<times> nat \<times> string \<times> bool" where
  "fraction_part s =
     (if prefix ''.'' s then (case leadingFraction (tl s) 0 1 False of (f, scale, r) \<Rightarrow> (f, scale, r, length r \<noteq> length (tl s)))
      else (0, 1, s, False))"

definition unit_value :: "nat \<Rightarrow> nat \<Rightarrow> nat \<Rightarrow> nat \<Rightarrow> nat option" where
  "unit_value v f scale unit =
     (if v > 2 ^ 63 div unit then None
      else if f > 0
      then let w = v * unit + nat (trunc (rnd (rnd (of_nat f) * rnd (of_nat unit / of_nat scale)))) in
        if w > 2 ^ 63 then None else Some w
      else Some (v * unit))"

abbreviation unit_text :: "string \<Rightarrow> string" where
  "unit_text s \<equiv> takeWhile (\<lambda>c. c \<noteq> CHR ''.'' \<and> \<not> is_digit c) s"

lemma leadingInt_length: "leadingInt s x = Some (y, r) \<Longrightarrow> length r \<le> length s"
  by (induction s x rule: leadingInt.induct) (auto simp: Let_def split: if_splits)

lemma leadingFraction_length: "leadingFraction s x scale over = (y, k, r) \<Longrightarrow> length r \<le> length s"
proof (induction s arbitrary: x scale over)
  case (Cons c s)
  then show ?case by (auto simp: Let_def split: if_splits dest!: Cons.IH)
qed simp

lemma fraction_part_length: "fraction_part s = (f, k, r, post) \<Longrightarrow> length r \<le> length s"
  using leadingFraction_length [of "tl s" 0 1 False] by (fastforce simp: fraction_part_def split: if_splits prod.splits)

text \<open>One round of the loop of \<open>time.ParseDuration\<close>: a number and a unit, its value and what follows.\<close>

definition std_step :: "string \<Rightarrow> (nat \<times> string) option" where
  "std_step s =
     (if \<not> (hd s = CHR ''.'' \<or> is_digit (hd s)) then None
      else (case leadingInt s 0 of
              None \<Rightarrow> None
            | Some (v, s1) \<Rightarrow>
                (case fraction_part s1 of (f, scale, s2, post) \<Rightarrow>
                   if length s1 = length s \<and> \<not> post then None
                   else if unit_text s2 = [] then None
                   else (case map_of unitMap (unit_text s2) of
                           None \<Rightarrow> None
                         | Some unit \<Rightarrow>
                             map_option (\<lambda>w. (w, drop (length (unit_text s2)) s2)) (unit_value v f scale unit)))))"

lemma std_step_shorter:
  assumes "std_step s = Some (w, r)" shows "length r < length s"
proof -
  from assms obtain v s1 where s1: "leadingInt s 0 = Some (v, s1)" by (auto simp: std_step_def split: if_splits option.splits)
  obtain f scale s2 post where s2: "fraction_part s1 = (f, scale, s2, post)" by (cases "fraction_part s1")
  from assms s1 s2 have r: "r = drop (length (unit_text s2)) s2" "unit_text s2 \<noteq> []"
    by (auto simp: std_step_def split: if_splits option.splits)
  have "length s2 \<le> length s"
    using leadingInt_length [OF s1] fraction_part_length [OF s2] by simp
  moreover have "0 < length (unit_text s2)" "length (unit_text s2) \<le> length s2"
    using r(2) by (auto simp: length_takeWhile_le simp del: takeWhile_eq_Nil_iff)
  ultimately show ?thesis unfolding r(1) length_drop by linarith
qed

function std_loop :: "string \<Rightarrow> nat \<Rightarrow> nat option" where
  "std_loop s d =
     (if s = [] then Some d
      else (case std_step s of
              None \<Rightarrow> None
            | Some (w, r) \<Rightarrow> let d' = (d + w) mod 2 ^ 64 in if d' > 2 ^ 63 then None else std_loop r d'))"
  by pat_completeness auto
termination
  by (relation "measure (\<lambda>(s, d). length s)") (auto simp: std_step_shorter)

declare std_loop.simps [simp del]

definition std_ParseDuration :: "string \<Rightarrow> duration option" where
  "std_ParseDuration s =
     (let neg = prefix ''-'' s; s1 = (if prefix ''-'' s \<or> prefix ''+'' s then tl s else s) in
      if s1 = ''0'' then Some 0
      else if s1 = [] then None
      else (case std_loop s1 0 of
              None \<Rightarrow> None
            | Some d \<Rightarrow> if neg then Some (- int d) else if d > 2 ^ 63 - 1 then None else Some (int d)))"

text \<open>\<open>Duration.String\<close>: fractions without trailing zeros, no leading zero units.\<close>

definition frac_text :: "nat \<Rightarrow> nat \<Rightarrow> string" where
  "frac_text u prec =
     (let ds = dec_nat (u mod 10 ^ prec);
          kept = rev (dropWhile (\<lambda>c. c = CHR ''0'') (rev (replicate (prec - length ds) (CHR ''0'') @ ds)))
      in if kept = [] then [] else ''.'' @ kept)"

definition duration_String :: "duration \<Rightarrow> string" where
  "duration_String d =
     (let u = nat \<bar>d\<bar>; sign = (if d < 0 then ''-'' else []) in
      if u = 0 then ''0s''
      else if u < 1000 then sign @ dec_nat u @ ''ns''
      else if u < 1000000 then sign @ dec_nat (u div 1000) @ frac_text u 3 @ [CHR 0xC2, CHR 0xB5, CHR ''s'']
      else if u < 1000000000 then sign @ dec_nat (u div 1000000) @ frac_text u 6 @ ''ms''
      else let secs = u div 1000000000; mins = secs div 60; hours = mins div 60 in
        sign @ (if hours > 0 then dec_nat hours @ ''h'' else []) @
        (if mins > 0 then dec_nat (mins mod 60) @ ''m'' else []) @
        dec_nat (secs mod 60) @ frac_text u 9 @ ''s'')"

text \<open>\<open>strconv.ParseFloat\<close> on texts of digits, points and a leading minus.\<close>

definition parse_float :: "string \<Rightarrow> rat option" where
  "parse_float num =
     (let body = (if prefix ''-'' num then tl num else num);
          ip = takeWhile is_digit body; r = dropWhile is_digit body;
          fp = (if prefix ''.'' r then tl r else []);
          x = rnd (of_nat (digits_val ip) + of_nat (digits_val fp) / 10 ^ length fp) in
      if (r \<noteq> [] \<and> \<not> prefix ''.'' r) \<or> \<not> list_all is_digit fp \<or> (ip = [] \<and> fp = []) \<or> x \<ge> 2 ^ 1024 then None
      else Some (if prefix ''-'' num then - x else x))"

subsection \<open>The package duration\<close>

definition Week :: int where "Week = 7 * Day"
definition MonthUnit :: int where "MonthUnit = 30 * Day"

definition extendedUnits :: "(string \<times> duration) list" where
  "extendedUnits = [(''d'', Day), (''w'', Week), (''mo'', MonthUnit)]"

definition dur_isLetter :: "char \<Rightarrow> bool" where
  "dur_isLetter b \<longleftrightarrow> 97 \<le> byte b \<and> byte b \<le> 122 \<or> 65 \<le> byte b \<and> byte b \<le> 90"

fun scanInt_loop :: "string \<Rightarrow> int \<Rightarrow> int option" where
  "scanInt_loop [] n = Some n"
| "scanInt_loop (c # s) n = (if \<not> is_digit c then None else scanInt_loop s (i64 (i64 (n * 10) + int (byte c - 48))))"

definition scanInt :: "string \<Rightarrow> int option" where
  "scanInt s =
     (let sign = (if prefix ''-'' s then - 1 else 1);
          s1 = (if prefix ''+'' s \<or> prefix ''-'' s then tl s else s) in
      if s1 = [] then None else map_option (\<lambda>n. i64 (n * sign)) (scanInt_loop s1 0))"

definition num_text :: "string \<Rightarrow> string" where
  "num_text rest = takeWhile (\<lambda>c. is_digit c \<or> c = CHR ''-'' \<or> c = CHR ''+'') rest"

definition dur_parseSegment :: "unitab \<Rightarrow> string \<Rightarrow> (duration \<times> nat) option" where
  "dur_parseSegment u rest =
     (let num = length (num_text rest);
          unit = num + length (takeWhile dur_isLetter (drop num rest)) in
      if num = 0 then None
      else if unit = num then None
      else (case map_of extendedUnits (ToLower u (drop num (take unit rest))) of
              Some unitSize \<Rightarrow> map_option (\<lambda>n. (dmul n unitSize, unit)) (scanInt (take num rest))
            | None \<Rightarrow> map_option (\<lambda>parsed. (parsed, unit)) (std_ParseDuration (take unit rest))))"

lemma dur_parseSegment_consumes:
  assumes "dur_parseSegment u s = Some (d, n)" "s \<noteq> []" shows "length (drop n s) < length s"
proof -
  from assms(1) have "n \<noteq> 0" by (auto simp: dur_parseSegment_def Let_def split: if_splits option.splits)
  with assms(2) show ?thesis by simp
qed

function dur_loop :: "unitab \<Rightarrow> string \<Rightarrow> duration \<Rightarrow> duration option" where
  "dur_loop u rest acc =
     (if rest = [] then Some acc
      else (case dur_parseSegment u rest of
              None \<Rightarrow> None
            | Some (parsed, consumed) \<Rightarrow> dur_loop u (drop consumed rest) (dadd acc parsed)))"
  by pat_completeness auto
termination
  by (relation "measure (\<lambda>(u, rest, acc). length rest)") (auto dest: dur_parseSegment_consumes)

declare dur_loop.simps [simp del]

definition dur_Parse :: "unitab \<Rightarrow> string \<Rightarrow> duration option" where
  "dur_Parse u s = (if s = [] then None else dur_loop u s 0)"

definition unit_part :: "int \<Rightarrow> string \<Rightarrow> string list" where
  "unit_part n unit = (if n \<noteq> 0 then [dec n @ unit] else [])"

definition dur_Format :: "duration \<Rightarrow> string" where
  "dur_Format d0 =
     (if d0 = 0 then ''0s''
      else let negative = d0 < 0; d = (if negative then i64 (- d0) else d0);
               days = gquot d Day; d1 = dsub d (dmul days Day);
               hours = gquot d1 Hour; d2 = dsub d1 (dmul hours Hour);
               minutes = gquot d2 Minute; d3 = dsub d2 (dmul minutes Minute);
               seconds = gquot d3 Second;
               parts = unit_part days ''d'' @ unit_part hours ''h'' @ unit_part minutes ''m'';
               parts' = parts @ (if seconds \<noteq> 0 \<or> parts = [] then [dec seconds @ ''s''] else []);
               out = Join parts' []
           in if negative then ''-'' @ out else out)"

subsection \<open>The package timeutil\<close>

datatype duration_error = ErrEmptyDuration | ErrInvalidDuration

definition isNumberByte :: "char \<Rightarrow> bool \<Rightarrow> bool" where
  "isNumberByte c atStart \<longleftrightarrow> is_digit c \<or> c = CHR ''.'' \<or> (c = CHR ''-'' \<and> atStart)"

definition scan_unit :: "string \<Rightarrow> string" where
  "scan_unit s = takeWhile (\<lambda>b. \<not> (is_digit b \<or> b = CHR ''.'' \<or> b = CHR ''-'')) s"

definition tu_parseSegment :: "(rat \<Rightarrow> int) \<Rightarrow> string \<Rightarrow> string \<Rightarrow> duration option" where
  "tu_parseSegment ovf num unit =
     (if unit = ''d'' then map_option (\<lambda>v. f2i ovf (rnd (v * rnd (of_int Day)))) (parse_float num)
      else if unit = ''w'' then map_option (\<lambda>v. f2i ovf (rnd (v * rnd (of_int Week)))) (parse_float num)
      else std_ParseDuration (num @ unit))"

definition decodeSegment :: "(rat \<Rightarrow> int) \<Rightarrow> string \<Rightarrow> string \<Rightarrow> duration option" where
  "decodeSegment ovf num unit = (if num = [] then None else tu_parseSegment ovf num unit)"

definition lead_number :: "string \<Rightarrow> string" where
  "lead_number s = (if s \<noteq> [] \<and> isNumberByte (hd s) True then hd s # takeWhile (\<lambda>c. isNumberByte c False) (tl s) else [])"

text \<open>The loop over the bytes, from the start of a number: \<open>s\<close> is what is left.\<close>

function ext_loop :: "(rat \<Rightarrow> int) \<Rightarrow> string \<Rightarrow> duration \<Rightarrow> bool \<Rightarrow> duration option" where
  "ext_loop ovf s acc sawAny =
     (if s = [] then (if sawAny then Some acc else None)
      else let num = lead_number s; rest = drop (length num) s in
        if rest = [] then None
        else (case decodeSegment ovf num (scan_unit rest) of
                None \<Rightarrow> None
              | Some seg \<Rightarrow> ext_loop ovf (drop (length (scan_unit rest)) rest) (dadd acc seg) True))"
  by pat_completeness auto
termination
proof (relation "measure (\<lambda>(ovf, s, acc, saw). length s)", goal_cases)
  case (2 ovf s acc saw num rest seg)
  then have "lead_number s \<noteq> []" by (auto simp: decodeSegment_def)
  with 2 show ?case by (cases "length (lead_number s)") auto
qed simp

declare ext_loop.simps [simp del]

definition parseExtendedDuration :: "(rat \<Rightarrow> int) \<Rightarrow> string \<Rightarrow> duration_error + duration" where
  "parseExtendedDuration ovf s = (case ext_loop ovf s 0 False of None \<Rightarrow> Inl ErrInvalidDuration | Some d \<Rightarrow> Inr d)"

definition tu_ParseDuration :: "(rat \<Rightarrow> int) \<Rightarrow> string \<Rightarrow> duration_error + duration" where
  "tu_ParseDuration ovf s =
     (if s = [] then Inl ErrEmptyDuration
      else (case std_ParseDuration s of Some d \<Rightarrow> Inr d | None \<Rightarrow> parseExtendedDuration ovf s))"

definition take_unit :: "duration \<Rightarrow> string \<Rightarrow> duration \<times> string list \<Rightarrow> duration \<times> string list" where
  "take_unit unitSize unit st =
     (case st of (d, parts) \<Rightarrow>
        if d \<ge> unitSize then (dsub d (dmul (gquot d unitSize) unitSize), parts @ [dec (gquot d unitSize) @ unit]) else (d, parts))"

definition HumanizeDuration :: "duration \<Rightarrow> string" where
  "HumanizeDuration d0 =
     (if d0 = 0 then ''0s''
      else let negative = d0 < 0; d = (if negative then i64 (- d0) else d0); sign = (if negative then ''-'' else []) in
        if d < Second then sign @ duration_String d
        else let (_, parts) = take_unit Second ''s'' (take_unit Minute ''m'' (take_unit Hour ''h''
                   (take_unit Day ''d'' (take_unit Week ''w'' (d, []))))) in
          sign @ Join parts '' '')"

definition Earliest :: "gotime list \<Rightarrow> gotime" where
  "Earliest ts = foldl (\<lambda>best t. if t = 0 then best else if best = 0 \<or> time_Before t best then t else best) 0 ts"

definition Latest :: "gotime list \<Rightarrow> gotime" where
  "Latest ts = foldl (\<lambda>best t. if t = 0 then best else if best = 0 \<or> time_After t best then t else best) 0 ts"

definition NextOccurrence :: "gotime \<Rightarrow> int \<Rightarrow> int \<Rightarrow> gotime" where
  "NextOccurrence from hour minute =
     (let candidate = time_Date (time_Year from) (time_Month from) (time_Day from) hour minute in
      if \<not> time_After candidate from then time_Add candidate Day else candidate)"

definition TruncateToDay :: "gotime \<Rightarrow> gotime" where
  "TruncateToDay t = time_Date (time_Year t) (time_Month t) (time_Day t) 0 0"

definition TruncateToHour :: "gotime \<Rightarrow> gotime" where
  "TruncateToHour t = time_Date (time_Year t) (time_Month t) (time_Day t) (time_Hour t) 0"

subsection \<open>Lemmas\<close>

lemma foldl_digits_ge: "x * 10 ^ length ds \<le> foldl (\<lambda>n c. 10 * n + (byte c - 48)) x ds"
proof (induction ds arbitrary: x)
  case (Cons c ds)
  have "x * 10 ^ length (c # ds) = (10 * x) * 10 ^ length ds" by simp
  also have "\<dots> \<le> (10 * x + (byte c - 48)) * 10 ^ length ds" by (rule mult_le_mono1) simp
  also have "\<dots> \<le> foldl (\<lambda>n c. 10 * n + (byte c - 48)) (10 * x + (byte c - 48)) ds" by (rule Cons.IH)
  finally show ?case by simp
qed simp

lemma leadingInt_digits:
  "list_all is_digit ds \<Longrightarrow> u = [] \<or> \<not> is_digit (hd u) \<Longrightarrow>
   foldl (\<lambda>n c. 10 * n + (byte c - 48)) x ds \<le> 2 ^ 63 \<Longrightarrow>
   leadingInt (ds @ u) x = Some (foldl (\<lambda>n c. 10 * n + (byte c - 48)) x ds, u)"
proof (induction ds arbitrary: x)
  case Nil
  then show ?case by (cases u) auto
next
  case (Cons c ds)
  let ?y = "10 * x + (byte c - 48)"
  have "?y \<le> ?y * 10 ^ length ds" by simp
  also note foldl_digits_ge [of ?y ds]
  also have "foldl (\<lambda>n c. 10 * n + (byte c - 48)) ?y ds \<le> 2 ^ 63" using Cons.prems(3) by simp
  finally have y: "?y \<le> 2 ^ 63" .
  then have "\<not> x > 2 ^ 63 div 10" by simp
  with y Cons show ?case by (simp add: mult.commute [of x])
qed

lemma leadingInt_dec:
  assumes "n \<le> 2 ^ 63" "u \<noteq> []" "\<not> is_digit (hd u)"
  shows "leadingInt (dec_nat n @ u) 0 = Some (n, u)"
proof -
  have "foldl (\<lambda>n c. 10 * n + (byte c - 48)) 0 (dec_nat n) = n"
    using digits_val_dec_nat [of n] unfolding digits_val_def .
  then show ?thesis using leadingInt_digits [of "dec_nat n" u 0] assms by simp
qed

lemma dec_nat_no_sign: "\<not> prefix ''-'' (dec_nat n @ u)" "\<not> prefix ''+'' (dec_nat n @ u)"
  using hd_dec_nat_digit [of n] by (cases "dec_nat n"; auto simp: is_digit_def)+

text \<open>A whole number with one of the library's units reads as its multiple.\<close>

lemma std_ParseDuration_dec:
  assumes u: "(u, k) \<in> set [(''s'', 1000000000), (''m'', 60000000000), (''h'', 3600000000000)]" and n: "n * k \<le> 2 ^ 63 - 1"
  shows "std_ParseDuration (dec_nat n @ u) = Some (int (n * k))"
proof -
  have u': "u \<noteq> []" "\<not> is_digit (hd u)" "hd u \<noteq> CHR ''.''" "unit_text u = u" "map_of unitMap u = Some k" "0 < k" "fraction_part u = (0, 1, u, False)"
    using u by (auto simp: is_digit_def unitMap_def fraction_part_def)
  have "n * 1 \<le> n * k" using u'(6) by (intro mult_le_mono2) simp
  then have n63: "n \<le> 2 ^ 63" using n by linarith
  have "n \<le> 2 ^ 63 div k" using n u'(6) by (simp add: less_eq_div_iff_mult_less_eq)
  then have "unit_value n 0 1 k = Some (n * k)" by (simp add: unit_value_def)
  then have "std_step (dec_nat n @ u) = Some (n * k, [])"
    using hd_dec_nat_digit [of n] u'(1) unfolding std_step_def leadingInt_dec [OF n63 u'(1,2)] option.case prod.case u'(4,5,7)
    by simp
  then have "std_loop (dec_nat n @ u) 0 = Some (n * k)"
    using n u'(1) by (simp add: std_loop.simps [of "dec_nat n @ u"] std_loop.simps [of "[]"])
  moreover note dec_nat_no_sign [of n u]
  moreover have "dec_nat n @ u \<noteq> ''0''"
    using u'(1) dec_nat_nonempty [of n] by (metis append_eq_Cons_conv append_is_Nil_conv)
  ultimately show ?thesis using n u'(1) by (simp add: std_ParseDuration_def)
qed

lemma scanInt_loop_digits:
  "list_all is_digit ds \<Longrightarrow>
   scanInt_loop ds (i64 (int x)) = Some (i64 (int (foldl (\<lambda>n c. 10 * n + (byte c - 48)) x ds)))"
proof (induction ds arbitrary: x)
  case (Cons c ds)
  have "i64 (i64 (i64 (int x) * 10) + int (byte c - 48)) = i64 (int (10 * x + (byte c - 48)))"
    by (simp add: mult.commute)
  with Cons.prems Cons.IH [of "10 * x + (byte c - 48)"] show ?case
    by (simp only: scanInt_loop.simps foldl_Cons list.pred_inject if_False not_not if_True simp_thms)
qed simp

lemma scanInt_dec: "n \<le> 2 ^ 63 - 1 \<Longrightarrow> scanInt (dec_nat n) = Some (int n)"
  using scanInt_loop_digits [of "dec_nat n" 0] digits_val_dec_nat [of n] dec_nat_no_sign [of n "[]"]
  by (simp add: scanInt_def Let_def digits_val_def is_int64_def)

definition segment_units :: "(string \<times> int) list" where
  "segment_units = [(''w'', Week), (''d'', Day), (''h'', Hour), (''m'', Minute), (''s'', Second)]"

lemma dec_nat_01: "dec_nat 0 = ''0''" "dec_nat 1 = ''1''"
  by code_simp+

lemma ToLower_lower:
  assumes "\<And>c. c \<in> set s \<Longrightarrow> byte c < 128 \<and> \<not> (65 \<le> byte c \<and> byte c \<le> 90)"
  shows "ToLower u s = s"
proof -
  have "EncodeRune (rune_lower u (byte c)) = [c]" if "c \<in> set s" for c
    using assms [OF that] by (auto simp: rune_lower_def EncodeRune_def)
  then have "map (\<lambda>c. EncodeRune (rune_lower u (byte c))) s = map (\<lambda>c. [c]) s" by simp
  moreover have "ToLower u s = concat (map (\<lambda>c. EncodeRune (rune_lower u (byte c))) s)"
    using assms by (simp add: ToLower_def runes_ascii o_def)
  ultimately show ?thesis by (simp only: concat_map_singleton map_ident)
qed

lemma ToLower_unit: "(w, k) \<in> set segment_units \<Longrightarrow> ToLower u w = w"
  by (intro ToLower_lower) (auto simp: segment_units_def)

lemma segment_unit_letters: "(w, k) \<in> set segment_units \<Longrightarrow> list_all dur_isLetter w \<and> w \<noteq> [] \<and> 0 < k"
  by (auto simp: segment_units_def dur_isLetter_def Week_def time_units)

lemma letter_not_number: "dur_isLetter c \<Longrightarrow> \<not> (is_digit c \<or> c = CHR ''-'' \<or> c = CHR ''+'')"
  by (auto simp: dur_isLetter_def is_digit_def)

lemma digit_not_letter: "is_digit c \<Longrightarrow> \<not> dur_isLetter c"
  by (auto simp: dur_isLetter_def is_digit_def)

lemma segment_texts:
  assumes "(w, k) \<in> set segment_units" "r = [] \<or> is_digit (hd r)"
  shows "num_text (dec_nat n @ w @ r) = dec_nat n" "takeWhile dur_isLetter (w @ r) = w"
proof -
  note w = segment_unit_letters [OF assms(1)]
  then have "takeWhile (\<lambda>c. is_digit c \<or> c = CHR ''-'' \<or> c = CHR ''+'') (w @ r) = []"
    using letter_not_number [of "hd w"] by (cases w) auto
  moreover have "is_digit c" if "c \<in> set (dec_nat n)" for c
    using dec_nat_digits [of n] that by (simp add: list_all_iff)
  ultimately show "num_text (dec_nat n @ w @ r) = dec_nat n" by (simp add: num_text_def takeWhile_append2)
  have "takeWhile dur_isLetter r = []" using assms(2) digit_not_letter [of "hd r"] by (cases r) auto
  then show "takeWhile dur_isLetter (w @ r) = w" using w by (simp add: takeWhile_append2 list_all_iff)
qed

lemma dur_parseSegment_part:
  assumes "(w, k) \<in> set segment_units" "r = [] \<or> is_digit (hd r)" "int n * k \<le> 2 ^ 63 - 1"
  shows "dur_parseSegment u (dec_nat n @ w @ r) = Some (int n * k, length (dec_nat n @ w))"
proof -
  note t = segment_texts(1) [OF assms(1,2), of n] segment_texts(2) [OF assms(1,2)] and w = segment_unit_letters [OF assms(1)]
  let ?s = "dec_nat n @ w @ r"
  have tk: "take (length (dec_nat n) + length w) ?s = dec_nat n @ w" by simp
  have "int n * 1 \<le> int n * k" using w by (intro mult_left_mono) auto
  then have "int n \<le> 2 ^ 63 - 1" using assms(3) by simp
  then have n: "n \<le> 2 ^ 63 - 1" by simp
  consider (ext) "map_of extendedUnits w = Some k"
    | (std) "map_of extendedUnits w = None" "(w, nat k) \<in> set [(''s'', 1000000000), (''m'', 60000000000), (''h'', 3600000000000)]"
    using assms(1) by (auto simp: segment_units_def extendedUnits_def time_units Week_def)
  then show ?thesis
  proof cases
    case ext
    have "0 \<le> int n * k" using w by simp
    then have "i64 (int n * k) = int n * k" using assms(3) by (intro i64_id) (simp add: is_int64_def)
    with ext show ?thesis
      using w scanInt_dec [OF n] ToLower_unit [OF assms(1)] by (simp add: dur_parseSegment_def Let_def t)
  next
    case std
    have nk: "n * nat k \<le> 2 ^ 63 - 1" using assms(3) w by (simp add: nat_mult_distrib [symmetric] flip: of_nat_le_iff [where 'a = int])
    have "std_ParseDuration (dec_nat n @ w) = Some (int n * k)"
      using std_ParseDuration_dec [OF std(2) nk] w by simp
    then show ?thesis using w std(1) ToLower_unit [OF assms(1)] by (simp add: dur_parseSegment_def Let_def t tk)
  qed
qed

text \<open>Parts are numbers with a unit; \<open>part_sum\<close> is what they add up to.\<close>

type_synonym part = "nat \<times> string \<times> int"

definition part_text :: "part \<Rightarrow> string" where
  "part_text p = dec_nat (fst p) @ fst (snd p)"

definition part_sum :: "part list \<Rightarrow> int" where
  "part_sum ps = sum_list (map (\<lambda>p. int (fst p) * snd (snd p)) ps)"

definition unit_parts :: "part list \<Rightarrow> bool" where
  "unit_parts ps \<longleftrightarrow> (\<forall>p \<in> set ps. snd p \<in> set segment_units)"

lemma part_sum_simps [simp]: "part_sum [] = 0" "part_sum (p # ps) = int (fst p) * snd (snd p) + part_sum ps" "part_sum (ps @ qs) = part_sum ps + part_sum qs"
  by (simp_all add: part_sum_def)

lemma unit_parts_simps [simp]:
  "unit_parts []" "unit_parts (p # ps) \<longleftrightarrow> snd p \<in> set segment_units \<and> unit_parts ps"
  "unit_parts (ps @ qs) \<longleftrightarrow> unit_parts ps \<and> unit_parts qs"
  by (auto simp: unit_parts_def)

lemma part_sum_nonneg: "unit_parts ps \<Longrightarrow> 0 \<le> part_sum ps"
proof (induction ps)
  case (Cons p ps)
  then have "0 < snd (snd p)" using segment_unit_letters [of "fst (snd p)" "snd (snd p)"] by simp
  with Cons show ?case by simp
qed simp

lemma part_text_digit: "part_text p \<noteq> []" "is_digit (hd (part_text p))"
  using hd_dec_nat_digit [of "fst p"] dec_nat_nonempty [of "fst p"] by (auto simp: part_text_def)

lemma dur_loop_parts:
  "unit_parts ps \<Longrightarrow> 0 \<le> acc \<Longrightarrow> acc + part_sum ps \<le> 2 ^ 63 - 1 \<Longrightarrow>
   dur_loop u (concat (map part_text ps)) acc = Some (acc + part_sum ps)"
proof (induction ps arbitrary: acc)
  case (Cons p ps)
  obtain n w k where p: "p = (n, w, k)" by (cases p)
  let ?r = "concat (map part_text ps)"
  have w: "(w, k) \<in> set segment_units" using Cons.prems(1) p by simp
  have k: "0 < k" using segment_unit_letters [OF w] by simp
  then have nk: "0 \<le> int n * k" by simp
  have ps: "unit_parts ps" using Cons.prems(1) by simp
  have le: "int n * k \<le> 2 ^ 63 - 1" "acc + int n * k \<le> 2 ^ 63 - 1"
    using Cons.prems(2,3) part_sum_nonneg [OF ps] p nk by simp_all
  have r: "?r = [] \<or> is_digit (hd ?r)" using part_text_digit by (cases ps) (auto simp: hd_append)
  have "i64 (acc + int n * k) = acc + int n * k" using le Cons.prems(2) nk by (intro i64_id) (simp add: is_int64_def)
  then have "dur_loop u (dec_nat n @ w @ ?r) acc = dur_loop u ?r (acc + int n * k)"
    using dur_parseSegment_part [OF w r le(1), of u] by (simp add: dur_loop.simps [of u "dec_nat n @ w @ ?r"])
  also have "\<dots> = Some (acc + int n * k + part_sum ps)"
    using Cons.IH [OF ps, of "acc + int n * k"] Cons.prems(2,3) nk p by simp
  finally show ?case by (simp add: p part_text_def [of "(n, w, k)"])
qed (simp add: dur_loop.simps)

lemma Join_Nil_sep: "Join ps [] = concat ps"
  by (induction ps "[] :: string" rule: Join.induct) auto

lemma div_mult_le: "0 \<le> d div k * k" "d div k * k \<le> d" if "0 \<le> d" "0 < k" for d k :: int
proof -
  show "0 \<le> d div k * k" using that by (simp add: pos_imp_zdiv_nonneg_iff)
  show "d div k * k \<le> d" using div_mult_mod_eq [of d k] pos_mod_sign [OF that(2), of d] by linarith
qed

text \<open>Splitting a duration: what \<open>Format\<close> and \<open>HumanizeDuration\<close> do with a unit.\<close>

lemma split_unit:
  assumes "0 \<le> d" "d < 2 ^ 63" "0 < unitSize"
  shows "gquot d unitSize = d div unitSize" "dsub d (dmul (d div unitSize) unitSize) = d mod unitSize"
    "0 \<le> d mod unitSize" "d mod unitSize < 2 ^ 63" "0 \<le> d div unitSize"
proof -
  show q: "gquot d unitSize = d div unitSize" using assms by (simp add: gquot_nonneg)
  note le = div_mult_le [OF assms(1,3)]
  have "i64 (d div unitSize * unitSize) = d div unitSize * unitSize" "i64 (d - d div unitSize * unitSize) = d - d div unitSize * unitSize"
    using le assms by (auto intro!: i64_id simp: is_int64_def)
  then show "dsub d (dmul (d div unitSize) unitSize) = d mod unitSize"
    by (simp only: minus_div_mult_eq_mod)
  show "0 \<le> d mod unitSize" "d mod unitSize < 2 ^ 63" "0 \<le> d div unitSize"
    using assms zmod_le_nonneg_dividend [of d unitSize] by (auto simp: pos_imp_zdiv_nonneg_iff)
qed

definition kept :: "int \<Rightarrow> string \<Rightarrow> int \<Rightarrow> part list" where
  "kept n w k = (if n = 0 then [] else [(nat n, w, k)])"

lemma kept_simps:
  assumes "0 \<le> n"
  shows "unit_part n w = map part_text (kept n w k)" "part_sum (kept n w k) = n * k"
    "(w, k) \<in> set segment_units \<Longrightarrow> unit_parts (kept n w k)"
  using assms by (auto simp: unit_part_def kept_def part_text_def dec_def)

definition format_parts :: "duration \<Rightarrow> part list" where
  "format_parts d =
     (let d1 = d mod Day; d2 = d1 mod Hour; d3 = d2 mod Minute;
          ps = kept (d div Day) ''d'' Day @ kept (d1 div Hour) ''h'' Hour @ kept (d2 div Minute) ''m'' Minute in
      ps @ (if d3 div Second \<noteq> 0 \<or> ps = [] then [(nat (d3 div Second), ''s'', Second)] else []))"

lemma units_in: "(''w'', Week) \<in> set segment_units" "(''d'', Day) \<in> set segment_units" "(''h'', Hour) \<in> set segment_units"
  "(''m'', Minute) \<in> set segment_units" "(''s'', Second) \<in> set segment_units"
  by (simp_all add: segment_units_def)

lemma units_pos: "0 < Week" "0 < Day" "0 < Hour" "0 < Minute" "0 < Second"
  by (simp_all add: time_units Week_def)

lemma mods_div_Second:
  "d div Day * Day + (d mod Day div Hour * Hour + (d mod Day mod Hour div Minute * Minute +
     d mod Day mod Hour mod Minute div Second * Second)) = d div Second * Second" if "0 \<le> d"
proof -
  have "d mod Day mod Hour mod Minute mod Second = d mod Second"
    by (simp add: mod_mod_cancel time_units)
  then show ?thesis
    using div_mult_mod_eq [of d Day] div_mult_mod_eq [of "d mod Day" Hour] div_mult_mod_eq [of "d mod Day mod Hour" Minute]
      div_mult_mod_eq [of "d mod Day mod Hour mod Minute" Second] div_mult_mod_eq [of d Second] by linarith
qed

lemma Format_parts:
  assumes "0 < d" "d < 2 ^ 63"
  shows "dur_Format d = concat (map part_text (format_parts d))" "unit_parts (format_parts d)"
    "part_sum (format_parts d) = d div Second * Second"
proof -
  have d0: "0 \<le> d" using assms by simp
  note D = split_unit [OF d0 assms(2) units_pos(2)]
  note H = split_unit [OF D(3,4) units_pos(3)]
  note M = split_unit [OF H(3,4) units_pos(4)]
  note S = split_unit [OF M(3,4) units_pos(5)]
  note k = kept_simps(1) [OF D(5), of "''d''" Day] kept_simps(1) [OF H(5), of "''h''" Hour] kept_simps(1) [OF M(5), of "''m''" Minute]
  have s: "dec n @ ''s'' = part_text (nat n, ''s'', Second)" if "0 \<le> n" for n
    using that by (simp add: part_text_def dec_def)
  have nd: "(d < 0) = False" "(d = 0) = False" using assms by auto
  show "dur_Format d = concat (map part_text (format_parts d))"
    using S(5) unfolding dur_Format_def format_parts_def Let_def nd if_False D(1,2) H(1,2) M(1,2) S(1) k Join_Nil_sep
    by (auto simp: s)
  show "unit_parts (format_parts d)"
    using kept_simps(3) [OF D(5) units_in(2)] kept_simps(3) [OF H(5) units_in(3)] kept_simps(3) [OF M(5) units_in(4)] units_in(5)
    by (simp add: format_parts_def Let_def)
  show "part_sum (format_parts d) = d div Second * Second"
    using mods_div_Second [OF d0] kept_simps(2) [OF D(5)] kept_simps(2) [OF H(5)] kept_simps(2) [OF M(5)] S(5)
    by (cases "d mod Day mod Hour mod Minute div Second = 0") (simp_all add: format_parts_def Let_def)
qed

lemma take_unit_kept:
  assumes "0 \<le> d" "d < 2 ^ 63" "0 < k"
  shows "take_unit k w (d, map part_text ps) = (d mod k, map part_text (ps @ kept (d div k) w k))"
proof (cases "k \<le> d")
  case True
  with assms have "0 < d div k" by (simp add: pos_imp_zdiv_pos_iff)
  then have "dec (d div k) @ w = part_text (nat (d div k), w, k)" by (simp add: part_text_def dec_def)
  then show ?thesis
    using True \<open>0 < d div k\<close> unfolding take_unit_def prod.case split_unit(1,2) [OF assms] by (simp add: kept_def)
next
  case False
  then show ?thesis using assms by (simp add: take_unit_def kept_def)
qed

definition human_parts :: "duration \<Rightarrow> part list" where
  "human_parts d =
     (let d1 = d mod Week; d2 = d1 mod Day; d3 = d2 mod Hour; d4 = d3 mod Minute in
      kept (d div Week) ''w'' Week @ kept (d1 div Day) ''d'' Day @ kept (d2 div Hour) ''h'' Hour @
      kept (d3 div Minute) ''m'' Minute @ kept (d4 div Second) ''s'' Second)"

lemma Humanize_parts:
  assumes "Second \<le> d" "d < 2 ^ 63"
  shows "HumanizeDuration d = Join (map part_text (human_parts d)) '' ''" "unit_parts (human_parts d)"
    "part_sum (human_parts d) = d div Second * Second"
proof -
  have d0: "0 \<le> d" "(d < 0) = False" "(d = 0) = False" "(d < Second) = False" using assms units_pos(5) by auto
  note W = split_unit [OF d0(1) assms(2) units_pos(1)]
  note D = split_unit [OF W(3,4) units_pos(2)]
  note H = split_unit [OF D(3,4) units_pos(3)]
  note M = split_unit [OF H(3,4) units_pos(4)]
  note S = split_unit [OF M(3,4) units_pos(5)]
  have "take_unit Second ''s'' (take_unit Minute ''m'' (take_unit Hour ''h'' (take_unit Day ''d''
      (take_unit Week ''w'' (d, map part_text []))))) =
    (d mod Week mod Day mod Hour mod Minute mod Second, map part_text (human_parts d))"
    unfolding take_unit_kept [OF d0(1) assms(2) units_pos(1)] take_unit_kept [OF W(3,4) units_pos(2)]
      take_unit_kept [OF D(3,4) units_pos(3)] take_unit_kept [OF H(3,4) units_pos(4)] take_unit_kept [OF M(3,4) units_pos(5)]
    by (simp add: human_parts_def Let_def)
  then show "HumanizeDuration d = Join (map part_text (human_parts d)) '' ''"
    unfolding HumanizeDuration_def Let_def d0(2-4) if_False by simp
  show "unit_parts (human_parts d)"
    using kept_simps(3) [OF W(5) units_in(1)] kept_simps(3) [OF D(5) units_in(2)] kept_simps(3) [OF H(5) units_in(3)]
      kept_simps(3) [OF M(5) units_in(4)] kept_simps(3) [OF S(5) units_in(5)]
    by (simp add: human_parts_def Let_def)
  have "d mod Week mod Second = d mod Second" by (simp add: mod_mod_cancel time_units Week_def)
  then have "d div Week * Week + d mod Week div Second * Second = d div Second * Second"
    using div_mult_mod_eq [of d Week] div_mult_mod_eq [of "d mod Week" Second] div_mult_mod_eq [of d Second] by linarith
  then show "part_sum (human_parts d) = d div Second * Second"
    using mods_div_Second [OF W(3)] kept_simps(2) [OF W(5)] kept_simps(2) [OF D(5)] kept_simps(2) [OF H(5)]
      kept_simps(2) [OF M(5)] kept_simps(2) [OF S(5)]
    by (simp add: human_parts_def Let_def)
qed

lemma dur_Parse_part:
  assumes "snd p \<in> set segment_units" "int (fst p) * snd (snd p) \<le> 2 ^ 63 - 1"
  shows "dur_Parse u (part_text p) = Some (int (fst p) * snd (snd p))"
  using dur_loop_parts [of "[p]" 0 u] assms part_text_digit(1) by (simp add: dur_Parse_def)

lemma dur_Parse_parts:
  "unit_parts ps \<Longrightarrow> part_sum ps \<le> 2 ^ 63 - 1 \<Longrightarrow>
   \<exists>vs. map (dur_Parse u) (map part_text ps) = map Some vs \<and> sum_list vs = part_sum ps"
proof (induction ps)
  case (Cons p ps)
  have ps: "unit_parts ps" "0 \<le> part_sum ps" using Cons.prems(1) part_sum_nonneg by auto
  have "0 < snd (snd p)" using Cons.prems(1) segment_unit_letters [of "fst (snd p)" "snd (snd p)"] by simp
  then have p: "0 \<le> int (fst p) * snd (snd p)" by simp
  then obtain vs where "map (dur_Parse u) (map part_text ps) = map Some vs" "sum_list vs = part_sum ps"
    using Cons.IH [OF ps(1)] Cons.prems(2) by auto
  moreover have "dur_Parse u (part_text p) = Some (int (fst p) * snd (snd p))"
    using Cons.prems ps(2) by (intro dur_Parse_part) auto
  ultimately show ?case by (intro exI [of _ "int (fst p) * snd (snd p) # vs"]) simp
qed simp

lemma part_text_no_space: "snd p \<in> set segment_units \<Longrightarrow> CHR '' '' \<notin> set (part_text p)"
  using dec_nat_digits [of "fst p"] by (cases p) (auto simp: part_text_def segment_units_def list_all_iff is_digit_def)

text \<open>The words of \<open>HumanizeDuration\<close> are durations that add up to the whole seconds.\<close>

lemma Humanize_words:
  assumes "Second \<le> d" "d < 2 ^ 63"
  shows "\<exists>vs. map (dur_Parse u) (splitc (CHR '' '') (HumanizeDuration d)) = map Some vs \<and> sum_list vs = d div Second * Second"
proof -
  note f = Humanize_parts [OF assms]
  have d0: "0 \<le> d" using assms(1) units_pos(5) by simp
  have "0 < d div Second" using assms(1) units_pos(5) by (simp add: pos_imp_zdiv_pos_iff)
  then have "part_sum (human_parts d) \<noteq> 0" unfolding f(3) using units_pos(5) by simp
  then have "human_parts d \<noteq> []" by auto
  then have "splitc (CHR '' '') (HumanizeDuration d) = map part_text (human_parts d)"
    unfolding f(1) using f(2) part_text_no_space by (intro splitc_Join) (auto simp: unit_parts_def)
  then show ?thesis
    using dur_Parse_parts [OF f(2), of u] div_mult_le(2) [OF d0 units_pos(5)] assms(2) unfolding f(3) by simp
qed

subsection \<open>Properties\<close>

text \<open>
  \<open>Parse\<close> reads what the two formatters write: every non-negative duration comes back from \<open>Format\<close>, cut to whole
  seconds, and the words that \<open>HumanizeDuration\<close> writes for a second and more are durations that add up to the same.
\<close>

theorem duration_round_trip:
  assumes "0 \<le> d" "d < 2 ^ 63"
  shows "dur_Parse u (dur_Format d) = Some (d div Second * Second) \<and>
    (Second \<le> d \<longrightarrow> (\<exists>vs. map (dur_Parse u) (splitc (CHR '' '') (HumanizeDuration d)) = map Some vs \<and>
       sum_list vs = d div Second * Second))"
proof (cases "d = 0")
  case True
  have "dur_loop u (concat (map part_text [(0, ''s'', Second)])) 0 = Some 0"
    using dur_loop_parts [of "[(0, ''s'', Second)]" 0 u] units_in(5) by simp
  moreover have "part_text (0, ''s'', Second) = ''0s''" by (simp add: part_text_def dec_nat_01)
  ultimately show ?thesis using True units_pos(5) by (simp add: dur_Parse_def dur_Format_def)
next
  case False
  with assms(1) have d: "0 < d" by simp
  note f = Format_parts [OF d assms(2)]
  note div_mult_le [OF assms(1) units_pos(5)]
  then have "dur_loop u (dur_Format d) 0 = Some (d div Second * Second)"
    unfolding f(1) f(3) [symmetric] using dur_loop_parts [OF f(2), of 0 u] assms(2) f(3) by simp
  moreover have "format_parts d \<noteq> []" by (auto simp: format_parts_def Let_def)
  then have "dur_Format d \<noteq> []" unfolding f(1) using part_text_digit(1) by (cases "format_parts d") auto
  ultimately show ?thesis using Humanize_words [OF _ assms(2)] by (simp add: dur_Parse_def)
qed

text \<open>Evaluation for two days, three hours and half a second.\<close>

theorem duration_round_trip_witness:
  "dur_Parse ascii_tab (dur_Format (2 * Day + 3 * Hour + 500000000)) = Some (2 * Day + 3 * Hour)"
  using duration_round_trip [of "2 * Day + 3 * Hour + 500000000" ascii_tab] by (simp add: time_units)

text \<open>A negative duration does not: the sign is read with the first part only.\<close>

lemma negative_round_trip:
  "dur_Format (- (Day + Hour)) = ''-1d1h'' \<and> dur_Parse u ''-1d1h'' = Some (- Day + Hour)"
proof -
  have "dur_parseSegment u ''-1d1h'' = Some (- Day, 3)"
    using ToLower_unit [OF units_in(2), of u]
    by (simp add: dur_parseSegment_def num_text_def is_digit_def dur_isLetter_def extendedUnits_def scanInt_def Let_def
        time_units is_int64_def)
  moreover have "dur_parseSegment u ''1h'' = Some (Hour, 2)"
    using dur_parseSegment_part [OF units_in(3), of "[]" 1 u] by (simp only: dec_nat_01) (simp add: time_units)
  ultimately have "dur_Parse u ''-1d1h'' = Some (- Day + Hour)"
    by (simp add: dur_Parse_def dur_loop.simps [of u "''-1d1h''"] dur_loop.simps [of u "''1h''"] dur_loop.simps [of u "[]"]
        time_units is_int64_def)
  moreover have "dur_Format (- (Day + Hour)) = ''-1d1h''"
    by (simp add: dur_Format_def Let_def time_units is_int64_def gquot_def unit_part_def dec_def dec_nat_01 [unfolded One_nat_def])
  ultimately show ?thesis by simp
qed

text \<open>
  \<open>NextOccurrence\<close> gives the first start, strictly after the given time, of the minute with the given hour and
  minute in UTC, at most a day later.
\<close>

theorem NextOccurrence_first:
  assumes "0 \<le> hour" "hour < 24" "0 \<le> minute" "minute < 60"
  shows "from < NextOccurrence from hour minute \<and> NextOccurrence from hour minute \<le> from + Day \<and>
    time_Hour (NextOccurrence from hour minute) = hour \<and> time_Minute (NextOccurrence from hour minute) = minute \<and>
    (\<forall>t. from < t \<and> time_Hour t = hour \<and> time_Minute t = minute \<and> t mod Minute = 0 \<longrightarrow> NextOccurrence from hour minute \<le> t)"
proof -
  let ?c = "hour * Hour + minute * Minute" and ?n = "NextOccurrence from hour minute"
  have c: "0 \<le> ?c" "?c < Day" using assms by (auto simp: time_units)
  define k m where "k = from div Day" and "m = from mod Day"
  have fr: "from = k * Day + m" "0 \<le> m" "m < Day" unfolding k_def m_def using units_pos(2) by simp_all
  define q where "q = (if m < ?c then k else k + 1)"
  have cand: "time_Date (time_Year from) (time_Month from) (time_Day from) hour minute = k * Day + ?c"
    unfolding Date_of_fields k_def by simp
  then have "time_After (time_Date (time_Year from) (time_Month from) (time_Day from) hour minute) from \<longleftrightarrow> m < ?c"
    using fr(1) by (simp add: time_After_def)
  then have n: "?n = q * Day + hour * Hour + minute * Minute + 0"
    by (simp add: NextOccurrence_def Let_def cand time_Add_def q_def algebra_simps)
  have "from < ?n \<and> ?n \<le> from + Day"
  proof (cases "m < ?c")
    case True
    then have "?n = k * Day + ?c" by (simp add: n q_def)
    with True fr c show ?thesis by linarith
  next
    case False
    then have "?n = k * Day + Day + ?c" by (simp add: n q_def distrib_right)
    with False fr c show ?thesis by linarith
  qed
  then have bounds: "from < ?n" "?n \<le> from + Day" by simp_all
  have clock: "time_Hour ?n = hour" "time_Minute ?n = minute"
    unfolding n using assms units_pos(4) by (intro clock_of_parts; simp)+
  have least: "?n \<le> t" if t: "from < t" "time_Hour t = hour" "time_Minute t = minute" "t mod Minute = 0" for t
  proof (rule ccontr)
    assume "\<not> ?n \<le> t"
    have "t = t div Minute * Minute" using t(4) div_mult_mod_eq [of t Minute] by simp
    moreover have "t div Minute = t div Hour * 60 + minute"
      using t(3) div_mult_mod_eq [of "t div Minute" 60] by (simp add: time_Minute_def Hour_def zdiv_zmult2_eq mult.commute [of 60])
    moreover have "t div Hour = t div Day * 24 + hour"
      using t(2) div_mult_mod_eq [of "t div Hour" 24] by (simp add: time_Hour_def Day_def zdiv_zmult2_eq mult.commute [of 24])
    ultimately have "t = t div Day * Day + ?c" by (simp add: Day_def Hour_def algebra_simps)
    then obtain p where p: "t = p * Day + ?c" by blast
    with \<open>\<not> ?n \<le> t\<close> have "p * Day < q * Day" by (simp add: n)
    then have "p + 1 \<le> q" using units_pos(2) by simp
    then have "(p + 1) * Day \<le> q * Day" using units_pos(2) by (intro mult_right_mono) auto
    with bounds(2) p n t(1) show False by (simp add: algebra_simps)
  qed
  show ?thesis by (intro conjI allI impI bounds clock least) simp_all
qed

text \<open>Evaluation for half past two, asked exactly then: the answer is the next day.\<close>

theorem NextOccurrence_first_witness:
  "5 * Day + 2 * Hour + 30 * Minute < NextOccurrence (5 * Day + 2 * Hour + 30 * Minute) 2 30 \<and>
   time_Hour (NextOccurrence (5 * Day + 2 * Hour + 30 * Minute) 2 30) = 2"
  using NextOccurrence_first [of 2 30 "5 * Day + 2 * Hour + 30 * Minute"] by simp

lemma TruncateToDay_eq: "TruncateToDay t = t - t mod Day"
  by (simp add: TruncateToDay_def Date_of_fields minus_mod_eq_div_mult)

text \<open>\<open>Earliest\<close> and \<open>Latest\<close> ignore zero times and pick the least and the greatest of the others.\<close>

lemma Earliest_least:
  assumes "t \<in> set ts" "\<forall>t \<in> set ts. 0 \<le> t" "t \<noteq> 0"
  shows "Earliest ts \<in> set ts \<and> Earliest ts \<noteq> 0 \<and> Earliest ts \<le> t"
proof -
  have "(foldl f 0 xs = 0 \<longleftrightarrow> (\<forall>t \<in> set xs. t = 0)) \<and> (foldl f 0 xs \<noteq> 0 \<longrightarrow> foldl f 0 xs \<in> set xs) \<and>
      (\<forall>t \<in> set xs. t \<noteq> 0 \<longrightarrow> foldl f 0 xs \<le> t)"
    if "f = (\<lambda>best t. if t = 0 then best else if best = 0 \<or> time_Before t best then t else best)" for f :: "int \<Rightarrow> int \<Rightarrow> int" and xs
    unfolding that by (induction xs rule: rev_induct) (auto simp: time_Before_def)
  from this [OF refl, of ts] assms show ?thesis by (auto simp: Earliest_def)
qed

end
