(* ===== verification/Commands.thy ===== *)
theory Commands
  imports Sql_Escape "HOL-Library.Word"
begin

section \<open>Command lines\<close>

text \<open>
  The packages \<open>exec\<close> (command lines of the PostgreSQL tools) and \<open>walarchive\<close> (archive and restore commands, WAL segment
  names). The shell that reads such a text is \<open>sh_words\<close>: blanks, single quotes and backslashes as in POSIX; a text with any other special
  character outside quotes is not a plain list of words. A \<open>uint32\<close> is a \<open>32 word\<close>.
\<close>

subsection \<open>The package exec\<close>

record Command =
  cmd_Bin :: string
  cmd_Args :: "string list"
  cmd_Env :: "string list"
  cmd_Stdin :: string

definition sh_single :: "string \<Rightarrow> string" where
  "sh_single s = [SQ] @ ReplaceAll s SQ [SQ, CHR 0x5C, SQ, SQ] @ [SQ]"

definition exec_shellQuote :: "string \<Rightarrow> string" where
  "exec_shellQuote s =
     (if s = [] then [SQ, SQ]
      else if \<not> ContainsAny s [CHR '' '', SQ, DQ, CHR ''$'', CHR 0x5C, CHR 0x0A, CHR 0x09] then s
      else sh_single s)"

definition Command_String :: "Command \<Rightarrow> string" where
  "Command_String c = Join ([cmd_Bin c] @ map exec_shellQuote (cmd_Args c)) '' ''"

record PSQLOptions =
  ps_Host :: string
  ps_Port :: int
  ps_User :: string
  ps_Database :: string
  ps_Password :: string
  ps_SQL :: string
  ps_NoPsqlrc :: bool
  ps_TupleOnly :: bool
  ps_NonInteractive :: bool
  ps_Variables :: smap

definition psql_args :: "PSQLOptions \<Rightarrow> string list" where
  "psql_args opts =
     (if ps_Host opts \<noteq> [] then [''-h'', ps_Host opts] else []) @
     (if ps_Port opts > 0 then [''-p'', dec (ps_Port opts)] else []) @
     (if ps_User opts \<noteq> [] then [''-U'', ps_User opts] else []) @
     (if ps_Database opts \<noteq> [] then [''-d'', ps_Database opts] else []) @
     (if ps_NoPsqlrc opts then [''-X''] else []) @
     (if ps_TupleOnly opts then [''-t''] else []) @
     (if ps_NonInteractive opts then [''-q''] else []) @
     concat (map (\<lambda>(k, v). [''-v'', k @ ''='' @ v]) (ps_Variables opts)) @
     (if ps_SQL opts \<noteq> [] then [''-c'', ps_SQL opts] else [])"

definition PSQL :: "PSQLOptions \<Rightarrow> Command" where
  "PSQL opts =
     \<lparr>cmd_Bin = ''psql'', cmd_Args = psql_args opts,
      cmd_Env = (if ps_Password opts \<noteq> [] then [''PGPASSWORD='' @ ps_Password opts] else []), cmd_Stdin = []\<rparr>"

record PGCtlOptions =
  pgctl_DataDir :: string
  pgctl_Action :: string
  pgctl_Mode :: string
  pgctl_Wait :: bool

datatype exec_error = NeedDataDir | NeedAction

definition plainCommand :: "string \<Rightarrow> string list \<Rightarrow> Command" where
  "plainCommand bin args = \<lparr>cmd_Bin = bin, cmd_Args = args, cmd_Env = [], cmd_Stdin = []\<rparr>"

definition PGCtl :: "PGCtlOptions \<Rightarrow> exec_error + Command" where
  "PGCtl opts =
     (if pgctl_DataDir opts = [] then Inl NeedDataDir
      else if pgctl_Action opts = [] then Inl NeedAction
      else Inr (plainCommand ''pg_ctl'' ([pgctl_Action opts, ''-D'', pgctl_DataDir opts] @
        (if pgctl_Mode opts \<noteq> [] then [''-m'', pgctl_Mode opts] else []) @
        (if pgctl_Wait opts then [''-w''] else []))))"

definition PGBaseBackup :: "string \<Rightarrow> int \<Rightarrow> string \<Rightarrow> string \<Rightarrow> Command" where
  "PGBaseBackup host port user target =
     plainCommand ''pg_basebackup'' [''-h'', host, ''-p'', dec port, ''-U'', user, ''-D'', target, ''-Fp'', ''-Xs'', ''-P'', ''-R'']"

definition PGDump :: "string \<Rightarrow> int \<Rightarrow> string \<Rightarrow> string \<Rightarrow> string \<Rightarrow> Command" where
  "PGDump host port user db target =
     plainCommand ''pg_dump'' [''-h'', host, ''-p'', dec port, ''-U'', user, ''-d'', db, ''-Fc'', ''-f'', target]"

definition SQLEscape :: "string \<Rightarrow> string" where
  "SQLEscape s = [SQ] @ ReplaceAll s SQ [SQ, SQ] @ [SQ]"

definition IdentEscape :: "string \<Rightarrow> string" where
  "IdentEscape ident = [DQ] @ ReplaceAll ident DQ [DQ, DQ] @ [DQ]"

subsection \<open>The package walarchive\<close>

definition ProviderS3 :: string where "ProviderS3 = ''s3''"
definition ProviderGCS :: string where "ProviderGCS = ''gcs''"
definition ProviderAzure :: string where "ProviderAzure = ''azure''"
definition ProviderFile :: string where "ProviderFile = ''file''"
definition ToolWALG :: string where "ToolWALG = ''wal-g''"
definition ToolBarman :: string where "ToolBarman = ''barman''"

record Endpoint =
  ep_Provider :: string
  ep_Bucket :: string
  ep_Prefix :: string
  ep_Region :: string
  ep_Endpoint :: string
  ep_StorageClass :: string
  ep_Path :: string

datatype wal_error = BucketRequired string | PathRequired | UnknownProvider string | UnknownTool string
  | SegmentLength nat | SegmentInvalid string

definition Endpoint_Validate :: "Endpoint \<Rightarrow> wal_error option" where
  "Endpoint_Validate e =
     (if ep_Provider e \<in> {ProviderS3, ProviderGCS, ProviderAzure}
      then (if ep_Bucket e = [] then Some (BucketRequired (ep_Provider e)) else None)
      else if ep_Provider e = ProviderFile then (if ep_Path e = [] then Some PathRequired else None)
      else Some (UnknownProvider (ep_Provider e)))"

definition joinURL :: "string \<Rightarrow> string \<Rightarrow> string \<Rightarrow> string" where
  "joinURL scheme bucket pre =
     (let p = TrimLeft (TrimSpace pre) ''/'' in scheme @ bucket @ (if p \<noteq> [] then ''/'' @ p else []))"

definition Endpoint_URL :: "Endpoint \<Rightarrow> string" where
  "Endpoint_URL e =
     (if ep_Provider e = ProviderS3 then joinURL ''s3://'' (ep_Bucket e) (ep_Prefix e)
      else if ep_Provider e = ProviderGCS then joinURL ''gs://'' (ep_Bucket e) (ep_Prefix e)
      else if ep_Provider e = ProviderAzure then joinURL ''azure://'' (ep_Bucket e) (ep_Prefix e)
      else if ep_Provider e = ProviderFile then ''file://'' @ TrimRight (ep_Path e) ''/''
      else [])"

definition wal_shellQuote :: "string \<Rightarrow> string" where
  "wal_shellQuote s =
     (if s = [] then [SQ, SQ]
      else if \<not> ContainsAny s [CHR '' '', SQ, DQ, CHR ''$'', CHR 0x5C] then s
      else sh_single s)"

definition ArchiveCommand :: "string \<Rightarrow> Endpoint \<Rightarrow> wal_error + string" where
  "ArchiveCommand tool ep =
     (case Endpoint_Validate ep of
        Some e \<Rightarrow> Inl e
      | None \<Rightarrow>
          if tool = ToolWALG then Inr (''WALE_S3_PREFIX='' @ Endpoint_URL ep @ '' wal-g wal-push %p'')
          else if tool = ToolBarman
          then Inr (''barman-cloud-wal-archive --endpoint-url '' @ wal_shellQuote (ep_Endpoint ep) @ '' '' @
                    wal_shellQuote (Endpoint_URL ep) @ '' %p'')
          else Inl (UnknownTool tool))"

definition RestoreCommand :: "string \<Rightarrow> Endpoint \<Rightarrow> wal_error + string" where
  "RestoreCommand tool ep =
     (case Endpoint_Validate ep of
        Some e \<Rightarrow> Inl e
      | None \<Rightarrow>
          if tool = ToolWALG then Inr (''WALE_S3_PREFIX='' @ Endpoint_URL ep @ '' wal-g wal-fetch %f %p'')
          else if tool = ToolBarman
          then Inr (''barman-cloud-wal-restore --endpoint-url '' @ wal_shellQuote (ep_Endpoint ep) @ '' '' @
                    wal_shellQuote (Endpoint_URL ep) @ '' %f %p'')
          else Inl (UnknownTool tool))"

text \<open>The verb \<open>%08X\<close> of a \<open>uint32\<close>: eight digits.\<close>

definition hexU :: "nat \<Rightarrow> char" where
  "hexU d = char_of (if d < 10 then 48 + d else 55 + d)"

fun hex_upper :: "nat \<Rightarrow> nat \<Rightarrow> string" where
  "hex_upper 0 n = []"
| "hex_upper (Suc k) n = hex_upper k (n div 16) @ [hexU (n mod 16)]"

definition SegmentFileName :: "32 word \<Rightarrow> 32 word \<Rightarrow> 32 word \<Rightarrow> string" where
  "SegmentFileName timeline logID segID = hex_upper 8 (unat timeline) @ hex_upper 8 (unat logID) @ hex_upper 8 (unat segID)"

text \<open>\<open>fmt.Sscanf\<close> with the verb \<open>%08X\<close>: spaces are skipped, a newline is an error, then one to eight hexadecimal digits of
  either case.\<close>

definition is_hex :: "char \<Rightarrow> bool" where
  "is_hex c \<longleftrightarrow> 48 \<le> byte c \<and> byte c \<le> 57 \<or> 65 \<le> byte c \<and> byte c \<le> 70 \<or> 97 \<le> byte c \<and> byte c \<le> 102"

definition hex_of :: "char \<Rightarrow> nat" where
  "hex_of c = (if byte c \<le> 57 then byte c - 48 else if byte c \<le> 70 then byte c - 55 else byte c - 87)"

function skip_space :: "string \<Rightarrow> string option" where
  "skip_space s =
     (if prefix [CHR 0x0A] s then None
      else if space_len s = 0 then Some s else skip_space (drop (space_len s) s))"
  by pat_completeness auto
termination
proof (relation "measure length")
  fix s :: string
  assume "space_len s \<noteq> 0"
  then show "(drop (space_len s) s, s) \<in> measure length" by (cases s) auto
qed simp

declare skip_space.simps [simp del]

definition scan_hex8 :: "string \<Rightarrow> (32 word \<times> string) option" where
  "scan_hex8 s =
     (case skip_space s of
        None \<Rightarrow> None
      | Some s1 \<Rightarrow>
          (let ds = takeWhile is_hex (take 8 s1) in
           if ds = [] then None
           else Some (of_nat (foldl (\<lambda>n c. 16 * n + hex_of c) 0 ds), drop (length ds) s1)))"

definition ParseSegmentName :: "string \<Rightarrow> wal_error + 32 word \<times> 32 word \<times> 32 word" where
  "ParseSegmentName name =
     (if length name \<noteq> 24 then Inl (SegmentLength (length name))
      else (case scan_hex8 name of
              None \<Rightarrow> Inl (SegmentInvalid name)
            | Some (timeline, r1) \<Rightarrow>
                (case scan_hex8 r1 of
                   None \<Rightarrow> Inl (SegmentInvalid name)
                 | Some (logID, r2) \<Rightarrow>
                     (case scan_hex8 r2 of
                        None \<Rightarrow> Inl (SegmentInvalid name)
                      | Some (segID, _) \<Rightarrow> Inr (timeline, logID, segID)))))"

definition ProviderForScheme :: "unitab \<Rightarrow> string \<Rightarrow> string option" where
  "ProviderForScheme u scheme =
     (let l = ToLower u scheme in
      if l = ''s3'' then Some ProviderS3
      else if l = ''gs'' \<or> l = ''gcs'' then Some ProviderGCS
      else if l = ''azure'' then Some ProviderAzure
      else if l = ''file'' then Some ProviderFile
      else None)"

subsection \<open>The shell\<close>

definition sh_special :: "char \<Rightarrow> bool" where
  "sh_special c \<longleftrightarrow> c \<in> set ([CHR 0x0A, DQ, CHR ''`''] @ '';&|<>()$*?[]#~!{}'')"

abbreviation sh_word :: "string option \<Rightarrow> string" where
  "sh_word cur \<equiv> (case cur of None \<Rightarrow> [] | Some w \<Rightarrow> w)"

fun sh_lex :: "string \<Rightarrow> string option \<Rightarrow> string list option" and sh_quoted :: "string \<Rightarrow> string \<Rightarrow> string list option" where
  "sh_lex [] cur = Some (case cur of None \<Rightarrow> [] | Some w \<Rightarrow> [w])"
| "sh_lex (c # s) cur =
     (if c = CHR '' '' \<or> c = CHR 0x09 then
        (case cur of None \<Rightarrow> sh_lex s None | Some w \<Rightarrow> map_option (\<lambda>ws. w # ws) (sh_lex s None))
      else if c = SQ then sh_quoted s (sh_word cur)
      else if c = CHR 0x5C then
        (case s of [] \<Rightarrow> None | d # s' \<Rightarrow> if d = CHR 0x0A then sh_lex s' cur else sh_lex s' (Some (sh_word cur @ [d])))
      else if sh_special c then None
      else sh_lex s (Some (sh_word cur @ [c])))"
| "sh_quoted [] w = None"
| "sh_quoted (c # s) w = (if c = SQ then sh_lex s (Some w) else sh_quoted s (w @ [c]))"

definition sh_words :: "string \<Rightarrow> string list option" where
  "sh_words s = sh_lex s None"

subsection \<open>The contract of a shell quoting function\<close>

definition sh_plain :: "char \<Rightarrow> bool" where
  "sh_plain c \<longleftrightarrow> \<not> sh_special c \<and> c \<noteq> CHR '' '' \<and> c \<noteq> CHR 0x09 \<and> c \<noteq> SQ \<and> c \<noteq> CHR 0x5C"

text \<open>\<open>t\<close> is read as the word \<open>w\<close>, whatever follows.\<close>

definition reads :: "string \<Rightarrow> string \<Rightarrow> bool" where
  "reads t w \<longleftrightarrow> (\<forall>r. sh_lex (t @ r) None = sh_lex r (Some w))"

lemma SQ_chars [simp]:
  "SQ \<noteq> CHR '' ''" "SQ \<noteq> CHR 0x09" "SQ \<noteq> CHR 0x5C" "CHR 0x5C \<noteq> SQ" "SQ \<noteq> CHR 0x0A"
  by (simp_all add: SQ_def)

lemma sh_lex_plain: "list_all sh_plain w \<Longrightarrow> sh_lex (w @ r) (Some v) = sh_lex r (Some (v @ w))"
  by (induction w arbitrary: v) (auto simp: sh_plain_def)

lemma reads_plain: "list_all sh_plain w \<Longrightarrow> w \<noteq> [] \<Longrightarrow> reads w w"
  using sh_lex_plain [of "tl w" _ "[hd w]"] by (cases w) (auto simp: reads_def sh_plain_def)

lemma sh_quoted_escaped:
  "sh_quoted (ReplaceAll s SQ [SQ, CHR 0x5C, SQ, SQ] @ SQ # r) w = sh_lex r (Some (w @ s))"
  by (induction s arbitrary: w) simp_all

lemma reads_single: "reads (sh_single s) s"
  by (simp add: reads_def sh_single_def sh_quoted_escaped)

lemma reads_end: "reads t w \<Longrightarrow> sh_lex t None = Some [w]"
  unfolding reads_def by (drule spec [of _ "[]"]) simp

lemma reads_Join:
  "list_all2 reads ts ws \<Longrightarrow> ts \<noteq> [] \<Longrightarrow> sh_lex (Join ts '' '') None = Some ws"
proof (induction ts ws rule: list_all2_induct)
  case (Cons t ts w ws)
  then show ?case by (cases "ts = []") (simp_all add: Join_Cons reads_end, simp add: reads_def)
qed simp

locale shell_quoting =
  fixes quote :: "string \<Rightarrow> string" and safe :: "string \<Rightarrow> bool"
  assumes quote_reads: "safe a \<Longrightarrow> reads (quote a) a"
begin

lemma words_Join:
  assumes "list_all2 reads ts ws" "list_all safe as" "ts \<noteq> []"
  shows "sh_words (Join (ts @ map quote as) '' '') = Some (ws @ as)"
proof -
  have "list_all2 reads (map quote as) as"
    using assms(2) by (induction as) (auto simp: quote_reads)
  with assms(1) have "list_all2 reads (ts @ map quote as) (ws @ as)" by (rule list_all2_appendI)
  with assms(3) show ?thesis by (simp add: sh_words_def reads_Join)
qed

end

definition exec_safe :: "string \<Rightarrow> bool" where
  "exec_safe a \<longleftrightarrow> ContainsAny a [CHR '' '', SQ, DQ, CHR ''$'', CHR 0x5C, CHR 0x0A, CHR 0x09] \<or> list_all sh_plain a"

definition wal_safe :: "string \<Rightarrow> bool" where
  "wal_safe a \<longleftrightarrow> ContainsAny a [CHR '' '', SQ, DQ, CHR ''$'', CHR 0x5C] \<or> list_all sh_plain a"

lemma reads_empty: "reads [SQ, SQ] []"
  by (simp add: reads_def)

interpretation execq: shell_quoting exec_shellQuote exec_safe
  by unfold_locales (auto simp: exec_shellQuote_def exec_safe_def reads_empty reads_single reads_plain)

interpretation walq: shell_quoting wal_shellQuote wal_safe
  by unfold_locales (auto simp: wal_shellQuote_def wal_safe_def reads_empty reads_single reads_plain)

subsection \<open>Escaping of SQL\<close>

interpretation sqlesc: quoting SQ "\<lambda>_. True" SQLEscape
  by unfold_locales (simp add: unquote_def SQLEscape_def scan_quoted_doubled)

interpretation identesc: quoting DQ "\<lambda>_. True" IdentEscape
  by unfold_locales (simp add: unquote_def IdentEscape_def scan_quoted_doubled)

lemma escapes_agree: "SQLEscape s = StringLiteral s" "NUL \<notin> set s \<Longrightarrow> IdentEscape s = Identifier s"
  by (simp_all add: SQLEscape_def StringLiteral_def IdentEscape_def Identifier_def)

subsection \<open>Segment names\<close>

lemma hexU_lemmas: "d < 16 \<Longrightarrow> hex_of (hexU d) = d" "d < 16 \<Longrightarrow> is_hex (hexU d)"
  by (auto simp: hex_of_def hexU_def is_hex_def)

lemma hex_upper_length [simp]: "length (hex_upper k n) = k"
  by (induction k arbitrary: n) auto

lemma hex_upper_hex: "list_all is_hex (hex_upper k n)"
  by (induction k arbitrary: n) (auto simp: hexU_lemmas)

lemma hex_upper_val: "foldl (\<lambda>n c. 16 * n + hex_of c) 0 (hex_upper k n) = n mod 16 ^ k"
proof (induction k arbitrary: n)
  case (Suc k)
  have "n mod (16 * 16 ^ k) = 16 * (n div 16 mod 16 ^ k) + n mod 16" by (rule mod_mult2_eq)
  then show ?case by (simp add: Suc hexU_lemmas)
qed simp

lemma hex_no_space: "is_hex c \<Longrightarrow> no_space_byte c \<and> c \<noteq> CHR 0x0A"
  by (auto simp: is_hex_def no_space_byte_def)

lemma scan_hex8_upper: "scan_hex8 (hex_upper 8 (unat w) @ r) = Some (w, r)"
proof -
  let ?h = "hex_upper 8 (unat w)"
  have hex: "is_hex c" if "c \<in> set ?h" for c using hex_upper_hex [of 8 "unat w"] that by (simp add: list_all_iff)
  have "?h \<noteq> []" by (simp flip: length_0_conv)
  then obtain c h where h: "?h = c # h" by (cases ?h) auto
  then have skip: "skip_space (?h @ r) = Some (?h @ r)"
    using hex_no_space [of c] hex [of c] by (auto simp: skip_space.simps [of "c # h @ r"])
  have tw: "takeWhile is_hex ?h = ?h" using hex by (simp add: takeWhile_eq_all_conv)
  have tk: "take 8 (?h @ r) = ?h" by simp
  have "unat w < 2 ^ LENGTH(32)" by (rule unsigned_less)
  then have "foldl (\<lambda>n c. 16 * n + hex_of c) 0 ?h = unat w" unfolding hex_upper_val by simp
  then show ?thesis using \<open>?h \<noteq> []\<close> unfolding scan_hex8_def skip option.case Let_def tk tw by simp
qed

subsection \<open>Properties\<close>

text \<open>
  The names of WAL segments have 24 characters and read back: parsing the name of a timeline, a log and a segment number
  gives the three numbers, for every value of 32 bits.
\<close>

theorem segment_round_trip:
  "length (SegmentFileName timeline logID segID) = 24 \<and>
   ParseSegmentName (SegmentFileName timeline logID segID) = Inr (timeline, logID, segID)"
proof -
  have "scan_hex8 (hex_upper 8 (unat segID)) = Some (segID, [])" using scan_hex8_upper [of segID "[]"] by simp
  then show ?thesis by (simp add: ParseSegmentName_def SegmentFileName_def scan_hex8_upper)
qed

text \<open>The parser takes more than such names: short numbers between blanks pass.\<close>

lemma segment_lax: "ParseSegmentName ''1 2 3                   '' = Inr (1, 2, 3)"
  by code_simp

text \<open>
  What the shell makes of the command lines. A rendered command is read back as the program and its arguments, and the archive
  command for barman as the program, its endpoint and its address, provided each argument either triggers the quoting or holds
  no special character.
\<close>

theorem command_words:
  assumes "list_all sh_plain (cmd_Bin c)" "cmd_Bin c \<noteq> []" "list_all exec_safe (cmd_Args c)"
    and "Endpoint_Validate ep = None" "wal_safe (ep_Endpoint ep)" "wal_safe (Endpoint_URL ep)"
  shows "sh_words (Command_String c) = Some (cmd_Bin c # cmd_Args c) \<and>
    (\<exists>s. ArchiveCommand ToolBarman ep = Inr s \<and>
       sh_words s = Some [''barman-cloud-wal-archive'', ''--endpoint-url'', ep_Endpoint ep, Endpoint_URL ep, ''%p''])"
proof -
  have "sh_words (Join ([cmd_Bin c] @ map exec_shellQuote (cmd_Args c)) '' '') = Some ([cmd_Bin c] @ cmd_Args c)"
    using assms(1-3) by (intro execq.words_Join) (simp_all add: reads_plain)
  moreover have p: "reads ''barman-cloud-wal-archive'' ''barman-cloud-wal-archive''" "reads ''--endpoint-url'' ''--endpoint-url''"
    "wal_safe ''%p''" "wal_shellQuote ''%p'' = ''%p''"
    by (rule reads_plain; code_simp; fail)+ code_simp+
  have "sh_words (Join ([''barman-cloud-wal-archive'', ''--endpoint-url''] @
      map wal_shellQuote [ep_Endpoint ep, Endpoint_URL ep, ''%p'']) '' '') =
      Some ([''barman-cloud-wal-archive'', ''--endpoint-url''] @ [ep_Endpoint ep, Endpoint_URL ep, ''%p''])"
    using assms(5,6) p by (intro walq.words_Join) simp_all
  ultimately show ?thesis
    using assms(4) p(4) by (simp add: Command_String_def ArchiveCommand_def ToolBarman_def ToolWALG_def)
qed

text \<open>Evaluation for a statement with a blank and an endpoint with a blank in its prefix.\<close>

theorem command_words_witness:
  "sh_words (Command_String (plainCommand ''psql'' [''-c'', ''select $1''])) =
     Some [''psql'', ''-c'', ''select $1'']"
proof -
  let ?ep = "\<lparr>ep_Provider = ''s3'', ep_Bucket = ''wal'', ep_Prefix = ''my db'', ep_Region = [], ep_Endpoint = ''http://s3'',
    ep_StorageClass = [], ep_Path = []\<rparr>"
  have "list_all exec_safe [''-c'', ''select $1'']" "wal_safe (ep_Endpoint ?ep)" "wal_safe (Endpoint_URL ?ep)"
    "Endpoint_Validate ?ep = None" "list_all sh_plain ''psql''"
    by code_simp+
  then show ?thesis using command_words [of "plainCommand ''psql'' [''-c'', ''select $1'']" ?ep]
    by (simp add: plainCommand_def)
qed

text \<open>A semicolon does not trigger the quoting, and the address is not quoted at all for wal-g.\<close>

lemma archive_unquoted:
  "map_sum id sh_words (ArchiveCommand ToolBarman \<lparr>ep_Provider = ''s3'', ep_Bucket = ''wal'', ep_Prefix = [], ep_Region = [],
     ep_Endpoint = ''http://s3;id'', ep_StorageClass = [], ep_Path = []\<rparr>) = Inr None"
  "map_sum id sh_words (ArchiveCommand ToolWALG \<lparr>ep_Provider = ''s3'', ep_Bucket = ''wal'', ep_Prefix = ''my db'', ep_Region = [],
     ep_Endpoint = [], ep_StorageClass = [], ep_Path = []\<rparr>) =
   Inr (Some [''WALE_S3_PREFIX=s3://wal/my'', ''db'', ''wal-g'', ''wal-push'', ''%p''])"
  by code_simp+

text \<open>The scheme of an endpoint's address names its provider, and the password of a psql command is not among its arguments.\<close>

lemma scheme_of_URL:
  assumes "Endpoint_Validate e = None"
  shows "ProviderForScheme ascii_tab (takeWhile (\<lambda>c. c \<noteq> CHR '':'') (Endpoint_URL e)) = Some (ep_Provider e)"
proof -
  consider "ep_Provider e = ProviderS3" | "ep_Provider e = ProviderGCS" | "ep_Provider e = ProviderAzure" | "ep_Provider e = ProviderFile"
    using assms by (auto simp: Endpoint_Validate_def split: if_splits)
  moreover have "ProviderForScheme ascii_tab ''s3'' = Some ProviderS3" "ProviderForScheme ascii_tab ''gs'' = Some ProviderGCS"
    "ProviderForScheme ascii_tab ''azure'' = Some ProviderAzure" "ProviderForScheme ascii_tab ''file'' = Some ProviderFile"
    by code_simp+
  ultimately show ?thesis
    by cases (simp_all add: Endpoint_URL_def ProviderS3_def ProviderGCS_def ProviderAzure_def ProviderFile_def joinURL_def Let_def)
qed

lemma PSQL_password: "cmd_Args (PSQL (opts\<lparr>ps_Password := p\<rparr>)) = cmd_Args (PSQL opts)"
  by (simp add: PSQL_def psql_args_def)

end
