(* ===== verification/Recovery.thy ===== *)
theory Recovery
  imports Connstr Go_Time "HOL-Library.Word"
begin

section \<open>Recovery and replication\<close>

text \<open>
  The packages \<open>recovery\<close> (targets of point-in-time recovery) and \<open>replication\<close> (settings of primaries and standbys). The
  clock is an argument, times are in UTC, a \<open>uint64\<close> is a \<open>64 word\<close> and errors are values of a datatype.
\<close>

subsection \<open>The package recovery\<close>

definition TargetKindTime :: string where "TargetKindTime = ''time''"
definition TargetKindLSN :: string where "TargetKindLSN = ''lsn''"
definition TargetKindXID :: string where "TargetKindXID = ''xid''"
definition TargetKindName :: string where "TargetKindName = ''name''"
definition TargetKindImmediate :: string where "TargetKindImmediate = ''immediate''"

lemmas target_kinds = TargetKindTime_def TargetKindLSN_def TargetKindXID_def TargetKindName_def TargetKindImmediate_def

record Target =
  tg_Kind :: string
  tg_Time :: gotime
  tg_LSN :: string
  tg_XID :: "64 word"
  tg_Name :: string
  tg_Inclusive :: bool
  tg_Timeline :: string

datatype recovery_error = TimeRequired | TimeInFuture gotime | BadLSN string | XIDZero | NameEmpty | UnknownKind string | BadTimeline

definition is_hex_digit :: "char \<Rightarrow> bool" where
  "is_hex_digit c \<longleftrightarrow> 48 \<le> byte c \<and> byte c \<le> 57 \<or> 65 \<le> byte c \<and> byte c \<le> 70 \<or> 97 \<le> byte c \<and> byte c \<le> 102"

definition isValidLSN :: "string \<Rightarrow> bool" where
  "isValidLSN s =
     (let parts = splitn2 (CHR ''/'') s in
      if length parts \<noteq> 2 then False
      else list_all (\<lambda>p. \<not> (length p = 0 \<or> length p > 8) \<and> list_all is_hex_digit p) parts)"

fun parseUint_loop :: "string \<Rightarrow> 64 word \<Rightarrow> 64 word option" where
  "parseUint_loop [] n = Some n"
| "parseUint_loop (c # s) n = (if \<not> is_digit c then None else parseUint_loop s (n * 10 + of_nat (byte c - 48)))"

definition parseUint :: "string \<Rightarrow> 64 word option" where
  "parseUint s = (case parseUint_loop s 0 of None \<Rightarrow> None | Some n \<Rightarrow> if length s = 0 then None else Some n)"

definition target_error :: "gotime \<Rightarrow> Target \<Rightarrow> recovery_error option" where
  "target_error now t =
     (if tg_Kind t = TargetKindTime
      then (if tg_Time t = 0 then Some TimeRequired
            else if time_After (tg_Time t) (time_Add now Minute) then Some (TimeInFuture (tg_Time t)) else None)
      else if tg_Kind t = TargetKindLSN then (if \<not> isValidLSN (tg_LSN t) then Some (BadLSN (tg_LSN t)) else None)
      else if tg_Kind t = TargetKindXID then (if tg_XID t = 0 then Some XIDZero else None)
      else if tg_Kind t = TargetKindName then (if TrimSpace (tg_Name t) = [] then Some NameEmpty else None)
      else if tg_Kind t = TargetKindImmediate then None
      else Some (UnknownKind (tg_Kind t)))"

definition Target_Validate :: "gotime \<Rightarrow> Target \<Rightarrow> recovery_error option" where
  "Target_Validate now t =
     (case target_error now t of
        Some e \<Rightarrow> Some e
      | None \<Rightarrow> if tg_Timeline t \<noteq> [] \<and> tg_Timeline t \<noteq> ''latest'' \<and> parseUint (tg_Timeline t) = None
                then Some BadTimeline else None)"

text \<open>\<open>Format\<close> with the layout \<open>2006-01-02 15:04:05 MST\<close>, for years that are not negative.\<close>

definition pad :: "nat \<Rightarrow> int \<Rightarrow> string" where
  "pad w n = replicate (w - length (dec n)) (CHR ''0'') @ dec n"

definition format_time :: "gotime \<Rightarrow> string" where
  "format_time t =
     pad 4 (time_Year t) @ ''-'' @ pad 2 (time_Month t) @ ''-'' @ pad 2 (time_Day t) @ '' '' @
     pad 2 (time_Hour t) @ '':'' @ pad 2 (time_Minute t) @ '':'' @ pad 2 (t div Second mod 60) @ '' UTC''"

definition RecoveryParams :: "Target \<Rightarrow> smap" where
  "RecoveryParams t =
     (let timeline = (if tg_Timeline t = [] then ''latest'' else tg_Timeline t);
          params = mapset [] ''recovery_target_timeline'' timeline;
          inclusive = (if \<not> tg_Inclusive t then ''false'' else ''true'') in
      if tg_Kind t = TargetKindTime
      then mapset (mapset params ''recovery_target_time'' (format_time (tg_Time t))) ''recovery_target_inclusive'' inclusive
      else if tg_Kind t = TargetKindLSN
      then mapset (mapset params ''recovery_target_lsn'' (tg_LSN t)) ''recovery_target_inclusive'' inclusive
      else if tg_Kind t = TargetKindXID
      then mapset (mapset params ''recovery_target_xid'' (dec_nat (unat (tg_XID t)))) ''recovery_target_inclusive'' inclusive
      else if tg_Kind t = TargetKindName then mapset params ''recovery_target_name'' (tg_Name t)
      else if tg_Kind t = TargetKindImmediate then mapset params ''recovery_target'' ''immediate''
      else params)"

definition StandbySignalContent :: string where
  "StandbySignalContent = ''# standby.signal - managed by athos-kubernetes'' @ [CHR 0x0A]"

definition RecoverySignalContent :: string where
  "RecoverySignalContent = ''# recovery.signal - managed by athos-kubernetes'' @ [CHR 0x0A]"

subsection \<open>The package replication\<close>

definition DefaultWalLevel :: string where "DefaultWalLevel = ''replica''"
definition DefaultMaxWalSenders :: int where "DefaultMaxWalSenders = 10"
definition DefaultMaxReplicationSlots :: int where "DefaultMaxReplicationSlots = 10"
definition DefaultWalKeepSize :: int where "DefaultWalKeepSize = 128"
definition ReplicationUser :: string where "ReplicationUser = ''replicator''"

record WalConfig =
  wc_WalLevel :: string
  wc_MaxWalSenders :: int
  wc_MaxReplicationSlots :: int
  wc_WalKeepSize :: int
  wc_SynchronousStandbyNames :: string
  wc_PostgresVersion :: int

definition DefaultWalConfig :: "int \<Rightarrow> WalConfig" where
  "DefaultWalConfig pgVersion =
     \<lparr>wc_WalLevel = DefaultWalLevel, wc_MaxWalSenders = DefaultMaxWalSenders,
      wc_MaxReplicationSlots = DefaultMaxReplicationSlots, wc_WalKeepSize = DefaultWalKeepSize,
      wc_SynchronousStandbyNames = [], wc_PostgresVersion = pgVersion\<rparr>"

definition wal_Parameters :: "WalConfig \<Rightarrow> smap" where
  "wal_Parameters w =
     (let params = [(''wal_level'', wc_WalLevel w), (''max_wal_senders'', dec (wc_MaxWalSenders w)),
            (''max_replication_slots'', dec (wc_MaxReplicationSlots w)), (''hot_standby'', ''on''),
            (''hot_standby_feedback'', ''on'')];
          params = (if wc_PostgresVersion w \<ge> 13 then mapset params ''wal_keep_size'' (dec (wc_WalKeepSize w) @ ''MB'')
            else mapset params ''wal_keep_segments'' (dec (gquot (wc_WalKeepSize w) 16))) in
      if wc_SynchronousStandbyNames w \<noteq> []
      then mapset (mapset params ''synchronous_standby_names'' (wc_SynchronousStandbyNames w)) ''synchronous_commit'' ''on''
      else params)"

record StandbyConfig =
  sc_PrimaryHost :: string
  sc_ReplicationPassword :: string
  sc_ApplicationName :: string
  sc_PostgresVersion :: int

definition PrimaryConnInfo :: "StandbyConfig \<Rightarrow> string" where
  "PrimaryConnInfo s =
     ''host='' @ sc_PrimaryHost s @ '' port=5432 user='' @ ReplicationUser @ '' password='' @ sc_ReplicationPassword s @
     '' application_name='' @ sc_ApplicationName s"

definition RecoveryConfig :: "StandbyConfig \<Rightarrow> string" where
  "RecoveryConfig s =
     ''# Managed by athos-kubernetes - do not edit'' @ [CHR 0x0A] @
     ''primary_conninfo = '' @ [CHR 0x27] @ PrimaryConnInfo s @ [CHR 0x27, CHR 0x0A] @
     ''restore_command = '' @ [CHR 0x27, CHR 0x27, CHR 0x0A] @
     ''recovery_target_timeline = '' @ [CHR 0x27] @ ''latest'' @ [CHR 0x27, CHR 0x0A] @
     (if sc_PostgresVersion s < 12 then ''standby_mode = '' @ [CHR 0x27] @ ''on'' @ [CHR 0x27, CHR 0x0A] else [])"

definition HBAReplicationEntry :: "string \<Rightarrow> string" where
  "HBAReplicationEntry cidr = ''host replication '' @ ReplicationUser @ '' '' @ cidr @ '' scram-sha-256''"

definition ReplicationSlotName :: "string \<Rightarrow> int \<Rightarrow> string" where
  "ReplicationSlotName clusterName ordinal = ReplaceAll clusterName (CHR ''-'') ''_'' @ ''_slot_'' @ dec ordinal"

subsection \<open>Lemmas\<close>

lemma splitn2_cases:
  "length (splitn2 c s) = 2 \<longleftrightarrow> c \<in> set s"
  "c \<notin> set a \<Longrightarrow> splitn2 c (a @ c # b) = [a, b]"
proof -
  show "length (splitn2 c s) = 2 \<longleftrightarrow> c \<in> set s"
    using IndexByte_None [of s c] by (cases "IndexByte s c") (auto simp: splitn2_def simp del: IndexByte_None)
qed (simp add: splitn2_def IndexByte_append)

text \<open>The accepted log positions: two groups of one to eight hexadecimal digits around a slash.\<close>

lemma isValidLSN_iff:
  "isValidLSN s \<longleftrightarrow> (\<exists>a b. s = a @ ''/'' @ b \<and> list_all is_hex_digit (a @ b) \<and>
     1 \<le> length a \<and> length a \<le> 8 \<and> 1 \<le> length b \<and> length b \<le> 8)"
proof
  assume v: "isValidLSN s"
  then have "CHR ''/'' \<in> set s" by (auto simp: isValidLSN_def Let_def splitn2_cases split: if_splits)
  then obtain a b where s: "s = a @ CHR ''/'' # b" "CHR ''/'' \<notin> set a" by (meson split_list_first)
  with v have "\<not> (length a = 0 \<or> length a > 8) \<and> list_all is_hex_digit a" "\<not> (length b = 0 \<or> length b > 8) \<and> list_all is_hex_digit b"
    by (auto simp: isValidLSN_def splitn2_cases)
  then have "s = a @ ''/'' @ b \<and> list_all is_hex_digit (a @ b) \<and> 1 \<le> length a \<and> length a \<le> 8 \<and> 1 \<le> length b \<and> length b \<le> 8"
    using s by (auto simp: Suc_le_eq)
  then show "\<exists>a b. s = a @ ''/'' @ b \<and> list_all is_hex_digit (a @ b) \<and> 1 \<le> length a \<and> length a \<le> 8 \<and> 1 \<le> length b \<and> length b \<le> 8"
    by blast
next
  assume "\<exists>a b. s = a @ ''/'' @ b \<and> list_all is_hex_digit (a @ b) \<and> 1 \<le> length a \<and> length a \<le> 8 \<and> 1 \<le> length b \<and> length b \<le> 8"
  then obtain a b where s: "s = a @ CHR ''/'' # b" "list_all is_hex_digit a" "list_all is_hex_digit b"
    "a \<noteq> []" "length a \<le> 8" "b \<noteq> []" "length b \<le> 8" by (auto simp: Suc_le_eq)
  then have "CHR ''/'' \<notin> set a" by (auto simp: list_all_iff is_hex_digit_def)
  with s show "isValidLSN s" by (simp add: isValidLSN_def splitn2_cases)
qed

lemma parseUint_digits: "parseUint s \<noteq> None \<longleftrightarrow> s \<noteq> [] \<and> list_all is_digit s"
proof -
  have "parseUint_loop s n \<noteq> None \<longleftrightarrow> list_all is_digit s" for n by (induction s arbitrary: n) auto
  from this [of 0] show ?thesis by (auto simp: parseUint_def split: option.split)
qed

text \<open>A timeline that is no positive number passes: zero, and numbers that wrap.\<close>

lemma timeline_zero: "parseUint ''0'' = Some 0" "parseUint ''18446744073709551616'' = Some 0"
  by (simp_all add: parseUint_def is_digit_def)

definition target_keys :: "string list" where
  "target_keys = [''recovery_target'', ''recovery_target_time'', ''recovery_target_lsn'', ''recovery_target_xid'', ''recovery_target_name'']"

definition target_key :: "string \<Rightarrow> string" where
  "target_key kind = (if kind = TargetKindImmediate then ''recovery_target'' else ''recovery_target_'' @ kind)"

lemma TrimSpace_Nil [simp]: "TrimSpace [] = []"
  by (simp add: TrimSpace_def trim_space_left.simps trim_space_right.simps)

lemma target_value_nonempty:
  assumes "Target_Validate now t = None"
  shows "tg_Kind t = TargetKindLSN \<Longrightarrow> tg_LSN t \<noteq> []" "tg_Kind t = TargetKindName \<Longrightarrow> tg_Name t \<noteq> []"
    "tg_Kind t \<in> set [TargetKindTime, TargetKindLSN, TargetKindXID, TargetKindName, TargetKindImmediate]"
    "tg_Timeline t = [] \<or> tg_Timeline t = ''latest'' \<or> list_all is_digit (tg_Timeline t)"
proof -
  have e: "target_error now t = None" and tl: "\<not> (tg_Timeline t \<noteq> [] \<and> tg_Timeline t \<noteq> ''latest'' \<and> parseUint (tg_Timeline t) = None)"
    using assms by (auto simp: Target_Validate_def split: option.splits if_splits)
  show "tg_LSN t \<noteq> []" if "tg_Kind t = TargetKindLSN"
    using e that by (auto simp: target_error_def target_kinds isValidLSN_iff split: if_splits)
  show "tg_Name t \<noteq> []" if "tg_Kind t = TargetKindName"
    using e that by (auto simp: target_error_def target_kinds split: if_splits)
  show "tg_Kind t \<in> set [TargetKindTime, TargetKindLSN, TargetKindXID, TargetKindName, TargetKindImmediate]"
    using e by (auto simp: target_error_def split: if_splits)
  show "tg_Timeline t = [] \<or> tg_Timeline t = ''latest'' \<or> list_all is_digit (tg_Timeline t)"
    using tl parseUint_digits by blast
qed

definition plain_val :: "string \<Rightarrow> bool" where
  "plain_val v \<longleftrightarrow> val_ok v \<and> CHR '' '' \<notin> set v \<and> CHR 0x5C \<notin> set v"

lemma tokenize_kvs:
  assumes "\<forall>(k, v) \<in> set kvs. key_ok k \<and> plain_val v" "kvs \<noteq> []"
  shows "tokenizeDSN (Join (map (\<lambda>(k, v). k @ ''='' @ v) kvs) '' '') = Inr (range_set [] kvs)"
proof -
  have ok: "\<forall>(k, v) \<in> set kvs. key_ok k \<and> val_ok v" using assms by (auto simp: plain_val_def)
  have eq: "map (\<lambda>(k, v). k @ ''='' @ v) kvs = map (\<lambda>(k, v). kv_part k v) kvs"
    using assms(1) by (auto simp: plain_val_def kv_value_plain)
  have "tight (Join (map (\<lambda>(k, v). kv_part k v) kvs) '' '')"
    using ok assms(2) tight_part by (intro tight_Join) auto
  then show ?thesis unfolding eq tokenizeDSN_def by (simp only: TrimSpace_tight tokenize_parts [OF ok])
qed

lemma append_last_sep:
  fixes c :: char
  assumes d: "c \<notin> set d" "c \<notin> set d'" and eq: "x @ c # d = y @ c # d'"
  shows "x = y \<and> d = d'"
proof -
  have "LastIndexByte (x @ c # d) c = Some (length x)" "LastIndexByte (y @ c # d') c = Some (length y)"
    using d by (simp_all add: LastIndexByte_append)
  with eq have "length x = length y" by simp
  with eq show "x = y \<and> d = d'" by simp
qed

lemma dec_5432: "dec 5432 = ''5432''"
  by code_simp

subsection \<open>Properties\<close>

text \<open>
  A valid target becomes settings that PostgreSQL takes: exactly one of the five target settings is there, the one of the target's
  kind, and it is not empty; the inclusive flag is set exactly for the kinds that have one; the timeline is \<open>latest\<close> or a
  number.
\<close>

theorem recovery_target_unique:
  assumes "Target_Validate now t = None"
  shows "filter (\<lambda>k. k \<in> set target_keys) (keys (RecoveryParams t)) = [target_key (tg_Kind t)] \<and>
    mapidx (RecoveryParams t) (target_key (tg_Kind t)) \<noteq> [] \<and>
    (map_of (RecoveryParams t) ''recovery_target_inclusive'' \<noteq> None \<longleftrightarrow> tg_Kind t \<in> {TargetKindTime, TargetKindLSN, TargetKindXID}) \<and>
    (mapidx (RecoveryParams t) ''recovery_target_timeline'' = ''latest'' \<or>
     list_all is_digit (mapidx (RecoveryParams t) ''recovery_target_timeline''))"
proof -
  note v = target_value_nonempty [OF assms]
  consider "tg_Kind t = TargetKindTime" | "tg_Kind t = TargetKindLSN" | "tg_Kind t = TargetKindXID"
    | "tg_Kind t = TargetKindName" | "tg_Kind t = TargetKindImmediate" using v(3) by auto
  then show ?thesis
  proof cases
    case 1
    then show ?thesis using v(4) by (auto simp: RecoveryParams_def Let_def target_keys_def target_key_def target_kinds format_time_def)
  next
    case 2
    then show ?thesis using v(1,4) by (auto simp: RecoveryParams_def Let_def target_keys_def target_key_def target_kinds)
  next
    case 3
    then show ?thesis using v(4) by (auto simp: RecoveryParams_def Let_def target_keys_def target_key_def target_kinds)
  next
    case 4
    then show ?thesis using v(2,4) by (auto simp: RecoveryParams_def Let_def target_keys_def target_key_def target_kinds)
  next
    case 5
    then show ?thesis using v(4) by (auto simp: RecoveryParams_def Let_def target_keys_def target_key_def target_kinds)
  qed
qed

text \<open>Evaluation for a log position.\<close>

theorem recovery_target_unique_witness:
  "filter (\<lambda>k. k \<in> set target_keys) (keys (RecoveryParams \<lparr>tg_Kind = ''lsn'', tg_Time = 0, tg_LSN = ''0/1A2B'', tg_XID = 0,
     tg_Name = [], tg_Inclusive = True, tg_Timeline = []\<rparr>)) = [''recovery_target_lsn'']"
proof -
  let ?t = "\<lparr>tg_Kind = ''lsn'', tg_Time = 0, tg_LSN = ''0/1A2B'', tg_XID = 0, tg_Name = [], tg_Inclusive = True, tg_Timeline = []\<rparr>"
  have "Target_Validate 0 ?t = None" by code_simp
  from recovery_target_unique [OF this] show ?thesis by (simp add: target_key_def target_kinds)
qed

text \<open>
  The connection text that a standby gets is what it was made from: for values without blanks, quotes and backslashes the
  operator's own parser reads the host, the port, the replication user, the password and the application name back from it.
\<close>

theorem replica_conninfo:
  assumes "plain_val (sc_PrimaryHost s)" "plain_val (sc_ReplicationPassword s)" "plain_val (sc_ApplicationName s)"
  shows "\<exists>p. ParseDSN (PrimaryConnInfo s) = Inr p \<and> cn_Host p = sc_PrimaryHost s \<and> cn_Port p = 5432 \<and>
    cn_User p = ReplicationUser \<and> cn_Password p = sc_ReplicationPassword s \<and>
    map_of (cn_Extra p) = [''application_name'' \<mapsto> sc_ApplicationName s]"
proof -
  let ?kvs = "[(''host'', sc_PrimaryHost s), (''port'', ''5432''), (''user'', ReplicationUser),
    (''password'', sc_ReplicationPassword s), (''application_name'', sc_ApplicationName s)]"
  have ok: "key_ok ''host''" "key_ok ''port''" "key_ok ''user''" "key_ok ''password''" "key_ok ''application_name''"
    "plain_val ''5432''" "plain_val ReplicationUser" by code_simp+
  have t: "tokenizeDSN (PrimaryConnInfo s) = Inr ?kvs"
    using tokenize_kvs [of ?kvs] assms ok by (simp add: PrimaryConnInfo_def)
  have port: "Sscanf_d ''5432'' = Some 5432" using Sscanf_dec [of 5432] by (simp add: is_int64_def dec_5432)
  have "wf_map ?kvs" by simp
  moreover have "map_of ?kvs ''port'' = Some v \<Longrightarrow> Sscanf_d v = Some 5432" for v using port by simp
  ultimately obtain p where p: "set_fields ?kvs ConnParams_zero = Inr p" "cn_Host p = lookup_or ?kvs ''host'' []"
    "cn_Port p = (if map_of ?kvs ''port'' = None then 0 else 5432)" "cn_User p = lookup_or ?kvs ''user'' []"
    "cn_Password p = lookup_or ?kvs ''password'' []"
    "map_of (cn_Extra p) = map_of (cn_Extra ConnParams_zero) ++ (map_of ?kvs |` (- set std_keys))"
    using set_fields_lookup [of ?kvs 5432 ConnParams_zero] by (auto simp: ConnParams_zero_def)
  have "map_of (cn_Extra p) = [''application_name'' \<mapsto> sc_ApplicationName s]"
    unfolding p(6) by (auto simp: ConnParams_zero_def std_keys_def restrict_map_def fun_eq_iff)
  then show ?thesis using p(1-5) t by (intro exI [of _ p]) (simp add: ParseDSN_def lookup_or_def)
qed

text \<open>Evaluation for the first replica of a cluster.\<close>

theorem replica_conninfo_witness:
  "\<exists>p. ParseDSN (PrimaryConnInfo \<lparr>sc_PrimaryHost = ''db-primary'', sc_ReplicationPassword = ''s3cret'', sc_ApplicationName = ''db-1'',
     sc_PostgresVersion = 16\<rparr>) = Inr p \<and> cn_Password p = ''s3cret''"
proof -
  let ?s = "\<lparr>sc_PrimaryHost = ''db-primary'', sc_ReplicationPassword = ''s3cret'', sc_ApplicationName = ''db-1'', sc_PostgresVersion = 16\<rparr>"
  have "plain_val (sc_PrimaryHost ?s)" "plain_val (sc_ReplicationPassword ?s)" "plain_val (sc_ApplicationName ?s)" by code_simp+
  from replica_conninfo [OF this] show ?thesis by auto
qed

text \<open>A password with a blank is cut off there.\<close>

lemma conninfo_blank:
  "map_sum id cn_Password (ParseDSN (PrimaryConnInfo \<lparr>sc_PrimaryHost = ''h'', sc_ReplicationPassword = ''a b'',
     sc_ApplicationName = ''x'', sc_PostgresVersion = 16\<rparr>)) = Inr ''a''"
  by code_simp

text \<open>Slot names of different clusters or standbys differ, for cluster names without underscores.\<close>

lemma ReplicationSlotName_inject:
  assumes "CHR ''_'' \<notin> set a" "CHR ''_'' \<notin> set b" "0 \<le> n" "0 \<le> m"
  shows "ReplicationSlotName a n = ReplicationSlotName b m \<longleftrightarrow> a = b \<and> n = m"
proof
  assume "ReplicationSlotName a n = ReplicationSlotName b m"
  then have eq: "(ReplaceAll a (CHR ''-'') ''_'' @ ''_slot'') @ CHR ''_'' # dec n = (ReplaceAll b (CHR ''-'') ''_'' @ ''_slot'') @ CHR ''_'' # dec m"
    by (simp add: ReplicationSlotName_def)
  have no: "CHR ''_'' \<notin> set (dec k)" for k using dec_chars [of "CHR ''_''" k] by (auto simp: is_digit_def)
  from append_last_sep [OF no no eq] have r: "ReplaceAll a (CHR ''-'') ''_'' = ReplaceAll b (CHR ''-'') ''_''" "dec n = dec m" by auto
  have "n = m" using r(2) assms(3,4) by (simp add: dec_def dec_nat_inject)
  moreover have "a = b" using r(1) assms(1,2)
  proof (induction a arbitrary: b)
    case Nil
    then show ?case by (cases b) (auto split: if_splits)
  next
    case (Cons x a)
    then show ?case by (cases b) (auto split: if_splits)
  qed
  ultimately show "a = b \<and> n = m" by simp
qed simp

end
