(* ===== verification/Storage.thy ===== *)
theory Storage
  imports Recovery
begin

section \<open>Snapshots and the data directory\<close>

text \<open>
  The packages \<open>snapshot\<close> (names, labels and retention of volume snapshots) and \<open>datadir\<close> (paths inside the container, on a
  model of \<open>filepath.Clean\<close> and \<open>filepath.Join\<close>).
\<close>

subsection \<open>The package snapshot\<close>

record SnapshotSpec =
  sn_ClusterName :: string
  sn_Namespace :: string
  sn_SnapshotClassName :: string
  sn_SourcePVC :: string
  sn_Suffix :: string

record Manifest =
  mf_APIVersion :: string
  mf_Kind :: string
  mf_Name :: string
  mf_Namespace :: string
  mf_Labels :: smap
  mf_SnapshotClassName :: string
  mf_SourcePVC :: string
  mf_CreationTimestamp :: gotime

datatype snapshot_error = ClusterNameRequired | SourcePVCRequired

definition joinName :: "unitab \<Rightarrow> string \<Rightarrow> string \<Rightarrow> string" where
  "joinName u pvc sfx =
     (let pvc = ToLower u (TrimSpace pvc); sfx = ToLower u (TrimSpace sfx) in
      if sfx = [] then pvc else pvc @ ''-snap-'' @ sfx)"

definition buildLabels :: "string \<Rightarrow> string \<Rightarrow> smap" where
  "buildLabels cluster pvc =
     [(''pg.athos.io/cluster'', cluster), (''pg.athos.io/source-pvc'', pvc),
      (''app.kubernetes.io/component'', ''snapshot''), (''app.kubernetes.io/managed-by'', ''athos'')]"

text \<open>The layout \<open>20060102t150405\<close>.\<close>

definition stamp_time :: "gotime \<Rightarrow> string" where
  "stamp_time t =
     pad 4 (time_Year t) @ pad 2 (time_Month t) @ pad 2 (time_Day t) @ ''t'' @
     pad 2 (time_Hour t) @ pad 2 (time_Minute t) @ pad 2 (t div Second mod 60)"

definition snapshot_Build :: "unitab \<Rightarrow> SnapshotSpec \<Rightarrow> gotime \<Rightarrow> snapshot_error + Manifest" where
  "snapshot_Build u spec now =
     (if sn_ClusterName spec = [] then Inl ClusterNameRequired
      else if sn_SourcePVC spec = [] then Inl SourcePVCRequired
      else let sfx = (if sn_Suffix spec = [] then stamp_time now else sn_Suffix spec) in
        Inr \<lparr>mf_APIVersion = ''snapshot.storage.k8s.io/v1'', mf_Kind = ''VolumeSnapshot'',
             mf_Name = joinName u (sn_SourcePVC spec) sfx, mf_Namespace = sn_Namespace spec,
             mf_Labels = buildLabels (sn_ClusterName spec) (sn_SourcePVC spec),
             mf_SnapshotClassName = sn_SnapshotClassName spec, mf_SourcePVC = sn_SourcePVC spec,
             mf_CreationTimestamp = now\<rparr>)"

record SnapRetention =
  sr_MaxCount :: int
  sr_MaxAge :: duration

text \<open>
  The two nested loops that put the newest first: one round of the outer loop compares the entry at its position, \<open>h\<close>, with
  every later one and swaps when the later one is newer.
\<close>

fun sort_pass :: "Manifest \<Rightarrow> Manifest list \<Rightarrow> Manifest \<times> Manifest list" where
  "sort_pass h [] = (h, [])"
| "sort_pass h (x # xs) =
     (if time_After (mf_CreationTimestamp x) (mf_CreationTimestamp h)
      then (let (m, r) = sort_pass x xs in (m, h # r))
      else (let (m, r) = sort_pass h xs in (m, x # r)))"

lemma sort_pass_length: "length (snd (sort_pass h xs)) = length xs"
  by (induction h xs rule: sort_pass.induct) (auto simp: case_prod_beta)

function newest_first :: "Manifest list \<Rightarrow> Manifest list" where
  "newest_first [] = []"
| "newest_first (h # t) = fst (sort_pass h t) # newest_first (snd (sort_pass h t))"
  by pat_completeness auto
termination by (relation "measure length") (auto simp: sort_pass_length)

definition expired_at :: "SnapRetention \<Rightarrow> gotime \<Rightarrow> nat \<times> Manifest \<Rightarrow> bool" where
  "expired_at p now e \<longleftrightarrow>
     (sr_MaxCount p > 0 \<and> int (fst e) \<ge> sr_MaxCount p) \<or>
     (sr_MaxAge p > 0 \<and> time_Sub now (mf_CreationTimestamp (snd e)) > sr_MaxAge p)"

definition retention_Apply :: "SnapRetention \<Rightarrow> Manifest list \<Rightarrow> gotime \<Rightarrow> Manifest list" where
  "retention_Apply p snaps now = map snd (filter (expired_at p now) (enumerate 0 (newest_first snaps)))"

definition IsCompleted :: "bool option \<Rightarrow> bool" where
  "IsCompleted readyToUse \<longleftrightarrow> readyToUse = Some True"

subsection \<open>The package datadir\<close>

definition Root :: string where "Root = ''/var/lib/postgresql''"
definition PGData :: string where "PGData = Root @ ''/data''"
definition WAL :: string where "WAL = Root @ ''/wal''"
definition Socket :: string where "Socket = ''/var/run/postgresql''"
definition Scripts :: string where "Scripts = ''/opt/athos/scripts''"
definition TLS :: string where "TLS = ''/opt/athos/tls''"
definition Config :: string where "Config = ''/etc/postgresql''"

definition clean_step :: "bool \<Rightarrow> string list \<Rightarrow> string \<Rightarrow> string list" where
  "clean_step rooted out c =
     (if c = [] \<or> c = ''.'' then out
      else if c = ''..'' then
        (if out \<noteq> [] \<and> last out \<noteq> ''..'' then butlast out else if rooted then out else out @ [''..''])
      else out @ [c])"

definition Clean :: "string \<Rightarrow> string" where
  "Clean path =
     (if path = [] then ''.''
      else let rooted = prefix ''/'' path; out = foldl (clean_step rooted) [] (splitc (CHR ''/'') path) in
        if rooted then ''/'' @ Join out ''/'' else if out = [] then ''.'' else Join out ''/'')"

definition filepath_Join :: "string \<Rightarrow> string \<Rightarrow> string" where
  "filepath_Join a b = (if a \<noteq> [] then Clean (a @ ''/'' @ b) else if b \<noteq> [] then Clean b else [])"

definition PGDataPath :: "string \<Rightarrow> string" where
  "PGDataPath rel = (if rel = [] then PGData else filepath_Join PGData (TrimPrefix rel ''/''))"

definition WALPath :: "string \<Rightarrow> string" where
  "WALPath rel = (if rel = [] then WAL else filepath_Join WAL (TrimPrefix rel ''/''))"

definition ConfigPath :: "string \<Rightarrow> string" where
  "ConfigPath rel = (if rel = [] then Config else filepath_Join Config (TrimPrefix rel ''/''))"

definition IsInsidePGData :: "string \<Rightarrow> bool" where
  "IsInsidePGData path \<longleftrightarrow> prefix PGData (Clean path)"

definition PostgresqlConf :: string where "PostgresqlConf = ConfigPath ''postgresql.conf''"
definition PGHBAConf :: string where "PGHBAConf = ConfigPath ''pg_hba.conf''"
definition PIDFile :: string where "PIDFile = PGDataPath ''postmaster.pid''"

fun layout_loop :: "(string, bool) gomap \<Rightarrow> string list \<Rightarrow> string option" where
  "layout_loop present [] = None"
| "layout_loop present (name # required) =
     (if map_of present name \<noteq> Some True then Some name else layout_loop present required)"

text \<open>The result is the name in the \<open>MissingError\<close>, None for nil.\<close>

definition IsValidPGDataLayout :: "(string, bool) gomap \<Rightarrow> string option" where
  "IsValidPGDataLayout present = layout_loop present [''PG_VERSION'', ''base'', ''global'', ''pg_wal'']"

definition MissingError_Error :: "string \<Rightarrow> string" where
  "MissingError_Error name = ''datadir: required entry missing from PGDATA: '' @ name"

subsection \<open>Lemmas\<close>

lemma sort_pass_mset: "add_mset (fst (sort_pass h xs)) (mset (snd (sort_pass h xs))) = add_mset h (mset xs)"
  by (induction h xs rule: sort_pass.induct) (auto simp: case_prod_beta add_mset_commute)

lemma sort_pass_max:
  "mf_CreationTimestamp h \<le> mf_CreationTimestamp (fst (sort_pass h xs)) \<and>
   (\<forall>x \<in> set (snd (sort_pass h xs)). mf_CreationTimestamp x \<le> mf_CreationTimestamp (fst (sort_pass h xs)))"
  by (induction h xs rule: sort_pass.induct) (auto simp: case_prod_beta time_After_def)

lemma newest_first_mset: "mset (newest_first xs) = mset xs"
  by (induction xs rule: newest_first.induct) (simp_all add: sort_pass_mset)

lemma newest_first_sorted: "sorted_wrt (\<lambda>a b. mf_CreationTimestamp b \<le> mf_CreationTimestamp a) (newest_first xs)"
proof (induction xs rule: newest_first.induct)
  case (2 h t)
  have "set (newest_first (snd (sort_pass h t))) = set (snd (sort_pass h t))"
    by (metis newest_first_mset set_mset_mset)
  with 2 sort_pass_max [of h t] show ?case by simp
qed simp

definition retained :: "SnapRetention \<Rightarrow> Manifest list \<Rightarrow> gotime \<Rightarrow> Manifest list" where
  "retained p snaps now = map snd (filter (\<lambda>e. \<not> expired_at p now e) (enumerate 0 (newest_first snaps)))"

lemma in_enumerate: "(i, x) \<in> set (enumerate 0 xs) \<longleftrightarrow> i < length xs \<and> xs ! i = x"
  by (auto simp: in_set_enumerate_eq)

lemma mset_partition: "mset (filter P xs) + mset (filter (\<lambda>x. \<not> P x) xs) = mset xs"
  by (induction xs) auto

lemma retained_count:
  assumes "0 < sr_MaxCount p" shows "int (length (retained p snaps now)) \<le> sr_MaxCount p"
proof -
  let ?xs = "enumerate 0 (newest_first snaps)"
  have "distinct (map fst (filter (\<lambda>e. \<not> expired_at p now e) ?xs))" by (simp add: distinct_map_filter)
  then have "length (retained p snaps now) = card (set (map fst (filter (\<lambda>e. \<not> expired_at p now e) ?xs)))"
    unfolding retained_def by (metis distinct_card length_map)
  also have "\<dots> \<le> card {..<nat (sr_MaxCount p)}"
    by (intro card_mono) (use assms in \<open>auto simp: expired_at_def\<close>)
  finally show ?thesis using assms by simp
qed

lemma newer_count:
  assumes "i < length (newest_first snaps)"
  shows "i < length (filter (\<lambda>s. mf_CreationTimestamp (newest_first snaps ! i) \<le> mf_CreationTimestamp s) snaps)"
proof -
  let ?xs = "newest_first snaps" and ?P = "\<lambda>s. mf_CreationTimestamp (newest_first snaps ! i) \<le> mf_CreationTimestamp s"
  have "?P (?xs ! j)" if "j \<le> i" for j
    using that assms sorted_wrt_nth_less [OF newest_first_sorted, of j i snaps] by (cases "j = i") auto
  then have "filter ?P (take (Suc i) ?xs) = take (Suc i) ?xs"
    using assms by (auto simp: filter_id_conv in_set_conv_nth)
  moreover have "length (filter ?P (take (Suc i) ?xs)) \<le> length (filter ?P ?xs)"
    by (metis append_take_drop_id filter_append le_add1 length_append)
  moreover have "mset (filter ?P ?xs) = mset (filter ?P snaps)" by (simp add: newest_first_mset)
  then have "length (filter ?P ?xs) = length (filter ?P snaps)" by (metis size_mset)
  ultimately show ?thesis using assms by simp
qed

lemma time_Sub_mono: "time_Sub now a < time_Sub now b \<Longrightarrow> b < a"
  by (auto simp: time_Sub_def)

lemma splitc_append_sep: "splitc c (a @ c # b) = splitc c a @ splitc c b"
proof (induction a)
  case (Cons x a)
  then show ?case by (cases "splitc c a") (auto simp: Let_def split: list.splits)
qed simp

definition normal :: "string \<Rightarrow> bool" where
  "normal c \<longleftrightarrow> c \<noteq> [] \<and> c \<noteq> ''.'' \<and> c \<noteq> ''..'' \<and> CHR ''/'' \<notin> set c"

lemma clean_no_dotdot:
  "''..'' \<notin> set cs \<Longrightarrow> foldl (clean_step r) out cs = out @ filter (\<lambda>c. c \<noteq> [] \<and> c \<noteq> ''.'') cs"
  by (induction cs arbitrary: out) (auto simp: clean_step_def)

lemma Join_Cons_concat: "Join (p # qs) sep = p @ concat (map (\<lambda>q. sep @ q) qs)"
proof (induction qs arbitrary: p)
  case (Cons q qs)
  show ?case using Cons [of q] by simp
qed simp

lemma Join_append:
  "ps \<noteq> [] \<Longrightarrow> Join (ps @ qs) sep = Join ps sep @ concat (map (\<lambda>q. sep @ q) qs)"
  by (cases ps) (simp_all add: Join_Cons_concat del: Join.simps)

lemma Clean_rooted:
  "''..'' \<notin> set (splitc (CHR ''/'') (CHR ''/'' # r)) \<Longrightarrow>
   Clean (CHR ''/'' # r) = ''/'' @ Join (filter (\<lambda>c. c \<noteq> [] \<and> c \<noteq> ''.'') (splitc (CHR ''/'') r)) ''/''"
  using splitc_append_sep [of "CHR ''/''" "[]" r] by (simp add: Clean_def Let_def clean_no_dotdot clean_step_def [of True "[]" "[]"])

lemma Clean_normal:
  assumes "list_all normal cs" "cs \<noteq> []"
  shows "Clean (''/'' @ Join cs ''/'') = ''/'' @ Join cs ''/''"
proof -
  have s: "splitc (CHR ''/'') (Join cs ''/'') = cs" using assms by (intro splitc_Join) (auto simp: list_all_iff normal_def)
  then have "''..'' \<notin> set (splitc (CHR ''/'') (CHR ''/'' # Join cs ''/''))"
    using assms splitc_append_sep [of "CHR ''/''" "[]" "Join cs ''/''"] by (auto simp: list_all_iff normal_def)
  moreover have "filter (\<lambda>c. c \<noteq> [] \<and> c \<noteq> ''.'') cs = cs" using assms(1) by (auto simp: filter_id_conv list_all_iff normal_def)
  ultimately show ?thesis using Clean_rooted [of "Join cs ''/''"] s by simp
qed

definition path_parts :: "string \<Rightarrow> string list" where
  "path_parts rel = filter (\<lambda>c. c \<noteq> [] \<and> c \<noteq> ''.'') (splitc (CHR ''/'') rel)"

lemma path_parts_TrimPrefix: "path_parts (TrimPrefix rel ''/'') = path_parts rel"
  "''..'' \<in> set (splitc (CHR ''/'') (TrimPrefix rel ''/'')) \<longleftrightarrow> ''..'' \<in> set (splitc (CHR ''/'') rel)"
proof -
  have "splitc (CHR ''/'') rel = (if prefix ''/'' rel then [[]] else []) @ splitc (CHR ''/'') (TrimPrefix rel ''/'')"
    using splitc_append_sep [of "CHR ''/''" "[]" "tl rel"] by (cases rel) (auto simp: TrimPrefix_def)
  then show "path_parts (TrimPrefix rel ''/'') = path_parts rel"
    "''..'' \<in> set (splitc (CHR ''/'') (TrimPrefix rel ''/'')) \<longleftrightarrow> ''..'' \<in> set (splitc (CHR ''/'') rel)"
    by (auto simp: path_parts_def)
qed

definition root_parts :: "string list" where
  "root_parts = [''var'', ''lib'', ''postgresql'', ''data'']"

lemma PGData_text: "PGData = ''/var/lib/postgresql/data''"
  by (simp add: PGData_def Root_def)

lemma root_parts_normal: "list_all normal root_parts"
  by (simp add: root_parts_def normal_def)

lemma PGData_Join: "PGData = ''/'' @ Join root_parts ''/''" "PGData = Join ([] # root_parts) ''/''"
  by (simp_all add: PGData_text root_parts_def)

lemma PGData_split: "splitc (CHR ''/'') PGData = [] # root_parts"
  unfolding PGData_Join(2) using root_parts_normal by (intro splitc_Join) (auto simp: list_all_iff normal_def)

lemmas PGData_parts = PGData_Join(1) PGData_split root_parts_normal

lemma PGDataPath_parts:
  assumes "''..'' \<notin> set (splitc (CHR ''/'') rel)"
  shows "PGDataPath rel = ''/'' @ Join (root_parts @ path_parts rel) ''/''"
proof (cases "rel = []")
  case True
  then show ?thesis by (simp add: PGDataPath_def PGData_parts(1) path_parts_def)
next
  case False
  let ?r = "TrimPrefix rel ''/''"
  obtain d where d: "PGData = CHR ''/'' # d" by (simp add: PGData_parts(1))
  have s: "splitc (CHR ''/'') (PGData @ CHR ''/'' # ?r) = [] # root_parts @ splitc (CHR ''/'') ?r"
    unfolding splitc_append_sep PGData_parts(2) by simp
  then have sd: "splitc (CHR ''/'') (d @ CHR ''/'' # ?r) = root_parts @ splitc (CHR ''/'') ?r"
    using splitc_append_sep [of "CHR ''/''" "[]" "d @ CHR ''/'' # ?r"] by (simp add: d)
  have "''..'' \<notin> set root_parts" using PGData_parts(3) by (auto simp: list_all_iff normal_def)
  then have "''..'' \<notin> set (splitc (CHR ''/'') (PGData @ CHR ''/'' # ?r))"
    unfolding s using assms path_parts_TrimPrefix(2) by auto
  moreover have "filter (\<lambda>c. c \<noteq> [] \<and> c \<noteq> ''.'') root_parts = root_parts"
    using PGData_parts(3) by (auto simp: filter_id_conv list_all_iff normal_def)
  ultimately have "Clean (PGData @ CHR ''/'' # ?r) = ''/'' @ Join (root_parts @ path_parts ?r) ''/''"
    using Clean_rooted [of "d @ CHR ''/'' # ?r"] by (simp add: d sd path_parts_def)
  moreover have "PGData \<noteq> []" by (simp add: d)
  ultimately show ?thesis using False by (simp add: PGDataPath_def filepath_Join_def path_parts_TrimPrefix(1))
qed

lemma path_parts_normal: "''..'' \<notin> set (splitc (CHR ''/'') rel) \<Longrightarrow> list_all normal (path_parts rel)"
  by (auto simp: path_parts_def list_all_iff normal_def dest: splitc_parts)

subsection \<open>Properties\<close>

text \<open>
  C23. The retention splits the snapshots: what \<open>Apply\<close> returns and what is kept make up all of them; no more than the maximal number are kept and
  none above the maximal age; every kept snapshot is at least as new as every deleted one; and a snapshot is deleted only when it
  is above the maximal age or when, with itself, more than the maximal number are at least as new.
\<close>

theorem snapshot_retention:
  "mset (retention_Apply p snaps now) + mset (retained p snaps now) = mset snaps \<and>
   (0 < sr_MaxCount p \<longrightarrow> int (length (retained p snaps now)) \<le> sr_MaxCount p) \<and>
   (0 < sr_MaxAge p \<longrightarrow> (\<forall>k \<in> set (retained p snaps now). time_Sub now (mf_CreationTimestamp k) \<le> sr_MaxAge p)) \<and>
   (\<forall>k \<in> set (retained p snaps now). \<forall>d \<in> set (retention_Apply p snaps now).
      mf_CreationTimestamp d \<le> mf_CreationTimestamp k) \<and>
   (\<forall>d \<in> set (retention_Apply p snaps now).
      0 < sr_MaxAge p \<and> sr_MaxAge p < time_Sub now (mf_CreationTimestamp d) \<or>
      0 < sr_MaxCount p \<and>
        sr_MaxCount p < int (length (filter (\<lambda>s. mf_CreationTimestamp d \<le> mf_CreationTimestamp s) snaps)))"
proof -
  let ?xs = "newest_first snaps"
  have "mset (map snd (filter (expired_at p now) (enumerate 0 ?xs))) +
      mset (map snd (filter (\<lambda>e. \<not> expired_at p now e) (enumerate 0 ?xs))) = mset (map snd (enumerate 0 ?xs))"
    unfolding mset_map image_mset_union [symmetric] by (simp only: mset_partition)
  then have all: "mset (retention_Apply p snaps now) + mset (retained p snaps now) = mset snaps"
    by (simp only: retention_Apply_def retained_def map_snd_enumerate newest_first_mset)
  have newer: "mf_CreationTimestamp d \<le> mf_CreationTimestamp k"
    if "k \<in> set (retained p snaps now)" "d \<in> set (retention_Apply p snaps now)" for k d
  proof -
    from that obtain i j where k: "i < length ?xs" "?xs ! i = k" "\<not> expired_at p now (i, k)"
      and d: "j < length ?xs" "?xs ! j = d" "expired_at p now (j, d)"
      by (auto simp: retained_def retention_Apply_def in_enumerate)
    show ?thesis
    proof (cases "sr_MaxAge p > 0 \<and> time_Sub now (mf_CreationTimestamp d) > sr_MaxAge p")
      case True
      with k(3) have "time_Sub now (mf_CreationTimestamp k) < time_Sub now (mf_CreationTimestamp d)"
        by (auto simp: expired_at_def)
      then show ?thesis by (auto dest: time_Sub_mono)
    next
      case False
      with k(3) d(3) have "i < j" by (auto simp: expired_at_def)
      then show ?thesis using sorted_wrt_nth_less [OF newest_first_sorted, of i j snaps] k d by simp
    qed
  qed
  have "\<forall>k \<in> set (retained p snaps now). time_Sub now (mf_CreationTimestamp k) \<le> sr_MaxAge p" if "0 < sr_MaxAge p"
    using that by (auto simp: retained_def expired_at_def)
  moreover have "0 < sr_MaxAge p \<and> sr_MaxAge p < time_Sub now (mf_CreationTimestamp d) \<or>
      0 < sr_MaxCount p \<and> sr_MaxCount p < int (length (filter (\<lambda>s. mf_CreationTimestamp d \<le> mf_CreationTimestamp s) snaps))"
    if d: "d \<in> set (retention_Apply p snaps now)" for d
  proof -
    from d obtain i where i: "i < length ?xs" "?xs ! i = d" "expired_at p now (i, d)"
      by (auto simp: retention_Apply_def in_enumerate)
    then show ?thesis using newer_count [OF i(1)] by (auto simp: expired_at_def)
  qed
  ultimately show ?thesis using all newer retained_count by blast
qed

text \<open>C23 on three snapshots of which one may stay.\<close>

theorem snapshot_retention_witness:
  "let s = (\<lambda>t. \<lparr>mf_APIVersion = [], mf_Kind = [], mf_Name = [], mf_Namespace = [], mf_Labels = [],
      mf_SnapshotClassName = [], mf_SourcePVC = [], mf_CreationTimestamp = t\<rparr>);
     p = \<lparr>sr_MaxCount = 1, sr_MaxAge = 0\<rparr> in
   map mf_CreationTimestamp (retention_Apply p [s 5, s 9, s 7] 10) = [7, 5] \<and> length (retained p [s 5, s 9, s 7] 10) \<le> 1"
proof -
  let ?s = "\<lambda>t. \<lparr>mf_APIVersion = [], mf_Kind = [], mf_Name = [], mf_Namespace = [], mf_Labels = [],
      mf_SnapshotClassName = [], mf_SourcePVC = [], mf_CreationTimestamp = t\<rparr>"
  have "map mf_CreationTimestamp (retention_Apply \<lparr>sr_MaxCount = 1, sr_MaxAge = 0\<rparr> [?s 5, ?s 9, ?s 7] 10) = [7, 5]" by code_simp
  with snapshot_retention [of "\<lparr>sr_MaxCount = 1, sr_MaxAge = 0\<rparr>" "[?s 5, ?s 9, ?s 7]" 10] show ?thesis
    by (simp add: Let_def)
qed

text \<open>
  A relative path without a dot-dot component stays inside the data directory: \<open>PGDataPath\<close> appends its proper components, and
  \<open>IsInsidePGData\<close> agrees.
\<close>

theorem PGDataPath_inside:
  assumes "''..'' \<notin> set (splitc (CHR ''/'') rel)"
  shows "PGDataPath rel = PGData @ concat (map (\<lambda>c. ''/'' @ c) (path_parts rel)) \<and> IsInsidePGData (PGDataPath rel)"
proof -
  have "root_parts \<noteq> []" by (simp add: root_parts_def)
  then have p: "PGDataPath rel = PGData @ concat (map (\<lambda>c. ''/'' @ c) (path_parts rel))"
    unfolding PGDataPath_parts [OF assms] PGData_parts(1) by (simp add: Join_append)
  have "Clean (PGDataPath rel) = PGDataPath rel"
    unfolding PGDataPath_parts [OF assms] using PGData_parts(3) path_parts_normal [OF assms]
    by (intro Clean_normal) (auto simp: root_parts_def)
  then show ?thesis using p by (simp add: IsInsidePGData_def)
qed

text \<open>Evaluation for a path with a redundant component.\<close>

theorem PGDataPath_inside_witness:
  "PGDataPath ''/base/./16384'' = ''/var/lib/postgresql/data/base/16384'' \<and> IsInsidePGData (PGDataPath ''/base/./16384'')"
proof -
  have "''..'' \<notin> set (splitc (CHR ''/'') ''/base/./16384'')" "path_parts ''/base/./16384'' = [''base'', ''16384'']" by code_simp+
  note p = PGDataPath_inside [OF this(1), unfolded this(2) PGData_text]
  from p [THEN conjunct1] have "PGDataPath ''/base/./16384'' = ''/var/lib/postgresql/data/base/16384''" by simp
  with p [THEN conjunct2] show ?thesis by blast
qed

text \<open>With dot-dot the path leaves the directory, and a sibling with the same prefix counts as inside.\<close>

lemma PGDataPath_escapes: "PGDataPath ''../backup'' = ''/var/lib/postgresql/backup''"
proof -
  have "splitc (CHR ''/'') (PGData @ ''/../backup'') = ([] # root_parts) @ [''..'', ''backup'']"
    using splitc_append_sep [of "CHR ''/''" PGData "''../backup''"] by (simp add: PGData_split)
  moreover have "prefix ''/'' (PGData @ ''/../backup'')" "PGData \<noteq> []" by (simp_all add: PGData_text)
  ultimately show ?thesis
    by (simp add: PGDataPath_def filepath_Join_def TrimPrefix_def Clean_def Let_def root_parts_def clean_step_def)
qed

lemma IsInsidePGData_sibling: "IsInsidePGData ''/var/lib/postgresql/database''"
proof -
  let ?cs = "[''var'', ''lib'', ''postgresql'', ''database'']"
  have "Clean (''/'' @ Join ?cs ''/'') = ''/'' @ Join ?cs ''/''" by (rule Clean_normal) (simp_all add: normal_def)
  then show ?thesis by (simp add: IsInsidePGData_def PGData_text)
qed

end
