(* ===== verification/Reports.thy ===== *)
theory Reports
  imports Go_Time
begin

section \<open>Image references and health reports\<close>

text \<open>
  The packages \<open>imageutil\<close> (parsing and printing of image references) and \<open>healthcheck\<close> (probes, checks and the status of
  a report). A probe is a function of the world; the clock is an argument.
\<close>

subsection \<open>The package imageutil\<close>

record Reference =
  rf_Registry :: string
  rf_Repository :: string
  rf_Tag :: string
  rf_Digest :: string

definition image_String :: "Reference \<Rightarrow> string" where
  "image_String r =
     (let out = rf_Repository r; out = (if rf_Registry r \<noteq> [] then rf_Registry r @ ''/'' @ out else out) in
      if rf_Digest r \<noteq> [] then out @ ''@'' @ rf_Digest r
      else if rf_Tag r \<noteq> [] then out @ '':'' @ rf_Tag r
      else out)"

definition IsTagged :: "Reference \<Rightarrow> bool" where
  "IsTagged r \<longleftrightarrow> rf_Tag r \<noteq> [] \<and> rf_Digest r = []"

definition IsPinned :: "Reference \<Rightarrow> bool" where
  "IsPinned r \<longleftrightarrow> rf_Digest r \<noteq> []"

datatype image_error = EmptyReference | NoRepository string

definition split_digest :: "string \<Rightarrow> string \<times> string" where
  "split_digest rest = (case IndexByte rest (CHR ''@'') of None \<Rightarrow> (rest, []) | Some i \<Rightarrow> (take i rest, drop (i + 1) rest))"

definition split_tag :: "string \<Rightarrow> string \<times> string" where
  "split_tag rest =
     (case LastIndexByte rest (CHR ''/'') of
        Some l \<Rightarrow>
          (let head = take l rest; tail = drop l rest in
           case LastIndexByte tail (CHR '':'') of None \<Rightarrow> (rest, []) | Some i \<Rightarrow> (head @ take i tail, drop (i + 1) tail))
      | None \<Rightarrow>
          (case LastIndexByte rest (CHR '':'') of None \<Rightarrow> (rest, []) | Some i \<Rightarrow> (take i rest, drop (i + 1) rest)))"

definition split_registry :: "string \<Rightarrow> string \<times> string" where
  "split_registry rest =
     (case IndexByte rest (CHR ''/'') of
        None \<Rightarrow> ([], rest)
      | Some i \<Rightarrow>
          if i > 0 \<and> (ContainsAny (take i rest) ''.:'' \<or> take i rest = ''localhost'')
          then (take i rest, drop (i + 1) rest) else ([], rest))"

definition image_Parse :: "string \<Rightarrow> image_error + Reference" where
  "image_Parse s =
     (if s = [] then Inl EmptyReference
      else let (rest, digest) = split_digest s; (rest, tag) = split_tag rest; (registry, rest) = split_registry rest in
        if rest = [] then Inl (NoRepository s)
        else Inr \<lparr>rf_Registry = registry, rf_Repository = rest, rf_Tag = tag, rf_Digest = digest\<rparr>)"

definition WithTag :: "Reference \<Rightarrow> string \<Rightarrow> Reference" where
  "WithTag r tag = r\<lparr>rf_Tag := tag, rf_Digest := []\<rparr>"

definition WithDigest :: "Reference \<Rightarrow> string \<Rightarrow> Reference" where
  "WithDigest r digest = r\<lparr>rf_Digest := digest\<rparr>"

definition PostgresImage :: "int \<Rightarrow> string" where
  "PostgresImage major = ''docker.io/library/postgres:'' @ dec major @ ''-alpine''"

subsection \<open>The package healthcheck\<close>

definition StatusPassing :: string where "StatusPassing = ''Passing''"
definition StatusFailing :: string where "StatusFailing = ''Failing''"
definition StatusUnknown :: string where "StatusUnknown = ''Unknown''"

record Check =
  hc_Name :: string
  hc_Status :: string
  hc_Message :: string
  hc_ObservedAt :: gotime
  hc_Duration :: duration
  hc_Critical :: bool

definition Check_Equal :: "Check \<Rightarrow> Check \<Rightarrow> bool" where
  "Check_Equal c d \<longleftrightarrow> hc_Name c = hc_Name d \<and> hc_Status c = hc_Status d \<and> hc_Message c = hc_Message d \<and>
     hc_Critical c = hc_Critical d"

text \<open>\<open>None\<close> is the nil closure.\<close>

definition FuncProbe_Run :: "string \<Rightarrow> ('w \<Rightarrow> Check \<times> 'w) option \<Rightarrow> 'w \<Rightarrow> Check \<times> 'w" where
  "FuncProbe_Run name fn w =
     (case fn of
        None \<Rightarrow> (\<lparr>hc_Name = name, hc_Status = StatusUnknown, hc_Message = ''nil func'', hc_ObservedAt = 0, hc_Duration = 0,
                 hc_Critical = False\<rparr>, w)
      | Some f \<Rightarrow> (case f w of (c, w') \<Rightarrow> (if hc_Name c = [] then c\<lparr>hc_Name := name\<rparr> else c, w')))"

record Report =
  rp_Instance :: string
  rp_Checks :: "Check list"

definition Report_Add :: "gotime \<Rightarrow> Report \<Rightarrow> Check \<Rightarrow> Report" where
  "Report_Add now r c =
     (let c = (if hc_ObservedAt c = 0 then c\<lparr>hc_ObservedAt := now\<rparr> else c) in r\<lparr>rp_Checks := rp_Checks r @ [c]\<rparr>)"

definition Report_Status :: "Report \<Rightarrow> string" where
  "Report_Status r =
     (if rp_Checks r = [] then StatusUnknown
      else if list_ex (\<lambda>c. hc_Critical c \<and> hc_Status c = StatusFailing) (rp_Checks r) then StatusFailing
      else
       let hasFailing = list_ex (\<lambda>c. hc_Status c = StatusFailing) (rp_Checks r);
           hasUnknown = list_ex (\<lambda>c. hc_Status c = StatusUnknown) (rp_Checks r) in
       if hasFailing then StatusFailing else if hasUnknown then StatusUnknown else StatusPassing)"

text \<open>\<open>sort.Slice\<close> may reorder checks of one name; the sort here keeps them in order.\<close>

definition SortedChecks :: "Report \<Rightarrow> Check list" where
  "SortedChecks r = sort_key hc_Name (rp_Checks r)"

definition Report_Summary :: "Report \<Rightarrow> string" where
  "Report_Summary r =
     Join ([''instance='' @ rp_Instance r, ''status='' @ Report_Status r, ''checks='' @ dec (int (length (rp_Checks r)))] @
       map (\<lambda>c. hc_Name c @ ''='' @ hc_Status c) (filter (\<lambda>c. hc_Status c \<noteq> StatusPassing) (SortedChecks r))) '' ''"

fun run_probes :: "('w \<Rightarrow> gotime) \<Rightarrow> ('w \<Rightarrow> Check \<times> 'w) option list \<Rightarrow> Report \<Rightarrow> 'w \<Rightarrow> Report \<times> 'w" where
  "run_probes clock [] report w = (report, w)"
| "run_probes clock (None # probes) report w = run_probes clock probes report w"
| "run_probes clock (Some p # probes) report w =
     (let start = clock w; (c, w') = p w; c = c\<lparr>hc_Duration := time_Sub (clock w') start\<rparr>;
          c = (if hc_ObservedAt c = 0 then c\<lparr>hc_ObservedAt := start\<rparr> else c) in
      run_probes clock probes (Report_Add (clock w') report c) w')"

definition healthcheck_Run :: "('w \<Rightarrow> gotime) \<Rightarrow> string \<Rightarrow> ('w \<Rightarrow> Check \<times> 'w) option list \<Rightarrow> 'w \<Rightarrow> Report \<times> 'w" where
  "healthcheck_Run clock inst probes = run_probes clock probes \<lparr>rp_Instance = inst, rp_Checks = []\<rparr>"

definition SimpleCheck :: "string \<Rightarrow> string \<Rightarrow> bool \<Rightarrow> bool \<Rightarrow> Check" where
  "SimpleCheck name message ok critical =
     \<lparr>hc_Name = name, hc_Status = (if \<not> ok then StatusFailing else StatusPassing), hc_Message = message, hc_ObservedAt = 0,
      hc_Duration = 0, hc_Critical = critical\<rparr>"

definition CombineReports :: "string \<Rightarrow> Report list \<Rightarrow> Report" where
  "CombineReports inst reports = \<lparr>rp_Instance = inst, rp_Checks = concat (map rp_Checks reports)\<rparr>"

definition Report_Filter :: "Report \<Rightarrow> (Check \<Rightarrow> bool) \<Rightarrow> Report" where
  "Report_Filter r keep = \<lparr>rp_Instance = rp_Instance r, rp_Checks = filter keep (rp_Checks r)\<rparr>"

definition FailingChecks :: "Report \<Rightarrow> Check list" where
  "FailingChecks r = filter (\<lambda>c. hc_Status c = StatusFailing) (rp_Checks r)"

subsection \<open>Printing and parsing an image reference\<close>

text \<open>
  A reference that can be read back: the registry, if any, looks like one, the repository has neither a colon nor an at sign and,
  without a registry, does not start like one, and the tag has none of the separators.
\<close>

definition registry_like :: "string \<Rightarrow> bool" where
  "registry_like h \<longleftrightarrow> ContainsAny h ''.:'' \<or> h = ''localhost''"

definition well_formed :: "Reference \<Rightarrow> bool" where
  "well_formed r \<longleftrightarrow>
     (rf_Registry r \<noteq> [] \<longrightarrow> registry_like (rf_Registry r)) \<and> CHR ''/'' \<notin> set (rf_Registry r) \<and> CHR ''@'' \<notin> set (rf_Registry r) \<and>
     rf_Repository r \<noteq> [] \<and> CHR '':'' \<notin> set (rf_Repository r) \<and> CHR ''@'' \<notin> set (rf_Repository r) \<and>
     (rf_Registry r = [] \<and> CHR ''/'' \<in> set (rf_Repository r) \<longrightarrow>
        \<not> registry_like (takeWhile (\<lambda>c. c \<noteq> CHR ''/'') (rf_Repository r))) \<and>
     CHR ''/'' \<notin> set (rf_Tag r) \<and> CHR '':'' \<notin> set (rf_Tag r) \<and> CHR ''@'' \<notin> set (rf_Tag r)"

lemma split_digest_print:
  "CHR ''@'' \<notin> set a \<Longrightarrow> split_digest (a @ (if d = [] then [] else CHR ''@'' # d)) = (a, d)"
  by (cases "d = []") (simp_all add: split_digest_def IndexByte_append IndexByte_None [THEN iffD2])

lemma after_last_sep:
  assumes "x @ c # y = h @ c # p" "c \<notin> set y" shows "set y \<subseteq> set p"
  using assms by (auto simp: append_eq_append_conv2 Cons_eq_append_conv append_eq_Cons_conv)

lemma split_tag_print:
  assumes "CHR '':'' \<notin> set p" "CHR ''/'' \<notin> set t" "CHR '':'' \<notin> set t" "p \<noteq> []"
    and "a = [] \<or> a = h @ ''/''"
  shows "split_tag (a @ p @ (if t = [] then [] else CHR '':'' # t)) = (a @ p, t)"
proof (cases "CHR ''/'' \<in> set (a @ p)")
  case True
  then obtain x y where xy: "a @ p = x @ CHR ''/'' # y" "CHR ''/'' \<notin> set y" by (blast dest: split_list_last)
  have "set y \<subseteq> set p"
  proof (cases "a = []")
    case True
    then show ?thesis using xy(1) by auto
  next
    case False
    then have "x @ CHR ''/'' # y = h @ CHR ''/'' # p" using assms(5) xy(1) by simp
    then show ?thesis using xy(2) by (rule after_last_sep)
  qed
  then have y: "CHR '':'' \<notin> set y" using assms(1) by blast
  let ?z = "if t = [] then [] else CHR '':'' # t"
  have "LastIndexByte (x @ CHR ''/'' # (y @ ?z)) (CHR ''/'') = Some (length x)"
    using xy(2) assms(2) by (intro LastIndexByte_append) auto
  moreover have z: "a @ p @ ?z = x @ CHR ''/'' # (y @ ?z)" using xy(1) by (simp flip: append_assoc)
  ultimately have l: "LastIndexByte (a @ p @ ?z) (CHR ''/'') = Some (length x)" by (simp only:)
  have d: "drop (length x) (a @ p @ ?z) = CHR ''/'' # y @ ?z" "take (length x) (a @ p @ ?z) = x"
    unfolding z by simp_all
  show ?thesis
  proof (cases "t = []")
    case True
    then have n: "LastIndexByte (CHR ''/'' # y @ ?z) (CHR '':'') = None" using y by simp
    show ?thesis unfolding split_tag_def l d option.case Let_def n using True by simp
  next
    case False
    then have "LastIndexByte ((CHR ''/'' # y) @ CHR '':'' # t) (CHR '':'') = Some (length (CHR ''/'' # y))"
      using assms(3) by (intro LastIndexByte_append)
    then have "LastIndexByte (CHR ''/'' # y @ ?z) (CHR '':'') = Some (Suc (length y))" using False by simp
    then show ?thesis using False xy(1) unfolding split_tag_def l d option.case Let_def by simp
  qed
next
  case False
  then have n: "LastIndexByte (a @ p @ (if t = [] then [] else CHR '':'' # t)) (CHR ''/'') = None" and a: "a = []"
    using assms(2,5) by auto
  show ?thesis using assms(1,3) unfolding split_tag_def n option.case by (simp add: a LastIndexByte_append LastIndexByte_None [THEN iffD2])
qed

lemma split_registry_print:
  assumes "well_formed r"
  shows "split_registry ((if rf_Registry r \<noteq> [] then rf_Registry r @ ''/'' else []) @ rf_Repository r) =
    (rf_Registry r, rf_Repository r)"
proof (cases "rf_Registry r = []")
  case False
  with assms show ?thesis
    by (simp add: split_registry_def IndexByte_append well_formed_def registry_like_def)
next
  case True
  show ?thesis
  proof (cases "CHR ''/'' \<in> set (rf_Repository r)")
    case slash: True
    then obtain x y where xy: "rf_Repository r = x @ CHR ''/'' # y" "CHR ''/'' \<notin> set x" by (blast dest: split_list_first)
    then have "takeWhile (\<lambda>c. c \<noteq> CHR ''/'') (rf_Repository r) = x"
      unfolding xy(1) by (subst takeWhile_append2) auto
    with assms True slash have "\<not> registry_like x" by (simp add: well_formed_def)
    then show ?thesis using True xy by (simp add: split_registry_def IndexByte_append registry_like_def)
  next
    case False
    then show ?thesis using True by (simp add: split_registry_def IndexByte_None [THEN iffD2])
  qed
qed

text \<open>
  A well-formed reference reads back from its text; a digest takes the place of the tag.
\<close>

theorem image_round_trip:
  assumes "well_formed r"
  shows "image_Parse (image_String r) = Inr (if rf_Digest r \<noteq> [] then r\<lparr>rf_Tag := []\<rparr> else r)"
proof -
  let ?a = "if rf_Registry r \<noteq> [] then rf_Registry r @ ''/'' else []" and ?p = "rf_Repository r"
  let ?t = "if rf_Digest r \<noteq> [] then [] else rf_Tag r"
  let ?base = "?a @ ?p @ (if ?t = [] then [] else CHR '':'' # ?t)"
  have s: "image_String r = ?base @ (if rf_Digest r = [] then [] else CHR ''@'' # rf_Digest r)"
    by (simp add: image_String_def Let_def)
  have "CHR ''@'' \<notin> set ?base" using assms by (auto simp: well_formed_def)
  then have d: "split_digest (image_String r) = (?base, rf_Digest r)" unfolding s by (rule split_digest_print)
  have t: "split_tag ?base = (?a @ ?p, ?t)"
    using assms by (intro split_tag_print [of _ _ _ "rf_Registry r"]) (auto simp: well_formed_def)
  note g = split_registry_print [OF assms]
  have "image_String r \<noteq> []" "?p \<noteq> []" using assms by (auto simp: s well_formed_def)
  then show ?thesis unfolding image_Parse_def d Let_def prod.case t g by auto
qed

text \<open>Evaluation for a registry with a port.\<close>

theorem image_round_trip_witness:
  "image_Parse ''localhost:5000/kitio-tek/athos:v1'' =
     Inr \<lparr>rf_Registry = ''localhost:5000'', rf_Repository = ''kitio-tek/athos'', rf_Tag = ''v1'', rf_Digest = []\<rparr>"
proof -
  let ?r = "\<lparr>rf_Registry = ''localhost:5000'', rf_Repository = ''kitio-tek/athos'', rf_Tag = ''v1'', rf_Digest = []\<rparr>"
  have "well_formed ?r" by code_simp
  moreover have "image_String ?r = ''localhost:5000/kitio-tek/athos:v1''" by code_simp
  ultimately show ?thesis using image_round_trip [of ?r] by simp
qed

subsection \<open>The status of a report\<close>

text \<open>
  The status is the worst of the checks. Whether a failing check is critical makes no difference, and neither do the order of the
  checks and how they are split over reports.
\<close>

theorem Report_Status_worst:
  "Report_Status r =
     (if rp_Checks r = [] then StatusUnknown
      else if FailingChecks r \<noteq> [] then StatusFailing
      else if \<exists>c \<in> set (rp_Checks r). hc_Status c = StatusUnknown then StatusUnknown else StatusPassing)"
  by (auto simp: Report_Status_def FailingChecks_def list_ex_iff filter_empty_conv)

lemma Report_Status_critical:
  "Report_Status (r\<lparr>rp_Checks := map (\<lambda>c. c\<lparr>hc_Critical := f c\<rparr>) (rp_Checks r)\<rparr>) = Report_Status r"
  by (simp add: Report_Status_worst FailingChecks_def filter_map o_def)

lemma Report_Status_order:
  "mset (rp_Checks r) = mset (rp_Checks s) \<Longrightarrow> Report_Status r = Report_Status s"
  by (auto simp: Report_Status_worst FailingChecks_def filter_empty_conv dest: mset_eq_setD)

lemma Report_Status_Sorted: "Report_Status (r\<lparr>rp_Checks := SortedChecks r\<rparr>) = Report_Status r"
  by (rule Report_Status_order) (simp add: SortedChecks_def)

text \<open>One check per probe that is not nil, and the checks that were there before stay in front.\<close>

lemma run_probes_Checks:
  "rp_Instance (fst (run_probes clock ps r w)) = rp_Instance r \<and>
   length (rp_Checks (fst (run_probes clock ps r w))) = length (rp_Checks r) + length (filter (\<lambda>p. p \<noteq> None) ps) \<and>
   take (length (rp_Checks r)) (rp_Checks (fst (run_probes clock ps r w))) = rp_Checks r"
proof (induction clock ps r w rule: run_probes.induct)
  case (3 clock p ps r w)
  obtain c w' where p: "p w = (c, w')" by fastforce
  define c' where "c' = (if hc_ObservedAt c = 0 then c\<lparr>hc_Duration := time_Sub (clock w') (clock w), hc_ObservedAt := clock w\<rparr>
    else c\<lparr>hc_Duration := time_Sub (clock w') (clock w)\<rparr>)"
  have run: "run_probes clock (Some p # ps) r w = run_probes clock ps (Report_Add (clock w') r c') w'"
    by (simp add: p c'_def Let_def)
  obtain d where d: "Report_Add (clock w') r c' = r\<lparr>rp_Checks := rp_Checks r @ [d]\<rparr>" by (simp add: Report_Add_def Let_def)
  have IH: "rp_Instance (fst (run_probes clock ps (r\<lparr>rp_Checks := rp_Checks r @ [d]\<rparr>) w')) = rp_Instance r \<and>
     length (rp_Checks (fst (run_probes clock ps (r\<lparr>rp_Checks := rp_Checks r @ [d]\<rparr>) w'))) =
       Suc (length (rp_Checks r)) + length (filter (\<lambda>p. p \<noteq> None) ps) \<and>
     take (Suc (length (rp_Checks r))) (rp_Checks (fst (run_probes clock ps (r\<lparr>rp_Checks := rp_Checks r @ [d]\<rparr>) w'))) = rp_Checks r @ [d]"
    using "3.IH" [OF refl p [symmetric] refl refl refl] d by (simp add: c'_def p)
  then show ?case unfolding run d by (auto simp: take_Suc_conv_app_nth)
qed auto

end
