(* ===== verification/Config_Files.thy ===== *)
theory Config_Files
  imports User_Sql Pgbouncer
begin

section \<open>Configuration files and the bootstrap of a cluster\<close>

text \<open>
  The packages \<open>configfile\<close> (\<open>postgresql.conf\<close> and \<open>pg_hba.conf\<close>) and \<open>initialize\<close> (the bootstrap script and the first
  SQL statements). The specification is a reader for \<open>postgresql.conf\<close> with PostgreSQL's quoting, and the SQL lexer of
  \<open>User_Sql\<close>.
\<close>

subsection \<open>The package configfile\<close>

definition isDigitOrUnit :: "nat \<Rightarrow> bool" where
  "isDigitOrUnit c \<longleftrightarrow> 48 \<le> c \<and> c \<le> 57 \<or> c = byte CHR ''.'' \<or> c = byte CHR ''-'' \<or> c = byte CHR ''k'' \<or> c = byte CHR ''K'' \<or>
     c = byte CHR ''M'' \<or> c = byte CHR ''G'' \<or> c = byte CHR ''B'' \<or> c = byte CHR ''s'' \<or> c = byte CHR ''m'' \<or> c = byte CHR ''h'' \<or>
     c = byte CHR ''d''"

definition needsQuote :: "unitab \<Rightarrow> string \<Rightarrow> bool" where
  "needsQuote u v =
     (if v = [] then True
      else if ToLower u v \<in> {''on'', ''off'', ''true'', ''false'', ''yes'', ''no''} then False
      else if list_ex (\<lambda>c. c \<in> {32, 9, 39, 34, 35, 92}) (runes v) then True
      else \<not> list_all isDigitOrUnit (runes v))"

definition escapeValue :: "string \<Rightarrow> string" where
  "escapeValue v = ReplaceAll v SQ [SQ, SQ]"

definition em_dash :: string where "em_dash = [CHR 0xE2, CHR 0x80, CHR 0x94]"

definition param_line :: "unitab \<Rightarrow> smap \<Rightarrow> string \<Rightarrow> string" where
  "param_line u params k =
     (let v = mapidx params k in
      if needsQuote u v then k @ '' = '' @ [SQ] @ escapeValue v @ [SQ] @ [LF] else k @ '' = '' @ v @ [LF])"

definition PostgreSQLConf :: "unitab \<Rightarrow> smap \<Rightarrow> string" where
  "PostgreSQLConf u params =
     ''# Generated by Athos Kubernetes operator '' @ em_dash @ '' do not edit manually.'' @ [LF] @ [LF] @
     concat (map (param_line u params) (sort (keys params)))"

record HBARule =
  hr_Type :: string
  hr_Database :: string
  hr_User :: string
  hr_Address :: string
  hr_Method :: string
  hr_Options :: string

definition HBARule_String :: "HBARule \<Rightarrow> string" where
  "HBARule_String r =
     Join ([hr_Type r, hr_Database r, hr_User r] @
       (if hr_Type r \<noteq> ''local'' then [if hr_Address r = [] then ''0.0.0.0/0'' else hr_Address r] else []) @
       [hr_Method r] @ (if hr_Options r \<noteq> [] then [hr_Options r] else [])) [CHR 0x09]"

definition PgHBAConf :: "HBARule list \<Rightarrow> string" where
  "PgHBAConf rules =
     ''# Generated by Athos Kubernetes operator '' @ em_dash @ '' do not edit manually.'' @ [LF] @ ''#'' @ [LF] @
     ''# TYPE  DATABASE        USER            ADDRESS                 METHOD'' @ [LF] @ [LF] @
     concat (map (\<lambda>r. HBARule_String r @ [LF]) rules) @
     ''# Deny all other connections.'' @ [LF] @
     ''host    all             all             0.0.0.0/0               reject'' @ [LF]"

definition hba :: "string \<Rightarrow> string \<Rightarrow> string \<Rightarrow> string \<Rightarrow> string \<Rightarrow> HBARule" where
  "hba ty db usr addr meth = \<lparr>hr_Type = ty, hr_Database = db, hr_User = usr, hr_Address = addr, hr_Method = meth, hr_Options = []\<rparr>"

definition DefaultRules :: "string \<Rightarrow> HBARule list" where
  "DefaultRules clusterCIDR =
     [hba ''local'' ''all'' ''postgres'' [] ''peer'', hba ''local'' ''replication'' ''postgres'' [] ''peer'',
      hba ''local'' ''all'' ''all'' [] ''scram-sha-256'', hba ''host'' ''all'' ''all'' ''127.0.0.1/32'' ''scram-sha-256'',
      hba ''host'' ''all'' ''all'' ''::1/128'' ''scram-sha-256'',
      hba ''host'' ''replication'' ''postgres'' clusterCIDR ''scram-sha-256'',
      hba ''host'' ''all'' ''all'' clusterCIDR ''scram-sha-256'']"

definition conf_MergeParams :: "smap list \<Rightarrow> smap" where
  "conf_MergeParams sources = foldl range_set [] sources"

definition RequiredParams :: "int \<Rightarrow> int \<Rightarrow> smap" where
  "RequiredParams port maxConn =
     [(''listen_addresses'', ''*''), (''port'', dec port), (''max_connections'', dec maxConn),
      (''superuser_reserved_connections'', ''3''), (''logging_collector'', ''off''), (''log_destination'', ''stderr'')]"

definition WALStreamingParams :: "int \<Rightarrow> int \<Rightarrow> smap" where
  "WALStreamingParams maxWALSenders maxSlots =
     [(''wal_level'', ''replica''), (''max_wal_senders'', dec maxWALSenders), (''max_replication_slots'', dec maxSlots),
      (''hot_standby'', ''on''), (''hot_standby_feedback'', ''on'')]"

definition ArchiveParams :: "string \<Rightarrow> smap" where
  "ArchiveParams archiveCmd = [(''archive_mode'', ''on''), (''archive_command'', archiveCmd), (''archive_timeout'', ''300'')]"

definition TLSParams :: "string \<Rightarrow> smap" where
  "TLSParams certDir = [(''ssl'', ''on''), (''ssl_cert_file'', certDir @ ''/server.crt''), (''ssl_key_file'', certDir @ ''/server.key'')]"

subsection \<open>The package initialize\<close>

definition PGDataDir :: string where "PGDataDir = ''/var/lib/postgresql/data/pgdata''"
definition PGConfigDir :: string where "PGConfigDir = ''/etc/postgresql''"

record InitParams =
  ip_PostgresVersion :: int
  ip_DatabaseName :: string
  ip_SuperuserName :: string
  ip_ReplicationUser :: string
  ip_Locale :: string
  ip_Encoding :: string
  ip_DataChecksums :: bool
  ip_WALDir :: string

definition DefaultInitParams :: "int \<Rightarrow> string \<Rightarrow> InitParams" where
  "DefaultInitParams pgVersion clusterName =
     \<lparr>ip_PostgresVersion = pgVersion, ip_DatabaseName = clusterName, ip_SuperuserName = ''postgres'',
      ip_ReplicationUser = ''replicator'', ip_Locale = ''en_US.UTF-8'', ip_Encoding = ''UTF8'', ip_DataChecksums = True, ip_WALDir = []\<rparr>"

definition pgdata :: string where "pgdata = [DQ] @ ''${PGDATA}'' @ [DQ]"
definition in_pgdata :: "string \<Rightarrow> string" where "in_pgdata f = [DQ] @ ''${PGDATA}/'' @ f @ [DQ]"

definition BootstrapScript :: "unitab \<Rightarrow> InitParams \<Rightarrow> string" where
  "BootstrapScript u p =
     ''#!/bin/bash'' @ [LF] @ ''set -euo pipefail'' @ [LF, LF] @
     ''PGDATA='' @ Quote u PGDataDir @ [LF, LF] @
     ''# Create data directory if it does not exist'' @ [LF] @
     ''mkdir -p '' @ pgdata @ [LF] @ ''chmod 0700 '' @ pgdata @ [LF, LF] @
     ''# Only run initdb if PGDATA is not already initialised'' @ [LF] @
     ''if [ ! -f '' @ in_pgdata ''PG_VERSION'' @ '' ]; then'' @ [LF] @
     ''  initdb_args='' @ [DQ] @ ''--username='' @ ip_SuperuserName p @ '' --encoding='' @ ip_Encoding p @ '' --locale='' @ ip_Locale p @ [DQ] @ [LF] @
     (if ip_DataChecksums p then ''  initdb_args='' @ [DQ] @ ''${initdb_args} --data-checksums'' @ [DQ] @ [LF] else []) @
     (if ip_WALDir p \<noteq> []
      then ''  mkdir -p '' @ Quote u (ip_WALDir p) @ [LF] @
           ''  initdb_args='' @ [DQ] @ ''${initdb_args} --waldir='' @ ip_WALDir p @ [DQ] @ [LF]
      else []) @
     ''  initdb ${initdb_args} -D '' @ pgdata @ [LF] @ ''fi'' @ [LF, LF] @
     ''# Copy operator-managed config files'' @ [LF] @
     ''cp '' @ PGConfigDir @ ''/postgresql.conf '' @ in_pgdata ''postgresql.conf'' @ [LF] @
     ''cp '' @ PGConfigDir @ ''/pg_hba.conf '' @ in_pgdata ''pg_hba.conf'' @ [LF, LF] @
     ''echo '' @ [DQ] @ ''Bootstrap complete.'' @ [DQ] @ [LF]"

definition quoteIdent :: "string \<Rightarrow> string" where
  "quoteIdent s = [DQ] @ ReplaceAll s DQ [DQ, DQ] @ [DQ]"

definition quoteLiteral :: "string \<Rightarrow> string" where
  "quoteLiteral s = [SQ] @ ReplaceAll s SQ [SQ, SQ] @ [SQ]"

definition PostInitSQL :: "InitParams \<Rightarrow> string \<Rightarrow> string" where
  "PostInitSQL p password =
     ''-- Managed by athos-kubernetes - do not edit'' @ [LF, LF] @
     ''CREATE USER '' @ quoteIdent (ip_ReplicationUser p) @ '' WITH REPLICATION ENCRYPTED PASSWORD '' @ quoteLiteral password @ '';'' @ [LF] @
     (if ip_DatabaseName p \<noteq> ''postgres'' \<and> ip_DatabaseName p \<noteq> ip_SuperuserName p
      then ''CREATE DATABASE '' @ quoteIdent (ip_DatabaseName p) @ '' OWNER '' @ quoteIdent (ip_SuperuserName p) @
           '' ENCODING '' @ quoteLiteral (ip_Encoding p) @ '' LC_COLLATE '' @ quoteLiteral (ip_Locale p) @
           '' LC_CTYPE '' @ quoteLiteral (ip_Locale p) @ '';'' @ [LF]
      else [])"

definition DataDirIsEmpty :: string where
  "DataDirIsEmpty = ''[ ! -f '' @ in_pgdata ''PG_VERSION'' @ '' ]''"

definition init_ContainerName :: string where "init_ContainerName = ''init-postgres''"

subsection \<open>Reading \<open>postgresql.conf\<close>\<close>

text \<open>
  A quoted value ends at a single quote, two in a row stand for one, and a backslash makes the next character literal (its letter
  escapes are left out). An unquoted value is the rest of the line.
\<close>

fun conf_unquote :: "string \<Rightarrow> string option" where
  "conf_unquote [] = None"
| "conf_unquote [c] = (if c = SQ then Some [] else None)"
| "conf_unquote (c # d # cs) =
     (if c = SQ then (if d = SQ then map_option ((#) SQ) (conf_unquote cs) else None)
      else if c = CHR 0x5C then map_option ((#) d) (conf_unquote cs)
      else map_option ((#) c) (conf_unquote (d # cs)))"

definition conf_value :: "string \<Rightarrow> string option" where
  "conf_value v = (if v \<noteq> [] \<and> hd v = SQ then conf_unquote (tl v) else Some v)"

fun conf_read :: "string list \<Rightarrow> (string \<times> string option) list" where
  "conf_read [] = []"
| "conf_read (l # ls) =
     (if l = [] \<or> hd l = CHR ''#'' then conf_read ls
      else case cut_eq l of None \<Rightarrow> conf_read ls | Some (k, v) \<Rightarrow> (k, conf_value v) # conf_read ls)"

definition conf_settings :: "string \<Rightarrow> (string \<times> string option) list" where
  "conf_settings txt = conf_read (splitc LF txt)"

lemma conf_unquote_escaped:
  "CHR 0x5C \<notin> set v \<Longrightarrow> conf_unquote (escapeValue v @ [SQ]) = Some v"
proof (induction v)
  case (Cons c v)
  then show ?case
  proof (cases "c = SQ")
    case False
    obtain x xs where "escapeValue v @ [SQ] = x # xs" by (cases "escapeValue v") auto
    with Cons False show ?thesis by (auto simp: escapeValue_def)
  qed (auto simp: escapeValue_def)
qed (simp add: escapeValue_def)

lemma ToLower_keeps_quote: "SQ \<in> set v \<Longrightarrow> SQ \<in> set (ToLower u v)"
proof -
  assume "SQ \<in> set v"
  then have "39 \<in> set (runes v)" using runes_small [of SQ v] by simp
  moreover have "SQ \<in> set (EncodeRune (rune_lower u 39))" 
    unfolding SQ_def by code_simp
  ultimately show ?thesis by (auto simp: ToLower_def)
qed

lemma quote_needs_quote: "SQ \<in> set v \<Longrightarrow> needsQuote u v"
proof -
  assume q: "SQ \<in> set v"
  then have "39 \<in> set (runes v)" using runes_small [of SQ v] by simp
  moreover have "ToLower u v \<notin> {''on'', ''off'', ''true'', ''false'', ''yes'', ''no''}"
    using ToLower_keeps_quote [OF q, of u] by (auto simp: SQ_def)
  ultimately show ?thesis by (auto simp: needsQuote_def list_ex_iff)
qed

definition conf_key :: "string \<Rightarrow> bool" where
  "conf_key k \<longleftrightarrow> k \<noteq> [] \<and> hd k \<noteq> CHR ''#'' \<and> CHR ''='' \<notin> set k \<and> LF \<notin> set k"

definition param_text :: "unitab \<Rightarrow> smap \<Rightarrow> string \<Rightarrow> string" where
  "param_text u params k =
     k @ '' = '' @ (if needsQuote u (mapidx params k) then [SQ] @ escapeValue (mapidx params k) @ [SQ] else mapidx params k)"

lemma param_line_text: "param_line u params = (\<lambda>k. param_text u params k @ [LF])"
  by (rule ext) (simp add: param_line_def param_text_def Let_def)

lemma conf_read_param:
  assumes "conf_key k" "CHR 0x5C \<notin> set (mapidx params k)"
  shows "conf_read (param_text u params k # ls) = (k, Some (mapidx params k)) # conf_read ls"
proof -
  let ?v = "mapidx params k"
  let ?w = "if needsQuote u ?v then [SQ] @ escapeValue ?v @ [SQ] else ?v"
  have "conf_value ?w = Some ?v"
  proof (cases "needsQuote u ?v")
    case True
    then show ?thesis using conf_unquote_escaped [OF assms(2)] by (simp add: conf_value_def)
  next
    case False
    then have "SQ \<notin> set ?v" using quote_needs_quote by blast
    then show ?thesis using False by (auto simp: conf_value_def dest: hd_in_set)
  qed
  moreover have "cut_eq (k @ '' = '' @ ?w) = Some (k, ?w)" using assms(1) by (intro cut_eq_setting) (simp add: conf_key_def)
  moreover have "k @ '' = '' @ ?w \<noteq> []" "hd (k @ '' = '' @ ?w) \<noteq> CHR ''#''" using assms(1) by (auto simp: conf_key_def)
  ultimately show ?thesis unfolding param_text_def by simp
qed

lemma escapeValue_chars: "set (escapeValue v) \<subseteq> set v"
  by (induction v) (auto simp: escapeValue_def)

text \<open>
  The written \<open>postgresql.conf\<close> reads back: every parameter, in the order of the keys, with its value, for keys that are names and
  values without a line feed or a backslash.
\<close>

theorem PostgreSQLConf_round_trip:
  assumes "\<forall>k \<in> set (keys params). conf_key k \<and> LF \<notin> set (mapidx params k) \<and> CHR 0x5C \<notin> set (mapidx params k)"
  shows "conf_settings (PostgreSQLConf u params) = map (\<lambda>k. (k, Some (mapidx params k))) (sort (keys params))"
proof -
  let ?head = "''# Generated by Athos Kubernetes operator '' @ em_dash @ '' do not edit manually.''"
  let ?ls = "?head # [] # map (param_text u params) (sort (keys params))"
  have "PostgreSQLConf u params = lines_text ?ls"
    by (simp add: PostgreSQLConf_def param_line_text o_def)
  moreover have "LF \<notin> set l" if "l \<in> set ?ls" for l
  proof -
    consider "l = ?head" | "l = []" | k where "k \<in> set (keys params)" "l = param_text u params k" using \<open>l \<in> set ?ls\<close> by auto
    then show ?thesis
    proof cases
      case (3 k)
      then show ?thesis using bspec [OF assms 3(1)] escapeValue_chars [of "mapidx params k"]
        by (auto simp: param_text_def conf_key_def SQ_def)
    qed (simp_all add: em_dash_def)
  qed
  then have "splitc LF (lines_text ?ls) = ?ls @ [[]]" by (intro splitc_lines ballI)
  ultimately have split: "splitc LF (PostgreSQLConf u params) = ?ls @ [[]]" by (simp only:)
  have "conf_read (map (param_text u params) ks @ [[]]) = map (\<lambda>k. (k, Some (mapidx params k))) ks" if "set ks \<subseteq> set (keys params)" for ks
    using that
  proof (induction ks)
    case (Cons k ks)
    then have "conf_key k" "CHR 0x5C \<notin> set (mapidx params k)" using assms by auto
    then show ?case using Cons by (simp add: conf_read_param del: conf_read.simps(2))
  qed simp
  then show ?thesis unfolding conf_settings_def split by simp
qed

text \<open>Evaluation for a search path with quotes.\<close>

theorem PostgreSQLConf_round_trip_witness:
  "conf_settings (PostgreSQLConf ascii_tab [(''search_path'', SQ # ''a b'' @ [SQ]), (''port'', ''5432'')]) =
     [(''port'', Some ''5432''), (''search_path'', Some (SQ # ''a b'' @ [SQ]))]"
proof -
  let ?p = "[(''search_path'', SQ # ''a b'' @ [SQ]), (''port'', ''5432'')]"
  have "sort (keys ?p) = [''port'', ''search_path'']" by code_simp
  moreover have "\<forall>k \<in> set (keys ?p). conf_key k \<and> LF \<notin> set (mapidx ?p k) \<and> CHR 0x5C \<notin> set (mapidx ?p k)" by code_simp
  ultimately show ?thesis using PostgreSQLConf_round_trip [of ?p ascii_tab] by simp
qed

text \<open>A backslash is written as it is and lost in reading.\<close>

lemma PostgreSQLConf_backslash:
  "conf_read [param_text ascii_tab [(''x'', [CHR ''a'', CHR 0x5C, CHR ''b''])] ''x''] = [(''x'', Some ''ab'')]"
  by code_simp

text \<open>The later source wins.\<close>

lemma foldl_range_set:
  "list_all wf_map ss \<Longrightarrow> map_of (foldl range_set m ss) = foldl (++) (map_of m) (map map_of ss)"
  by (induction ss arbitrary: m) (simp_all add: range_set_lookup)

lemma conf_MergeParams_last:
  "list_all wf_map sources \<Longrightarrow> map_of (conf_MergeParams sources) = foldl (++) Map.empty (map map_of sources)"
  using foldl_range_set [of sources "[]"] by (simp add: conf_MergeParams_def)

text \<open>A rule without an address is open to every IPv4 host.\<close>

lemma HBARule_columns:
  assumes "list_all (\<lambda>w. CHR 0x09 \<notin> set w) [hr_Type r, hr_Database r, hr_User r, hr_Address r, hr_Method r]" "hr_Options r = []"
    "hr_Type r \<noteq> ''local''"
  shows "splitc (CHR 0x09) (HBARule_String r) =
    [hr_Type r, hr_Database r, hr_User r, if hr_Address r = [] then ''0.0.0.0/0'' else hr_Address r, hr_Method r]"
  using assms unfolding HBARule_String_def by (subst splitc_Join) auto

subsection \<open>The first SQL statements\<close>

interpretation initident: quoting DQ "\<lambda>_. True" quoteIdent
  by unfold_locales (simp add: unquote_def quoteIdent_def scan_quoted_doubled)

interpretation initlit: quoting SQ "\<lambda>_. True" quoteLiteral
  by unfold_locales (simp add: unquote_def quoteLiteral_def scan_quoted_doubled)

definition post_init_segs :: "InitParams \<Rightarrow> string \<Rightarrow> seg list" where
  "post_init_segs p password =
     [Lit (''-- Managed by athos-kubernetes - do not edit'' @ [LF, LF] @ ''CREATE USER ''), QI (ip_ReplicationUser p),
      Lit '' WITH REPLICATION ENCRYPTED PASSWORD '', QS password, Lit ('';'' @ [LF])] @
     (if ip_DatabaseName p \<noteq> ''postgres'' \<and> ip_DatabaseName p \<noteq> ip_SuperuserName p
      then [Lit ''CREATE DATABASE '', QI (ip_DatabaseName p), Lit '' OWNER '', QI (ip_SuperuserName p), Lit '' ENCODING '', QS (ip_Encoding p),
            Lit '' LC_COLLATE '', QS (ip_Locale p), Lit '' LC_CTYPE '', QS (ip_Locale p), Lit ('';'' @ [LF])]
      else [])"

text \<open>
  The statements lex to one CREATE USER and, for a database of its own name, one CREATE DATABASE, with every name and the password a
  single token, whatever characters they have (names without a zero byte). The leading comment line has no quote and is read as
  plain characters.
\<close>

theorem PostInitSQL_tokens:
  assumes "NUL \<notin> set (ip_ReplicationUser p)" "NUL \<notin> set (ip_DatabaseName p)" "NUL \<notin> set (ip_SuperuserName p)"
  shows "sql_lex (PostInitSQL p pw) = Some (toks (post_init_segs p pw))"
proof -
  have q: "quoteIdent s = Identifier s" if "NUL \<notin> set s" for s using that by (simp add: quoteIdent_def Identifier_def)
  have l: "quoteLiteral s = StringLiteral s" for s by (simp add: quoteLiteral_def StringLiteral_def)
  have "PostInitSQL p pw = render (post_init_segs p pw)"
    using assms by (simp add: PostInitSQL_def post_init_segs_def q l)
  moreover have "wf_segs (post_init_segs p pw)" using assms by (simp add: post_init_segs_def DQ_def SQ_def)
  ultimately show ?thesis using lex_segs [of "post_init_segs p pw" "[]"] by simp
qed

text \<open>Evaluation for a password that tries to leave its literal.\<close>

theorem PostInitSQL_tokens_witness:
  "TStr (SQ # ''; DROP'') \<in> set (the (sql_lex (PostInitSQL (DefaultInitParams 16 ''db'') (SQ # ''; DROP''))))"
proof -
  let ?p = "DefaultInitParams 16 ''db''"
  have "NUL \<notin> set (ip_ReplicationUser ?p)" "NUL \<notin> set (ip_DatabaseName ?p)" "NUL \<notin> set (ip_SuperuserName ?p)"
    by code_simp+
  from PostInitSQL_tokens [OF this] show ?thesis by (simp add: post_init_segs_def)
qed

end
