(* ===== verification/Network.thy ===== *)
theory Network
  imports Pooler_Controller Pods
begin

section \<open>Network policies and the Services beside them\<close>

text \<open>
  The package \<open>network\<close>: two NetworkPolicies, four Services and their DNS names. The specification is \<open>admits\<close>, the documented
  meaning of an ingress policy for a packet from a pod.
\<close>

record NetworkPolicyPort =
  np_Port :: IntOrString
  np_Protocol :: string

record NetworkPolicyPeer =
  npp_NamespaceSelector :: "LabelSelector option"
  npp_PodSelector :: "LabelSelector option"

record NetworkPolicyIngressRule =
  npr_Ports :: "NetworkPolicyPort list"
  npr_From :: "NetworkPolicyPeer list"

record NetworkPolicySpec =
  nps_PodSelector :: LabelSelector
  nps_PolicyTypes :: "string list"
  nps_Ingress :: "NetworkPolicyIngressRule list"

record NetworkPolicy =
  npol_meta :: ObjectMeta
  npol_Spec :: NetworkPolicySpec

definition network_postgresPort :: int where "network_postgresPort = 5432"
definition network_pgBouncerPort :: int where "network_pgBouncerPort = 6432"

definition PolicyName :: "string \<Rightarrow> string" where "PolicyName clusterName = clusterName @ ''-netpol''"
definition ReplicationPolicyName :: "string \<Rightarrow> string" where "ReplicationPolicyName clusterName = clusterName @ ''-replication-netpol''"

definition ClusterNetworkPolicy :: "PostgresCluster \<Rightarrow> NetworkPolicy" where
  "ClusterNetworkPolicy cluster =
     \<lparr>npol_meta = meta_lit (PolicyName (cluster_name cluster)) (om_Namespace (pgc_meta cluster)) (CommonLabels cluster),
      npol_Spec =
        \<lparr>nps_PodSelector = \<lparr>ls_MatchLabels = SelectorLabels cluster\<rparr>,
         nps_PolicyTypes = [''Ingress''],
         nps_Ingress =
           [\<lparr>npr_Ports = [\<lparr>np_Port = FromInt network_postgresPort, np_Protocol = ''TCP''\<rparr>],
             npr_From = [\<lparr>npp_NamespaceSelector = Some \<lparr>ls_MatchLabels = []\<rparr>, npp_PodSelector = Some \<lparr>ls_MatchLabels = []\<rparr>\<rparr>]\<rparr>,
            \<lparr>npr_Ports = [],
             npr_From = [\<lparr>npp_NamespaceSelector = None, npp_PodSelector = Some \<lparr>ls_MatchLabels = SelectorLabels cluster\<rparr>\<rparr>]\<rparr>]\<rparr>\<rparr>"

definition PoolerNetworkPolicy :: "PostgresCluster \<Rightarrow> NetworkPolicy" where
  "PoolerNetworkPolicy cluster =
     \<lparr>npol_meta = meta_lit (cluster_name cluster @ ''-pooler-netpol'') (om_Namespace (pgc_meta cluster)) (CommonLabels cluster),
      npol_Spec =
        \<lparr>nps_PodSelector = \<lparr>ls_MatchLabels = [(''app.kubernetes.io/component'', ''pooler''), (''pg.athos.io/cluster'', cluster_name cluster)]\<rparr>,
         nps_PolicyTypes = [''Ingress''],
         nps_Ingress =
           [\<lparr>npr_Ports = [\<lparr>np_Port = FromInt network_pgBouncerPort, np_Protocol = ''TCP''\<rparr>],
             npr_From = [\<lparr>npp_NamespaceSelector = Some \<lparr>ls_MatchLabels = []\<rparr>, npp_PodSelector = Some \<lparr>ls_MatchLabels = []\<rparr>\<rparr>]\<rparr>]\<rparr>\<rparr>"

definition network_HeadlessServiceName :: "string \<Rightarrow> string" where "network_HeadlessServiceName clusterName = clusterName @ ''-headless''"
definition ReadWriteServiceName :: "string \<Rightarrow> string" where "ReadWriteServiceName clusterName = clusterName @ ''-rw''"
definition ReadOnlyServiceName :: "string \<Rightarrow> string" where "ReadOnlyServiceName clusterName = clusterName @ ''-ro''"
definition AnyServiceName :: "string \<Rightarrow> string" where "AnyServiceName clusterName = clusterName @ ''-any''"

definition network_port :: ServicePort where
  "network_port = \<lparr>sp_Name = ''postgres'', sp_Port = network_postgresPort, sp_TargetPort = FromInt network_postgresPort, sp_Protocol = ''TCP''\<rparr>"

definition HeadlessService :: "PostgresCluster \<Rightarrow> Service" where
  "HeadlessService cluster =
     \<lparr>svc_meta = (meta_lit (network_HeadlessServiceName (cluster_name cluster)) (om_Namespace (pgc_meta cluster)) (CommonLabels cluster))
        \<lparr>om_Annotations := [(''service.alpha.kubernetes.io/tolerate-unready-endpoints'', ''true'')]\<rparr>,
      svc_Spec = \<lparr>svs_Type = [], svs_ClusterIP = ''None'', svs_PublishNotReadyAddresses = True,
        svs_Selector = SelectorLabels cluster, svs_Ports = [network_port]\<rparr>\<rparr>"

definition ReadWriteService :: "PostgresCluster \<Rightarrow> Service" where
  "ReadWriteService cluster =
     \<lparr>svc_meta = meta_lit (ReadWriteServiceName (cluster_name cluster)) (om_Namespace (pgc_meta cluster)) (CommonLabels cluster),
      svc_Spec = \<lparr>svs_Type = ''ClusterIP'', svs_ClusterIP = [], svs_PublishNotReadyAddresses = False,
        svs_Selector = [(LabelCluster, cluster_name cluster), (LabelRole, RolePrimary)], svs_Ports = [network_port]\<rparr>\<rparr>"

definition ReadOnlyService :: "PostgresCluster \<Rightarrow> Service" where
  "ReadOnlyService cluster =
     \<lparr>svc_meta = meta_lit (ReadOnlyServiceName (cluster_name cluster)) (om_Namespace (pgc_meta cluster)) (CommonLabels cluster),
      svc_Spec = \<lparr>svs_Type = ''ClusterIP'', svs_ClusterIP = [], svs_PublishNotReadyAddresses = False,
        svs_Selector = [(LabelCluster, cluster_name cluster), (LabelRole, RoleReplica)], svs_Ports = [network_port]\<rparr>\<rparr>"

definition AnyService :: "PostgresCluster \<Rightarrow> Service" where
  "AnyService cluster =
     \<lparr>svc_meta = meta_lit (AnyServiceName (cluster_name cluster)) (om_Namespace (pgc_meta cluster)) (CommonLabels cluster),
      svc_Spec = \<lparr>svs_Type = ''ClusterIP'', svs_ClusterIP = [], svs_PublishNotReadyAddresses = False,
        svs_Selector = SelectorLabels cluster, svs_Ports = [network_port]\<rparr>\<rparr>"

definition network_ServiceFQDN :: "string \<Rightarrow> string \<Rightarrow> string" where
  "network_ServiceFQDN name namespace = name @ ''.'' @ namespace @ ''.svc.cluster.local''"

definition network_PodFQDN :: "string \<Rightarrow> string \<Rightarrow> string \<Rightarrow> string" where
  "network_PodFQDN podName headlessSvcName namespace = podName @ ''.'' @ headlessSvcName @ ''.'' @ namespace @ ''.svc.cluster.local''"

subsection \<open>The meaning of a policy\<close>

text \<open>
  A packet is described by the namespace of the sending pod, the labels of that namespace and of the pod, the protocol and the
  port. A peer without a namespace selector means the policy's own namespace, no ports means every port.
\<close>

record packet =
  pk_ns :: string
  pk_nsLabels :: smap
  pk_podLabels :: smap
  pk_protocol :: string
  pk_port :: int

definition peer_admits :: "string \<Rightarrow> packet \<Rightarrow> NetworkPolicyPeer \<Rightarrow> bool" where
  "peer_admits ns pk p \<longleftrightarrow>
     (case npp_NamespaceSelector p of None \<Rightarrow> pk_ns pk = ns | Some sel \<Rightarrow> selects (ls_MatchLabels sel) (pk_nsLabels pk)) \<and>
     (case npp_PodSelector p of None \<Rightarrow> True | Some sel \<Rightarrow> selects (ls_MatchLabels sel) (pk_podLabels pk))"

definition rule_admits :: "string \<Rightarrow> packet \<Rightarrow> NetworkPolicyIngressRule \<Rightarrow> bool" where
  "rule_admits ns pk r \<longleftrightarrow>
     (npr_From r = [] \<or> list_ex (peer_admits ns pk) (npr_From r)) \<and>
     (npr_Ports r = [] \<or> list_ex (\<lambda>q. np_Port q = IntVal (pk_port pk) \<and> np_Protocol q = pk_protocol pk) (npr_Ports r))"

definition admits :: "NetworkPolicy \<Rightarrow> packet \<Rightarrow> bool" where
  "admits pol pk \<longleftrightarrow> list_ex (rule_admits (om_Namespace (npol_meta pol)) pk) (nps_Ingress (npol_Spec pol))"

lemma selects_nothing [simp]: "selects [] labels"
  by (simp add: selects_def)

text \<open>
  The cluster's policy selects the pods of the cluster's StatefulSet and of no cluster of another name. It admits TCP 5432 from
  every pod of every namespace, every port from the pods of the same cluster in the same namespace, and nothing else.
\<close>

theorem ClusterNetworkPolicy_admits:
  fixes c d :: PostgresCluster
  defines "pol \<equiv> ClusterNetworkPolicy c"
  shows "(selects (ls_MatchLabels (nps_PodSelector (npol_Spec pol))) (om_Labels (pts_meta (ss_Template (sts_Spec (BuildStatefulSet d)))))
       \<longleftrightarrow> cluster_name c = cluster_name d) \<and>
    (admits pol pk \<longleftrightarrow> pk_port pk = 5432 \<and> pk_protocol pk = ''TCP'' \<or>
       pk_ns pk = om_Namespace (pgc_meta c) \<and> selects (SelectorLabels c) (pk_podLabels pk))"
proof
  show "selects (ls_MatchLabels (nps_PodSelector (npol_Spec pol))) (om_Labels (pts_meta (ss_Template (sts_Spec (BuildStatefulSet d)))))
       \<longleftrightarrow> cluster_name c = cluster_name d"
    by (auto simp: pol_def ClusterNetworkPolicy_def SelectorLabels_def selects_def BuildStatefulSet_def CommonLabels_def MergeLabels_def)
  show "admits pol pk \<longleftrightarrow> pk_port pk = 5432 \<and> pk_protocol pk = ''TCP'' \<or>
       pk_ns pk = om_Namespace (pgc_meta c) \<and> selects (SelectorLabels c) (pk_podLabels pk)"
    by (auto simp: pol_def ClusterNetworkPolicy_def admits_def rule_admits_def peer_admits_def network_postgresPort_def FromInt_def i32_def)
qed

text \<open>
  The pooler's policy selects the pods of the cluster's pooler, which listen on the port of the default configuration, and does
  not admit that port.
\<close>

theorem PoolerNetworkPolicy_shuts_pooler:
  fixes c :: PostgresCluster
  defines "tmpl \<equiv> ds_Template (dep_Spec (poolerDeployment c DefaultConfig))"
  shows "selects (ls_MatchLabels (nps_PodSelector (npol_Spec (PoolerNetworkPolicy c)))) (om_Labels (pts_meta tmpl)) \<and>
    (admits (PoolerNetworkPolicy c) pk \<longleftrightarrow> pk_port pk = 6432 \<and> pk_protocol pk = ''TCP'') \<and>
    map cp_ContainerPort (concat (map c_Ports (ps_Containers (pts_Spec tmpl)))) = [5432]"
  by (auto simp: tmpl_def poolerDeployment_def poolerLabels_def poolerContainer_def PoolerNetworkPolicy_def selects_def admits_def
      rule_admits_def peer_admits_def network_pgBouncerPort_def FromInt_def i32_def DefaultConfig_def SafeInt32_def)

text \<open>
  The Services of this package against those of the controllers: the same selectors and ports as the primary, replica and headless
  Service, and the names that the package \<open>dnsname\<close> resolves.
\<close>

theorem network_services_agree:
  "svs_Selector (svc_Spec (ReadWriteService c)) = svs_Selector (svc_Spec (BuildPrimaryService c)) \<and>
   svs_Selector (svc_Spec (ReadOnlyService c)) = svs_Selector (svc_Spec (BuildReplicaService c)) \<and>
   svs_Selector (svc_Spec (HeadlessService c)) = svs_Selector (svc_Spec (BuildHeadlessService c)) \<and>
   svs_Ports (svc_Spec (ReadWriteService c)) = svs_Ports (svc_Spec (BuildPrimaryService c)) \<and>
   network_ServiceFQDN (om_Name (svc_meta (ReadWriteService c))) ns = PrimaryFQDN clusterDomain (cluster_name c) ns \<and>
   network_ServiceFQDN (om_Name (svc_meta (ReadOnlyService c))) ns = ReplicaFQDN clusterDomain (cluster_name c) ns \<and>
   network_ServiceFQDN (om_Name (svc_meta (AnyService c))) ns = AnyFQDN clusterDomain (cluster_name c) ns \<and>
   network_ServiceFQDN (om_Name (svc_meta (HeadlessService c))) ns = HeadlessFQDN clusterDomain (cluster_name c) ns \<and>
   network_PodFQDN pod headless ns = dnsname_PodFQDN clusterDomain pod headless ns"
  by (simp add: ReadWriteService_def ReadOnlyService_def AnyService_def HeadlessService_def BuildPrimaryService_def
      BuildReplicaService_def BuildHeadlessService_def network_port_def pgServicePort_def network_postgresPort_def
      PostgresPort_def network_ServiceFQDN_def network_PodFQDN_def dnsname_PodFQDN_def ServiceFQDN_def PrimaryFQDN_def ReplicaFQDN_def AnyFQDN_def
      HeadlessFQDN_def clusterDomain_def ReadWriteServiceName_def ReadOnlyServiceName_def AnyServiceName_def network_HeadlessServiceName_def)

end
