(* ===== verification/Spec2Isabelle.thy ===== *)
theory Spec2Isabelle
  imports Conditions Cluster_Controller Backup_Controller User_Controller Pooler_Controller Decisions Rollout Upgrades
    Webhook Pods Workflows Statefulset_Builder Connstr Eventbus Backoff Patcher Durations Commands Storage Reports Config_Files Network
begin

text \<open>
  This library is a model of the Athos operator, which runs PostgreSQL clusters on Kubernetes, and a proof that
  its reconcilers, builders, parsers and decision tables do what they are meant to do.

  \<^bold>\<open>The program.\<close> \<open>cmd/main.go\<close> starts a controller manager. The manager calls \<open>Reconcile\<close> of a
  controller whenever an object changes. There is one controller each for clusters, backups, users and
  the connection pooler (\<open>internal/controller\<close>). A controller reads the custom resource
  (\<open>api/v1alpha1\<close>), computes the objects it wants with the builders of \<open>internal/postgres\<close>,
  \<open>internal/pdb\<close> and \<open>internal/pgbouncer\<close>, writes them through the API client, and records the outcome as
  phases and conditions. The user controller also sends SQL to the first pod. The other packages are
  libraries that the program and its tests may call: decision tables, planners, validators, parsers and printers.

  \<^bold>\<open>How Go is modelled.\<close> A Go string is a HOL \<open>string\<close>, a list of bytes; Unicode tables are the argument
  \<open>unitab\<close>. A map is an association list with distinct keys, so that statements about any iteration order
  can be made. Integers are \<open>int\<close>, and every operation that can leave the range of its Go type goes through
  \<open>i32\<close> or \<open>i64\<close>, which wrap. A time is a number of nanoseconds and a quantity is a rational number. An
  error is a value of a datatype; a function that may fail gives a sum or an option. Code with effects is a
  function of the world: \<open>('w, 'a) io\<close> in \<open>Kube_Client\<close>. The API server, the clock, the random source and the
  exec subresource are the fields of a record \<open>env\<close> that every effectful definition takes as an argument. The
  locale \<open>quiet_env\<close> says what a server that nobody else writes to does; \<open>mem_env\<close> is a server in memory that
  satisfies it, and every property about such a server is evaluated on it. Setting the controller reference of an object
  is assumed to succeed only for objects without a controller in the namespace of the owner (\<open>ref_ok\<close>).

  \<^bold>\<open>The theories.\<close>

  \<^item> \<open>Prelude\<close>, \<open>Go_Strings\<close>, \<open>Go_Time\<close>: wrap-around arithmetic, maps, the functions of \<open>strings\<close>, \<open>strconv\<close>
    and \<open>time\<close> the sources use, with their laws.
  \<^item> \<open>Kube_Types\<close>, \<open>Api_Types\<close>: the Kubernetes objects and the custom resources, field by field.
  \<^item> \<open>Conditions\<close>: \<open>internal/conditions\<close> and \<open>internal/postgres/status.go\<close>. An upsert is a locale that both
    setters interpret. Shown: what a setter leaves, when the transition time moves, that the in-place \<open>Remove\<close> is a filter.
  \<^item> \<open>Postgres_Naming\<close>, \<open>Postgres_Config\<close>, \<open>Postgres_Resources\<close>: \<open>internal/postgres\<close> and \<open>internal/pdb\<close>.
    Shown: names are injective where they are, how the Services route, what a disruption budget allows.
  \<^item> \<open>Kube_Client\<close>: the client, its laws, the logged client and the server in memory.
  \<^item> \<open>Password\<close>, \<open>Sql_Escape\<close>, \<open>User_Sql\<close>: \<open>internal/password\<close>, \<open>internal/events\<close>, \<open>internal/sqlescape\<close>,
    \<open>internal/userstate\<close> and the SQL of the user controller. The locale \<open>quoting\<close> is the contract of an escaping function. Shown: the
    SQL that is sent lexes into the intended tokens, and where it does not.
  \<^item> \<open>Cluster_Controller\<close>, \<open>Backup_Controller\<close>, \<open>User_Controller\<close>, \<open>Pooler_Controller\<close>: the four files of
    \<open>internal/controller\<close>. Shown for every server: which calls a reconcile can make. Shown for a quiet one: the objects
    and the status it leaves. The backup controller also has a step relation for its interleaving with the Job and the cluster.
  \<^item> \<open>Pgbouncer\<close>: \<open>internal/pgbouncer\<close>, \<open>internal/poolerconfig\<close>, \<open>internal/portmap\<close>; the rendered files read back.
  \<^item> \<open>Decisions\<close>: \<open>internal/clusterstate\<close> and \<open>internal/poolerstate\<close>; in which states an action is decided. No code carries the actions out.
  \<^item> \<open>Rollout\<close>, \<open>Upgrades\<close>: \<open>internal/rolerollout\<close>, \<open>internal/upgrade\<close>, \<open>internal/upgradepolicy\<close>; safety and progress of a rollout
    as a step relation, agreement of the two upgrade policies.
  \<^item> \<open>Cron\<close>: \<open>internal/cronexpr\<close> and \<open>internal/scheduler\<close>; \<open>Webhook\<close>: the admission webhook and \<open>internal/validation\<close>.
  \<^item> \<open>Pods\<close>: \<open>internal/ha\<close>, \<open>internal/podmanager\<close>, \<open>internal/dnsname\<close>. \<open>Workflows\<close>: \<open>internal/workflows\<close>.
  \<^item> \<open>Statefulset_Builder\<close>: \<open>internal/statefulset\<close>. \<open>Connstr\<close>: \<open>internal/store\<close>.
  \<^item> \<open>Eventbus\<close>: \<open>internal/eventbus\<close>, with the contract of a bus and a simulation on nested runs.
  \<^item> \<open>Backoff\<close>: \<open>internal/backoff\<close> and \<open>internal/keepalive\<close>; \<open>Retry\<close> returns for every bounded schedule.
  \<^item> \<open>Metadata\<close>: \<open>internal/labels\<close>, \<open>internal/finalizers\<close>, \<open>internal/owner\<close>, \<open>internal/predicates\<close>.
  \<^item> \<open>Patcher\<close>: \<open>internal/patcher\<close>; merging a computed patch gives the modified document.
  \<^item> \<open>Durations\<close>: \<open>internal/duration\<close> and \<open>internal/timeutil\<close>, on a model of \<open>time.ParseDuration\<close>; formatted durations read back.
  \<^item> \<open>Commands\<close>: \<open>internal/exec\<close> and \<open>internal/walarchive\<close>. The locale \<open>shell_quoting\<close> is the contract of a quoting function;
    shown: WAL segment names read back, and when a shell reads a command line as the intended words.
  \<^item> \<open>Recovery\<close>: \<open>internal/recovery\<close> and \<open>internal/replication\<close>; the settings of a valid target, the connection text of a standby.
  \<^item> \<open>Storage\<close>: \<open>internal/snapshot\<close> and \<open>internal/datadir\<close>; what retention deletes, and which paths stay inside the data directory.
  \<^item> \<open>Reports\<close>: \<open>internal/imageutil\<close> and \<open>internal/healthcheck\<close>; image references read back, and the status of a report.
  \<^item> \<open>Config_Files\<close>: \<open>internal/configfile\<close> and \<open>internal/initialize\<close>; \<open>postgresql.conf\<close> reads back, and the first SQL
    statements keep names and password single tokens.
  \<^item> \<open>Network\<close>: \<open>internal/network\<close>; which packets the two policies admit, and the agreement of its Services with the others.
  \<^bold>\<open>Loops.\<close> Loops are structural recursion or functions with a termination proof, so no fuel is used. The
  exceptions are the loops of \<open>upgradepolicy.SupportedTargets\<close> and \<open>backoff.Retry\<close>, partial functions whose
  value \<open>None\<close> means that they do not return; the first is shown to return below the largest integers and the second
  for every schedule with a limit. The bound in \<open>rollout_completes\<close> is the work left.

  \<^bold>\<open>Not modelled.\<close> \<open>cmd/main.go\<close> and the \<open>SetupWithManager\<close> methods only register components with the controller
  manager. \<open>cmd/plugin\<close>, \<open>internal/metrics\<close> and \<open>test/utils\<close> are input and output around libraries.
  \<open>internal/certificate\<close> calls the cryptographic libraries. \<open>zz_generated.deepcopy.go\<close> is generated, and in HOL
  every copy is deep; \<open>groupversion_info.go\<close> is registration. \<open>internal/version\<close> formats variables set by the linker.
  Seven libraries that no other package calls are left out: \<open>internal/topology\<close>, \<open>internal/probe\<close>,
  \<open>internal/sidecar\<close> and \<open>internal/storageclass\<close> build literals of the Kubernetes API, \<open>internal/resourcerequests\<close>
  computes with the quantities of the Kubernetes library, \<open>internal/secretkey\<close> reads keys of Secrets and
  \<open>internal/manifest\<close> splits and joins YAML texts for the release pipeline. The reconcilers import only \<open>events\<close>,
  \<open>password\<close>, \<open>pdb\<close>, \<open>pgbouncer\<close>, \<open>portmap\<close>, \<open>postgres\<close> and \<open>sqlescape\<close>; the other packages
  under \<open>internal\<close> are libraries beside them, and the theorems about those say what the library functions do. Constants and one-line names of
  the source are definitions of the theories and are not listed one by one in the manifest.
\<close>

end
